(* ===== verification/Prelude.thy ===== *)
theory Prelude
  imports Main "HOL-Library.Sublist" "HOL-Library.Char_ord" "HOL-Library.List_Lexorder" "HOL-Library.Code_Target_Nat"
begin

text \<open>
  Shared material of the development: the collections of facts the component theories
  add to, the lists and strings vocabulary that stands for the methods of Python's
  \<open>str\<close> the program calls, and generic lemmas on lists and maps.

  A Python string is a \<^typ>\<open>string\<close> that holds its UTF-8 encoding. Needles that are ASCII are
  found, split at and replaced bytewise exactly as Python finds them by code point; what
  Python counts in code points (\<open>len\<close>, slices) is written with \<open>cp_length\<close> and
  \<open>cp_take\<close> below, and the byte order of UTF-8 is the code point order that \<open>sorted\<close> uses.
\<close>

named_theorems emit_intros \<open>which external calls an effectful computation can make\<close>
named_theorems run_simps \<open>one step of an effectful computation\<close>

subsection \<open>Lists\<close>

fun join :: "string \<Rightarrow> string list \<Rightarrow> string" where
  "join sep [] = []"
| "join sep [x] = x"
| "join sep (x # y # xs) = x @ sep @ join sep (y # xs)"

lemma map_of_map_values: "map_of (map (\<lambda>(k, v). (k, f v)) xs) k = map_option f (map_of xs k)"
  by (induction xs) auto

lemma list_all_sublist:
  assumes "list_all P xs" and "xs = as @ bs @ cs"
  shows "list_all P bs"
  using assms by simp

lemma append_eq_split:
  assumes "xs @ ys = as @ c # bs"
  shows "(\<exists>zs. xs = as @ c # zs \<and> bs = zs @ ys) \<or> (\<exists>zs. as = xs @ zs \<and> ys = zs @ c # bs)"
  using assms by (auto simp: append_eq_append_conv2 Cons_eq_append_conv append_eq_Cons_conv)

lemma takeWhile_eq_prefix:
  "\<lbrakk>\<forall>x\<in>set xs. P x; ys = [] \<or> \<not> P (hd ys)\<rbrakk> \<Longrightarrow> takeWhile P (xs @ ys) = xs"
  by (induction xs) (cases ys; auto)+

subsection \<open>Searching and splitting\<close>

definition startswith :: "string \<Rightarrow> string \<Rightarrow> bool" where
  "startswith s p = prefix p s"

definition endswith :: "string \<Rightarrow> string \<Rightarrow> bool" where
  "endswith s p = prefix (rev p) (rev s)"

text \<open>\<open>needle in s\<close>\<close>

fun contains :: "string \<Rightarrow> string \<Rightarrow> bool" where
  "contains needle [] = (needle = [])"
| "contains needle (c # s) = (prefix needle (c # s) \<or> contains needle s)"

text \<open>\<open>s.split(sep, 1)\<close> when \<open>sep\<close> occurs: the part before its first occurrence and the rest.\<close>

fun split_once :: "string \<Rightarrow> string \<Rightarrow> (string \<times> string) option" where
  "split_once sep [] = (if sep = [] then Some ([], []) else None)"
| "split_once sep (c # s) =
     (if prefix sep (c # s) then Some ([], drop (length sep) (c # s))
      else map_option (\<lambda>(a, b). (c # a, b)) (split_once sep s))"

text \<open>\<open>s.split(sep, 1)[0]\<close> and \<open>s.rsplit(c, 1)[-1]\<close> for a one-character separator.\<close>

definition split_head :: "string \<Rightarrow> string \<Rightarrow> string" where
  "split_head sep s = (case split_once sep s of None \<Rightarrow> s | Some (a, _) \<Rightarrow> a)"

definition rsplit_last :: "char \<Rightarrow> string \<Rightarrow> string" where
  "rsplit_last c s = rev (takeWhile (\<lambda>x. x \<noteq> c) (rev s))"

lemma contains_iff: "contains needle s \<longleftrightarrow> (\<exists>a b. s = a @ needle @ b)"
proof (induction s)
  case Nil
  show ?case by auto
next
  case (Cons c s)
  show ?case
    unfolding contains.simps Cons.IH
  proof
    assume "prefix needle (c # s) \<or> (\<exists>a b. s = a @ needle @ b)"
    then show "\<exists>a b. c # s = a @ needle @ b"
    proof
      assume "prefix needle (c # s)"
      then show ?thesis by (metis append_Nil prefix_def)
    next
      assume "\<exists>a b. s = a @ needle @ b"
      then show ?thesis by (metis append_Cons)
    qed
  next
    assume "\<exists>a b. c # s = a @ needle @ b"
    then show "prefix needle (c # s) \<or> (\<exists>a b. s = a @ needle @ b)"
      by (metis Cons_eq_append_conv append_eq_append_conv2 prefix_def self_append_conv2)
  qed
qed

lemma split_once_Some:
  "split_once sep s = Some (a, b) \<Longrightarrow> s = a @ sep @ b"
proof (induction s arbitrary: a b)
  case Nil
  then show ?case by (simp split: if_splits)
next
  case (Cons c s)
  show ?case
  proof (cases "prefix sep (c # s)")
    case True
    with Cons.prems have "a = []" and "b = drop (length sep) (c # s)" by auto
    moreover from True have "c # s = sep @ drop (length sep) (c # s)"
      by (metis append_eq_conv_conj prefix_def)
    ultimately show ?thesis by simp
  next
    case False
    with Cons.prems Cons.IH show ?thesis by auto
  qed
qed

lemma split_once_None_iff: "split_once sep s = None \<longleftrightarrow> \<not> contains sep s"
  by (induction s) auto

text \<open>
  A separator that ends in a character the text before it does not have is found at its
  first occurrence.
\<close>

lemma overlap_mem: "p @ us @ l # b = us @ l # t \<Longrightarrow> p \<noteq> [] \<Longrightarrow> l \<in> set p"
proof (induction "length us" arbitrary: us rule: less_induct)
  case less
  from less.prems(1) consider vs where "p = us @ l # vs" | vs where "us = p @ vs" | "p = us @ []"
    by (auto simp: append_eq_append_conv2 append_eq_Cons_conv)
  then show ?case
  proof cases
    case (2 vs)
    with less.prems(1) have "p @ vs @ l # b = vs @ l # t" by simp
    with less.hyps [of vs] less.prems(2) 2 show ?thesis by simp
  next
    case 3
    with less.prems(1) have "us @ l # b = l # t" by simp
    with less.prems(2) 3 show ?thesis by (cases us) auto
  qed simp
qed

lemma split_once_first:
  assumes "sep \<noteq> []" and "last sep \<notin> set a"
  shows "split_once sep (a @ sep @ b) = Some (a, b)"
  using assms(2)
proof (induction a)
  case Nil
  obtain c s where "sep = c # s" using assms(1) by (cases sep) auto
  then show ?case by simp
next
  case (Cons c a)
  obtain s l where s: "sep = s @ [l]" using assms(1) by (metis append_butlast_last_id)
  have "\<not> prefix sep (c # a @ sep @ b)"
  proof
    assume "prefix sep (c # a @ sep @ b)"
    then obtain t where "(c # a) @ s @ l # b = s @ l # t" by (auto simp: prefix_def s)
    then have "l \<in> set (c # a)" by (rule overlap_mem) simp
    with Cons.prems show False by (simp add: s)
  qed
  with Cons show ?case by simp
qed

lemma split_once_char:
  "split_once [d] s = (if d \<in> set s then Some (takeWhile (\<lambda>x. x \<noteq> d) s, tl (dropWhile (\<lambda>x. x \<noteq> d) s)) else None)"
  by (induction s) auto

lemma split_head_char: "split_head [d] s = takeWhile (\<lambda>x. x \<noteq> d) s"
proof (induction s)
  case (Cons c s)
  then show ?case by (auto simp: split_head_def split: option.splits)
qed (simp add: split_head_def)

end
