(* ===== verification/PyStr.thy ===== *)
theory PyStr
  imports Prelude
begin

text \<open>
  The \<open>str\<close> and \<open>int\<close> operations of Python the program calls: \<open>strip\<close>, \<open>lower\<close>,
  \<open>replace\<close>, \<open>len\<close> and slices, \<open>repr\<close>, decimal rendering and \<open>int(text)\<close>.

  Limits: \<open>lower\<close> maps the ASCII letters and the two other code points whose lower case
  contains ASCII (U+212A, U+0130), every other code point is kept; the program only compares its
  result with ASCII text. \<open>int(text)\<close> reads ASCII digits (Python also takes other decimal
  digits of Unicode), and \<open>repr\<close> prints every code point above U+00A0 as itself.
\<close>

subsection \<open>Code points\<close>

definition cont_byte :: "char \<Rightarrow> bool" where
  "cont_byte c \<longleftrightarrow> 128 \<le> (of_char c :: nat) \<and> (of_char c :: nat) < 192"

definition cp_length :: "string \<Rightarrow> nat" where
  "cp_length s = length (filter (\<lambda>c. \<not> cont_byte c) s)"

text \<open>\<open>s[:n]\<close>: the first \<open>n\<close> code points, each with its continuation bytes.\<close>

fun cp_take :: "nat \<Rightarrow> string \<Rightarrow> string" where
  "cp_take n [] = []"
| "cp_take n (c # s) =
     (if cont_byte c then c # cp_take n s
      else case n of 0 \<Rightarrow> [] | Suc k \<Rightarrow> c # cp_take k s)"

text \<open>Iterating over a string yields its code points, each a string of length one.\<close>

fun cp_list :: "string \<Rightarrow> string list" where
  "cp_list [] = []"
| "cp_list (c # s) =
     (case cp_list s of
        [] \<Rightarrow> [[c]]
      | p # ps \<Rightarrow> (if p \<noteq> [] \<and> cont_byte (hd p) then (c # p) # ps else [c] # p # ps))"

lemma cp_length_simps [simp]:
  "cp_length [] = 0"
  "cp_length (c # s) = (if cont_byte c then cp_length s else Suc (cp_length s))"
  by (simp_all add: cp_length_def)

lemma cp_length_append [simp]: "cp_length (a @ b) = cp_length a + cp_length b"
  by (simp add: cp_length_def)

lemma prefix_cp_take: "prefix (cp_take n s) s"
  by (induction n s rule: cp_take.induct) (auto split: nat.splits)

lemma cp_take_all: "cp_length s \<le> n \<Longrightarrow> cp_take n s = s"
  by (induction n s rule: cp_take.induct) (auto split: nat.splits if_splits)

lemma cp_length_take: "cp_length (cp_take n s) = min n (cp_length s)"
  by (induction n s rule: cp_take.induct) (auto split: nat.splits)

lemma cp_take_append:
  "b \<noteq> [] \<Longrightarrow> \<not> cont_byte (hd b) \<Longrightarrow> cp_take (cp_length a) (a @ b) = a"
proof (induction a)
  case Nil
  then show ?case by (cases b) auto
qed auto

subsection \<open>White space, case, replacement\<close>

text \<open>The code points for which \<open>str.isspace\<close> holds, in UTF-8.\<close>

definition spaces :: "string list" where
  "spaces =
     map (\<lambda>n. [char_of (n :: nat)]) [9, 10, 11, 12, 13, 28, 29, 30, 31, 32] @
     [[CHR 0xC2, CHR 0x85], [CHR 0xC2, CHR 0xA0], [CHR 0xE1, CHR 0x9A, CHR 0x80]] @
     map (\<lambda>n. [CHR 0xE2, CHR 0x80, char_of (n :: nat)])
       [128, 129, 130, 131, 132, 133, 134, 135, 136, 137, 138, 168, 169, 175] @
     [[CHR 0xE2, CHR 0x81, CHR 0x9F], [CHR 0xE3, CHR 0x80, CHR 0x80]]"

lemma spaces_nonempty: "w \<in> set spaces \<Longrightarrow> w \<noteq> []"
  by (auto simp: spaces_def)

function strip_front :: "string list \<Rightarrow> string \<Rightarrow> string" where
  "strip_front ws s =
     (case find (\<lambda>w. w \<noteq> [] \<and> prefix w s) ws of
        None \<Rightarrow> s
      | Some w \<Rightarrow> strip_front ws (drop (length w) s))"
  by pat_completeness auto
termination
proof (relation "measure (\<lambda>(ws, s). length s)", goal_cases)
  case (2 ws s w)
  then have "w \<noteq> []" and "prefix w s" by (auto simp: find_Some_iff)
  then show ?case by (auto simp: prefix_def)
qed simp

declare strip_front.simps [simp del]

definition strip :: "string \<Rightarrow> string" where
  "strip s = rev (strip_front (map rev spaces) (rev (strip_front spaces s)))"

definition lower_char :: "char \<Rightarrow> char" where
  "lower_char c =
     (if 65 \<le> (of_char c :: nat) \<and> (of_char c :: nat) \<le> 90
      then char_of ((of_char c :: nat) + 32) else c)"

text \<open>U+212A (Kelvin sign) lowers to \<open>k\<close>, U+0130 to \<open>i\<close> and the combining U+0307.\<close>

fun lower :: "string \<Rightarrow> string" where
  "lower [] = []"
| "lower (c # s) =
     (if prefix [CHR 0xE2, CHR 0x84, CHR 0xAA] (c # s) then CHR ''k'' # lower (drop 2 s)
      else if prefix [CHR 0xC4, CHR 0xB0] (c # s)
           then [CHR ''i'', CHR 0xCC, CHR 0x87] @ lower (drop 1 s)
           else lower_char c # lower s)"

function replace_all :: "string \<Rightarrow> string \<Rightarrow> string \<Rightarrow> string" where
  "replace_all old new [] = []"
| "replace_all old new (c # s) =
     (if old \<noteq> [] \<and> prefix old (c # s)
      then new @ replace_all old new (drop (length old) (c # s))
      else c # replace_all old new s)"
  by pat_completeness auto
termination
proof (relation "measure (\<lambda>(old, new, s). length s)", goal_cases)
  case (2 old new c s)
  then show ?case by (cases old) auto
qed simp_all

lemma replace_all_char: "replace_all [d] [] s = filter (\<lambda>c. c \<noteq> d) s"
  by (induction s) auto

lemma strip_front_Nil [simp]: "strip_front ws [] = []"
proof -
  have "find (\<lambda>w. w \<noteq> [] \<and> prefix w []) ws = None"
    by (auto simp: find_None_iff)
  then show ?thesis by (simp add: strip_front.simps)
qed

lemma strip_Nil [simp]: "strip [] = []"
  by (simp add: strip_def)

text \<open>After \<open>strip\<close> nothing that is white space is left at the front.\<close>

lemma strip_front_done: "w \<in> set ws \<Longrightarrow> w \<noteq> [] \<Longrightarrow> \<not> prefix w (strip_front ws s)"
proof (induction ws s rule: strip_front.induct)
  case (1 ws s)
  then show ?case
    by (auto simp: strip_front.simps [of ws s] find_None_iff split: option.splits)
qed

lemma strip_front_id: "\<forall>w\<in>set ws. w \<noteq> [] \<longrightarrow> \<not> prefix w s \<Longrightarrow> strip_front ws s = s"
  by (auto simp: strip_front.simps [of ws s] find_Some_iff split: option.splits)

lemma strip_front_idem: "strip_front ws (strip_front ws s) = strip_front ws s"
  by (intro strip_front_id) (auto dest: strip_front_done)

subsection \<open>Numbers\<close>

definition digit_char :: "nat \<Rightarrow> char" where
  "digit_char d = char_of (48 + d)"

fun show_nat :: "nat \<Rightarrow> string" where
  "show_nat n = (if n < 10 then [digit_char n] else show_nat (n div 10) @ [digit_char (n mod 10)])"

declare show_nat.simps [simp del]

definition show_int :: "int \<Rightarrow> string" where
  "show_int i = (if i < 0 then ''-'' @ show_nat (nat (- i)) else show_nat (nat i))"

definition is_digit :: "char \<Rightarrow> bool" where
  "is_digit c \<longleftrightarrow> 48 \<le> (of_char c :: nat) \<and> (of_char c :: nat) \<le> 57"

definition digit_val :: "char \<Rightarrow> nat" where
  "digit_val c = of_char c - 48"

text \<open>Digits with single underscores between them.\<close>

fun digit_run :: "nat \<Rightarrow> string \<Rightarrow> nat option" where
  "digit_run acc [] = Some acc"
| "digit_run acc (c # s) =
     (if is_digit c then digit_run (10 * acc + digit_val c) s
      else if c = CHR ''_'' \<and> s \<noteq> [] \<and> is_digit (hd s) then digit_run acc s
      else None)"

text \<open>The interpreter's default limit on the digits of an integer in decimal.\<close>

definition max_str_digits :: nat where
  "max_str_digits = 4300"

definition parse_nat :: "string \<Rightarrow> nat option" where
  "parse_nat s =
     (if s \<noteq> [] \<and> is_digit (hd s) \<and> length (filter is_digit s) \<le> max_str_digits
      then digit_run 0 s else None)"

definition parse_int :: "string \<Rightarrow> int option" where
  "parse_int raw =
     (let s = strip raw in
      case s of
        [] \<Rightarrow> None
      | c # t \<Rightarrow>
          (if c = CHR ''-'' then map_option (\<lambda>n. - int n) (parse_nat t)
           else if c = CHR ''+'' then map_option int (parse_nat t)
           else map_option int (parse_nat s)))"

lemma show_nat_digits: "\<forall>c\<in>set (show_nat n). is_digit c"
proof (induction n rule: show_nat.induct)
  case (1 n)
  have d: "is_digit (digit_char k)" if "k < 10" for k
    using that by (simp add: is_digit_def digit_char_def)
  show ?case
  proof (cases "n < 10")
    case True
    then show ?thesis by (subst show_nat.simps) (simp add: d)
  next
    case False
    with 1 show ?thesis by (subst show_nat.simps) (simp add: d)
  qed
qed

lemma show_nat_nonempty [simp]: "show_nat n \<noteq> []"
  by (subst show_nat.simps) simp

lemma digit_run_append:
  "\<forall>c\<in>set xs. is_digit c \<Longrightarrow> digit_run acc (xs @ ys) = digit_run (foldl (\<lambda>a c. 10 * a + digit_val c) acc xs) ys"
  by (induction xs arbitrary: acc) auto

lemma digit_val_char: "k < 10 \<Longrightarrow> digit_val (digit_char k) = k"
  by (simp add: digit_val_def digit_char_def)

lemma foldl_show_nat: "foldl (\<lambda>a c. 10 * a + digit_val c) 0 (show_nat n) = n"
proof (induction n rule: show_nat.induct)
  case (1 n)
  show ?case
  proof (cases "n < 10")
    case True
    then show ?thesis by (subst show_nat.simps) (simp add: digit_val_char)
  next
    case False
    with 1 show ?thesis by (subst show_nat.simps) (simp add: digit_val_char)
  qed
qed

text \<open>\<open>int(str(n)) = n\<close>, within the interpreter's limit.\<close>

lemma parse_nat_show: "length (show_nat n) \<le> max_str_digits \<Longrightarrow> parse_nat (show_nat n) = Some n"
proof -
  assume len: "length (show_nat n) \<le> max_str_digits"
  have "filter is_digit (show_nat n) = show_nat n" using show_nat_digits by (simp add: filter_id_conv)
  moreover have "is_digit (hd (show_nat n))" using show_nat_digits [of n] by simp
  moreover have "digit_run 0 (show_nat n) = Some n"
    using digit_run_append [of "show_nat n" 0 "[]"] show_nat_digits by (simp add: foldl_show_nat)
  ultimately show ?thesis using len by (simp add: parse_nat_def)
qed

subsection \<open>repr\<close>

definition hex_digit :: "nat \<Rightarrow> char" where
  "hex_digit d = ''0123456789abcdef'' ! (d mod 16)"

definition hex2 :: "nat \<Rightarrow> string" where
  "hex2 n = [hex_digit (n div 16), hex_digit n]"

text \<open>The quote Python picks: double only when the text has single quotes and no double ones.\<close>

definition repr_quote :: "string \<Rightarrow> char" where
  "repr_quote s = (if CHR 0x27 \<in> set s \<and> CHR 0x22 \<notin> set s then CHR 0x22 else CHR 0x27)"

definition repr_char :: "char \<Rightarrow> char \<Rightarrow> string" where
  "repr_char q c =
     (if c = q \<or> c = CHR 0x5C then [CHR 0x5C, c]
      else if c = CHR 0x09 then [CHR 0x5C, CHR ''t'']
      else if c = CHR 0x0A then [CHR 0x5C, CHR ''n'']
      else if c = CHR 0x0D then [CHR 0x5C, CHR ''r'']
      else if (of_char c :: nat) < 32 \<or> c = CHR 0x7F then [CHR 0x5C, CHR ''x''] @ hex2 (of_char c)
      else [c])"

text \<open>U+0080 to U+00A0 and U+00AD, the Latin-1 code points \<open>repr\<close> escapes, are two bytes here.\<close>

fun repr_body :: "char \<Rightarrow> string \<Rightarrow> string" where
  "repr_body q [] = []"
| "repr_body q [c] = repr_char q c"
| "repr_body q (c # d # s) =
     (if c = CHR 0xC2 \<and> (128 \<le> (of_char d :: nat) \<and> (of_char d :: nat) \<le> 160 \<or> d = CHR 0xAD)
      then [CHR 0x5C, CHR ''x''] @ hex2 (of_char d) @ repr_body q s
      else repr_char q c @ repr_body q (d # s))"

definition repr_str :: "string \<Rightarrow> string" where
  "repr_str s = (let q = repr_quote s in [q] @ repr_body q s @ [q])"

end
