(* ===== verification/PyVal.thy ===== *)
theory PyVal
  imports PyStr
begin

text \<open>
  Python values as the program meets them: what \<open>json.loads\<close> and the AWS client return
  (\<open>pyval\<close>), the exceptions that can pass through the code (\<open>exn\<close>), computations
  that return a value or raise (\<open>exn + 'a\<close>), and the built-in operations the code uses
  on values: truth, \<open>str\<close>, \<open>repr\<close>, \<open>int\<close>, \<open>get\<close>, iteration and \<open>in\<close>.
\<close>

subsection \<open>Values\<close>

text \<open>
  A dict is an association list with distinct keys in insertion order. \<open>VFloat m e\<close> is the
  double whose shortest decimal is \<open>m * 10 ^ e\<close> (\<open>m\<close> zero or not a multiple of ten; the
  infinities, nan and \<open>-0.0\<close> are left out). \<open>VObj s r\<close> is any other object, such
  as the \<open>datetime\<close> values the AWS client returns, by its \<open>str\<close> and its \<open>repr\<close>.
  The \<open>Decimal\<close> numbers of DynamoDB are integers here, hence \<open>VInt\<close>.
\<close>

datatype pyval =
    VNone
  | VBool bool
  | VInt int
  | VFloat int int
  | VStr string
  | VBytes string
  | VList "pyval list"
  | VDict "(string \<times> pyval) list"
  | VObj string string

type_synonym pydict = "(string \<times> pyval) list"

text \<open>
  The exceptions raised by the program and by the built-in operations it uses; \<open>External\<close>
  is one raised by code outside the repository: class name, message and the
  \<open>response\<close> attribute, if it has one. \<open>KeyError\<close> carries the \<open>repr\<close> of the key.
\<close>

datatype exn =
    ConfigError string
  | UnsupportedEventError string
  | AttributeError string
  | TypeError string
  | ValueError string
  | KeyError string
  | IndexError string
  | ZeroDivisionError string
  | UnsupportedPatternError string
  | External string string "pyval option"

fun exn_name :: "exn \<Rightarrow> string" where
  "exn_name (ConfigError _) = ''ConfigError''"
| "exn_name (UnsupportedEventError _) = ''UnsupportedEventError''"
| "exn_name (AttributeError _) = ''AttributeError''"
| "exn_name (TypeError _) = ''TypeError''"
| "exn_name (ValueError _) = ''ValueError''"
| "exn_name (KeyError _) = ''KeyError''"
| "exn_name (IndexError _) = ''IndexError''"
| "exn_name (ZeroDivisionError _) = ''ZeroDivisionError''"
| "exn_name (UnsupportedPatternError _) = ''UnsupportedPatternError''"
| "exn_name (External cls _ _) = cls"

fun exn_str :: "exn \<Rightarrow> string" where
  "exn_str (ConfigError m) = m"
| "exn_str (UnsupportedEventError m) = m"
| "exn_str (AttributeError m) = m"
| "exn_str (TypeError m) = m"
| "exn_str (ValueError m) = m"
| "exn_str (KeyError k) = k"
| "exn_str (IndexError m) = m"
| "exn_str (ZeroDivisionError m) = m"
| "exn_str (UnsupportedPatternError m) = m"
| "exn_str (External _ m _) = m"

fun exn_response :: "exn \<Rightarrow> pyval option" where
  "exn_response (External _ _ r) = r"
| "exn_response _ = None"

subsection \<open>Computations that may raise\<close>

type_synonym 'a res = "exn + 'a"

definition res_bind :: "'a res \<Rightarrow> ('a \<Rightarrow> 'b res) \<Rightarrow> 'b res" where
  "res_bind m f = (case m of Inl e \<Rightarrow> Inl e | Inr x \<Rightarrow> f x)"

fun res_mapM :: "('a \<Rightarrow> 'b res) \<Rightarrow> 'a list \<Rightarrow> 'b list res" where
  "res_mapM f [] = Inr []"
| "res_mapM f (x # xs) = res_bind (f x) (\<lambda>y. res_bind (res_mapM f xs) (\<lambda>ys. Inr (y # ys)))"

lemma res_bind_simps [simp]:
  "res_bind (Inl e) f = Inl e"
  "res_bind (Inr x) f = f x"
  by (simp_all add: res_bind_def)

lemma res_bind_Inr_iff: "res_bind m f = Inr y \<longleftrightarrow> (\<exists>x. m = Inr x \<and> f x = Inr y)"
  by (cases m) auto

lemma res_bind_cong [fundef_cong]:
  "m = m' \<Longrightarrow> (\<And>x. m' = Inr x \<Longrightarrow> f x = f' x) \<Longrightarrow> res_bind m f = res_bind m' f'"
  by (cases m') auto

lemma res_mapM_cong [fundef_cong]:
  "xs = ys \<Longrightarrow> (\<And>x. x \<in> set ys \<Longrightarrow> f x = g x) \<Longrightarrow> res_mapM f xs = res_mapM g ys"
proof (induction ys arbitrary: xs)
  case (Cons y ys)
  have "f y = g y" by (rule Cons.prems(2)) simp
  moreover have "res_mapM f ys = res_mapM g ys" by (rule Cons.IH) (auto intro: Cons.prems(2))
  ultimately show ?case using Cons.prems(1) by simp
qed simp

lemma res_mapM_Inr: "(\<And>x. x \<in> set xs \<Longrightarrow> f x = Inr (g x)) \<Longrightarrow> res_mapM f xs = Inr (map g xs)"
  by (induction xs) auto

lemma res_mapM_map: "res_mapM f (map g xs) = res_mapM (\<lambda>x. f (g x)) xs"
  by (induction xs) auto

lemma res_mapM_Inr_D: "res_mapM f xs = Inr ys \<Longrightarrow> list_all2 (\<lambda>x y. f x = Inr y) xs ys"
  by (induction xs arbitrary: ys) (auto simp: res_bind_Inr_iff)

subsection \<open>Dicts\<close>

text \<open>\<open>d[k] = v\<close>: in place when the key is there, else at the end.\<close>

fun dict_set :: "string \<Rightarrow> 'v \<Rightarrow> (string \<times> 'v) list \<Rightarrow> (string \<times> 'v) list" where
  "dict_set k v [] = [(k, v)]"
| "dict_set k v ((k', v') # d) = (if k' = k then (k, v) # d else (k', v') # dict_set k v d)"

text \<open>A dict comprehension: later values win, the first position is kept.\<close>

definition dict_of :: "(string \<times> 'v) list \<Rightarrow> (string \<times> 'v) list" where
  "dict_of kvs = foldl (\<lambda>d (k, v). dict_set k v d) [] kvs"

definition wf_dict :: "(string \<times> 'v) list \<Rightarrow> bool" where
  "wf_dict d = distinct (map fst d)"

definition dict_get :: "pydict \<Rightarrow> string \<Rightarrow> pyval \<Rightarrow> pyval" where
  "dict_get d k v = (case map_of d k of None \<Rightarrow> v | Some x \<Rightarrow> x)"

lemma map_of_dict_set: "map_of (dict_set k v d) = (map_of d)(k \<mapsto> v)"
  by (induction d) (auto simp: fun_eq_iff)

lemma dict_set_keys: "fst ` set (dict_set k v d) = insert k (fst ` set d)"
  by (induction k v d rule: dict_set.induct) (simp_all add: insert_commute)

lemma wf_dict_set: "wf_dict d \<Longrightarrow> wf_dict (dict_set k v d)"
  by (induction d) (auto simp: wf_dict_def dict_set_keys)

lemma wf_dict_of: "wf_dict (dict_of kvs)"
proof -
  have "wf_dict d \<Longrightarrow> wf_dict (foldl (\<lambda>d (k, v). dict_set k v d) d kvs)" for d :: "(string \<times> 'a) list"
    by (induction kvs arbitrary: d) (auto simp: wf_dict_set)
  then show ?thesis by (simp add: dict_of_def wf_dict_def)
qed

lemma map_of_dict_of: "map_of (dict_of kvs) = map_of (rev kvs)"
proof -
  have "map_of (foldl (\<lambda>d (k, v). dict_set k v d) d kvs) = map_of d ++ map_of (rev kvs)"
    for d :: "(string \<times> 'a) list"
    by (induction kvs arbitrary: d) (auto simp: map_of_dict_set fun_eq_iff map_add_def split: option.splits)
  then show ?thesis by (simp add: dict_of_def)
qed

subsection \<open>Built-in operations\<close>

fun truthy :: "pyval \<Rightarrow> bool" where
  "truthy VNone = False"
| "truthy (VBool b) = b"
| "truthy (VInt i) = (i \<noteq> 0)"
| "truthy (VFloat m e) = (m \<noteq> 0)"
| "truthy (VStr s) = (s \<noteq> [])"
| "truthy (VBytes s) = (s \<noteq> [])"
| "truthy (VList xs) = (xs \<noteq> [])"
| "truthy (VDict d) = (d \<noteq> [])"
| "truthy (VObj _ _) = True"

definition py_or :: "pyval \<Rightarrow> pyval \<Rightarrow> pyval" where
  "py_or a b = (if truthy a then a else b)"

fun type_name :: "pyval \<Rightarrow> string" where
  "type_name VNone = ''NoneType''"
| "type_name (VBool _) = ''bool''"
| "type_name (VInt _) = ''int''"
| "type_name (VFloat _ _) = ''float''"
| "type_name (VStr _) = ''str''"
| "type_name (VBytes _) = ''bytes''"
| "type_name (VList _) = ''list''"
| "type_name (VDict _) = ''dict''"
| "type_name (VObj _ _) = ''object''"

definition quoted :: "string \<Rightarrow> string" where
  "quoted s = [CHR 0x27] @ s @ [CHR 0x27]"

text \<open>\<open>v.get(k, default)\<close>; only a dict has the method.\<close>

fun py_get :: "pyval \<Rightarrow> string \<Rightarrow> pyval \<Rightarrow> pyval res" where
  "py_get (VDict d) k v = Inr (dict_get d k v)"
| "py_get x k v = Inl (AttributeError (quoted (type_name x) @ '' object has no attribute '' @ quoted ''get''))"

text \<open>Iteration: the elements of a list, the keys of a dict, the characters of a string.\<close>

fun py_iter :: "pyval \<Rightarrow> pyval list res" where
  "py_iter (VList xs) = Inr xs"
| "py_iter (VDict d) = Inr (map (\<lambda>(k, v). VStr k) d)"
| "py_iter (VStr s) = Inr (map VStr (cp_list s))"
| "py_iter (VBytes s) = Inr (map (\<lambda>c. VInt (int (of_char c))) s)"
| "py_iter x = Inl (TypeError (quoted (type_name x) @ '' object is not iterable''))"

text \<open>\<open>xs[0]\<close>\<close>

fun py_first :: "pyval \<Rightarrow> pyval res" where
  "py_first (VList xs) = (case xs of [] \<Rightarrow> Inl (IndexError ''list index out of range'') | x # _ \<Rightarrow> Inr x)"
| "py_first (VStr s) =
     (case cp_list s of [] \<Rightarrow> Inl (IndexError ''string index out of range'') | c # _ \<Rightarrow> Inr (VStr c))"
| "py_first (VBytes s) =
     (case s of [] \<Rightarrow> Inl (IndexError ''index out of range'') | c # _ \<Rightarrow> Inr (VInt (int (of_char c))))"
| "py_first (VDict d) = Inl (KeyError ''0'')"
| "py_first x = Inl (TypeError (quoted (type_name x) @ '' object is not subscriptable''))"

fun is_mapping :: "pyval \<Rightarrow> bool" where
  "is_mapping (VDict _) = True"
| "is_mapping _ = False"

fun as_dict :: "pyval \<Rightarrow> pydict" where
  "as_dict (VDict d) = d"
| "as_dict _ = []"

subsection \<open>str and repr\<close>

definition zeros :: "nat \<Rightarrow> string" where
  "zeros n = replicate n (CHR ''0'')"

definition pad2 :: "string \<Rightarrow> string" where
  "pad2 s = (if length s < 2 then zeros (2 - length s) @ s else s)"

text \<open>The \<open>repr\<close> of a double from the digits and exponent of its shortest decimal.\<close>

definition float_repr :: "int \<Rightarrow> int \<Rightarrow> string" where
  "float_repr m e =
     (if m = 0 then ''0.0''
      else
        let ds = show_nat (nat \<bar>m\<bar>); n = int (length ds); p = n + e;
            sgn_part = (if m < 0 then ''-'' else '''');
            body =
              (if - 4 < p \<and> p \<le> 16 then
                 (if p \<le> 0 then ''0.'' @ zeros (nat (- p)) @ ds
                  else if n \<le> p then ds @ zeros (nat (p - n)) @ ''.0''
                  else take (nat p) ds @ ''.'' @ drop (nat p) ds)
               else
                 take 1 ds @ (if n = 1 then '''' else ''.'' @ drop 1 ds) @ ''e'' @
                 (if p - 1 < 0 then ''-'' else ''+'') @ pad2 (show_nat (nat \<bar>p - 1\<bar>)))
        in sgn_part @ body)"

fun py_repr :: "pyval \<Rightarrow> string" where
  "py_repr VNone = ''None''"
| "py_repr (VBool b) = (if b then ''True'' else ''False'')"
| "py_repr (VInt i) = show_int i"
| "py_repr (VFloat m e) = float_repr m e"
| "py_repr (VStr s) = repr_str s"
| "py_repr (VBytes s) = ''b'' @ repr_str s"
| "py_repr (VList xs) = ''['' @ join '', '' (map py_repr xs) @ '']''"
| "py_repr (VDict d) = ''{'' @ join '', '' (map (\<lambda>(k, v). repr_str k @ '': '' @ py_repr v) d) @ ''}''"
| "py_repr (VObj s r) = r"

fun py_str :: "pyval \<Rightarrow> string" where
  "py_str (VStr s) = s"
| "py_str (VObj s r) = s"
| "py_str v = py_repr v"

text \<open>\<open>int(x)\<close>; a float is truncated towards zero.\<close>

definition trunc_dec :: "int \<Rightarrow> int \<Rightarrow> int" where
  "trunc_dec m e = (if 0 \<le> e then m * 10 ^ nat e else sgn m * (\<bar>m\<bar> div 10 ^ nat (- e)))"

fun py_int :: "pyval \<Rightarrow> int res" where
  "py_int (VInt i) = Inr i"
| "py_int (VBool b) = Inr (if b then 1 else 0)"
| "py_int (VFloat m e) = Inr (trunc_dec m e)"
| "py_int (VStr s) =
     (case parse_int s of
        None \<Rightarrow> Inl (ValueError (''invalid literal for int() with base 10: '' @ repr_str s))
      | Some i \<Rightarrow> Inr i)"
| "py_int (VBytes s) =
     (case parse_int s of
        None \<Rightarrow> Inl (ValueError (''invalid literal for int() with base 10: b'' @ repr_str s))
      | Some i \<Rightarrow> Inr i)"
| "py_int x = Inl (TypeError (''int() argument must be a string, a bytes-like object or a real number, not ''
       @ quoted (type_name x)))"

text \<open>\<open>str(x or "").strip()\<close>, the way every handler reads a field of an event.\<close>

definition text_field :: "pydict \<Rightarrow> string \<Rightarrow> string" where
  "text_field d k = strip (py_str (py_or (dict_get d k VNone) (VStr '''')))"

text \<open>
  The tag list of an AWS resource as a dict: entries that are no mapping or have no
  \<open>Key\<close> are skipped.
\<close>

definition tag_pair :: "pyval \<Rightarrow> (string \<times> string) option" where
  "tag_pair t =
     (case t of
        VDict d \<Rightarrow>
          (case map_of d ''Key'' of
             None \<Rightarrow> None
           | Some k \<Rightarrow> Some (py_str k, py_str (dict_get d ''Value'' (VStr ''''))))
      | _ \<Rightarrow> None)"

definition tag_dict :: "pyval list \<Rightarrow> (string \<times> string) list" where
  "tag_dict ts = dict_of (List.map_filter tag_pair ts)"

definition str_dict :: "(string \<times> string) list \<Rightarrow> pyval" where
  "str_dict d = VDict (map (\<lambda>(k, v). (k, VStr v)) d)"

lemma wf_tag_dict: "wf_dict (tag_dict ts)"
  by (simp add: tag_dict_def wf_dict_of)

text \<open>\<open>[e[k] for e in entries if k in e]\<close>, one entry; only a dict has both operations.\<close>

fun py_member_item :: "string \<Rightarrow> pyval \<Rightarrow> pyval option res" where
  "py_member_item k (VDict d) = Inr (map_of d k)"
| "py_member_item k (VList xs) =
     (if VStr k \<in> set xs then Inl (TypeError ''list indices must be integers or slices, not str'') else Inr None)"
| "py_member_item k (VStr s) =
     (if contains k s then Inl (TypeError (''string indices must be integers, not '' @ quoted ''str''))
      else Inr None)"
| "py_member_item k (VBytes s) =
     Inl (TypeError (''a bytes-like object is required, not '' @ quoted ''str''))"
| "py_member_item k x = Inl (TypeError (''argument of type '' @ quoted (type_name x) @ '' is not iterable''))"

text \<open>\<open>sep.join(items)\<close>; an item that is no string is named by its position.\<close>

fun str_items :: "nat \<Rightarrow> pyval list \<Rightarrow> string list res" where
  "str_items i [] = Inr []"
| "str_items i (x # xs) =
     (case x of
        VStr s \<Rightarrow> res_bind (str_items (Suc i) xs) (\<lambda>ss. Inr (s # ss))
      | _ \<Rightarrow> Inl (TypeError (''sequence item '' @ show_nat i @ '': expected str instance, '' @
                  type_name x @ '' found'')))"

lemma str_items_VStr [simp]: "str_items i (map VStr ss) = Inr ss"
  by (induction ss arbitrary: i) auto

lemma tag_dict_Nil [simp]: "tag_dict [] = []"
  by (simp add: tag_dict_def dict_of_def List.map_filter_def)

subsection \<open>json.dumps\<close>

text \<open>The code points of a UTF-8 string; a stray byte stands for itself.\<close>

fun code_points :: "string \<Rightarrow> nat list" where
  "code_points [] = []"
| "code_points (a # s) =
     (let x = of_char a :: nat in
      if x < 192 then x # code_points s
      else if x < 224 then
        (case s of b # t \<Rightarrow> ((x - 192) * 64 + (of_char b - 128)) # code_points t | [] \<Rightarrow> [x])
      else if x < 240 then
        (case s of
           b # c # t \<Rightarrow> ((x - 224) * 4096 + (of_char b - 128) * 64 + (of_char c - 128)) # code_points t
         | _ \<Rightarrow> x # code_points s)
      else
        (case s of
           b # c # d # t \<Rightarrow>
             ((x - 240) * 262144 + (of_char b - 128) * 4096 + (of_char c - 128) * 64 + (of_char d - 128))
             # code_points t
         | _ \<Rightarrow> x # code_points s))"

definition hex4 :: "nat \<Rightarrow> string" where
  "hex4 n = [hex_digit (n div 4096), hex_digit (n div 256), hex_digit (n div 16), hex_digit n]"

definition json_escape :: "nat \<Rightarrow> string" where
  "json_escape n =
     (if n = 34 then [CHR 0x5C, CHR 0x22]
      else if n = 92 then [CHR 0x5C, CHR 0x5C]
      else if n = 10 then [CHR 0x5C, CHR ''n'']
      else if n = 13 then [CHR 0x5C, CHR ''r'']
      else if n = 9 then [CHR 0x5C, CHR ''t'']
      else if n = 12 then [CHR 0x5C, CHR ''f'']
      else if n = 8 then [CHR 0x5C, CHR ''b'']
      else if 32 \<le> n \<and> n \<le> 126 then [char_of n]
      else if n < 65536 then [CHR 0x5C, CHR ''u''] @ hex4 n
      else [CHR 0x5C, CHR ''u''] @ hex4 (55296 + (n - 65536) div 1024) @
           [CHR 0x5C, CHR ''u''] @ hex4 (56320 + (n - 65536) mod 1024))"

definition json_string :: "string \<Rightarrow> string" where
  "json_string s = [CHR 0x22] @ concat (map json_escape (code_points s)) @ [CHR 0x22]"

text \<open>
  \<open>json.dumps(value, default=str, sort_keys=...)\<close>; what JSON has no form for is
  rendered by \<open>str\<close>.
\<close>

fun json_dumps :: "bool \<Rightarrow> pyval \<Rightarrow> string" where
  "json_dumps srt VNone = ''null''"
| "json_dumps srt (VBool b) = (if b then ''true'' else ''false'')"
| "json_dumps srt (VInt i) = show_int i"
| "json_dumps srt (VFloat m e) = float_repr m e"
| "json_dumps srt (VStr s) = json_string s"
| "json_dumps srt (VBytes s) = json_string (py_str (VBytes s))"
| "json_dumps srt (VList xs) = ''['' @ join '', '' (map (json_dumps srt) xs) @ '']''"
| "json_dumps srt (VDict d) =
     (let kvs = map (\<lambda>(k, v). (k, json_dumps srt v)) d;
          kvs' = (if srt then sort_key fst kvs else kvs)
      in ''{'' @ join '', '' (map (\<lambda>(k, v). json_string k @ '': '' @ v) kvs') @ ''}'')"
| "json_dumps srt (VObj s r) = json_string s"

end
