(* ===== verification/Effects.thy ===== *)
theory Effects
  imports PyVal
begin

text \<open>
  Effects. Every call that leaves the process (AWS through the boto3 client, the HTTP post,
  the wall clock) goes to an environment \<open>env\<close>: two functions on an abstract world
  \<open>'w\<close>, about which nothing is assumed. A computation returns a value or raises, and
  with it the list of the external calls it made, each with its answer, in their order. A run
  that is killed part-way has made a prefix of that list.
\<close>

subsection \<open>External calls\<close>

text \<open>The fields of the \<open>datetime\<close> value \<open>datetime.now(UTC)\<close> returns.\<close>

record datetime =
  year :: nat
  month :: nat
  day :: nat
  hour :: nat
  minute :: nat
  second :: nat
  microsecond :: nat

datatype call =
    PutItem (table: string) (item: pydict) (condition: "string option") (cond_values: pydict)
  | UpdateItem (table: string) (key: pydict) (update_expr: string) (attr_names: pydict)
      (attr_values: pydict) (return_values: "string option")
  | DescribeSecurityGroups "string list"
  | DescribeNetworkInterfaces string "string list"
  | RevokeSecurityGroupIngress string "pyval list"
  | GetBucketAcl string
  | GetBucketPolicy string
  | GetPublicAccessBlock string
  | GetBucketTagging string
  | PutPublicAccessBlock string pydict
  | PutBucketAcl string string
  | GetAccessKeyLastUsed string
  | ListAccessKeys string
  | ListUserTags string
  | UpdateAccessKey string string string
  | GetSecretValue string
  | UrlOpen string string

type_synonym event = "call \<times> pyval res"

record 'w env =
  perform :: "call \<Rightarrow> 'w \<Rightarrow> pyval res \<times> 'w"
  clock_now :: "'w \<Rightarrow> datetime \<times> 'w"

text \<open>
  The state: the outside world and the one mutable field of the process that outlives a call,
  \<open>SlackNotifier._webhook\<close>.
\<close>

record 'w st =
  ext :: 'w
  webhook_cache :: "string option"

type_synonym ('w, 'a) run = "'w st \<Rightarrow> 'a res \<times> event list \<times> 'w st"

subsection \<open>Computations\<close>

definition ret :: "'a \<Rightarrow> ('w, 'a) run" where
  "ret x = (\<lambda>s. (Inr x, [], s))"

definition throw :: "exn \<Rightarrow> ('w, 'a) run" where
  "throw e = (\<lambda>s. (Inl e, [], s))"

definition bind :: "('w, 'a) run \<Rightarrow> ('a \<Rightarrow> ('w, 'b) run) \<Rightarrow> ('w, 'b) run" where
  "bind m f = (\<lambda>s.
     (case m s of
        (Inl e, t, s') \<Rightarrow> (Inl e, t, s')
      | (Inr x, t, s') \<Rightarrow> (case f x s' of (r, t', s'') \<Rightarrow> (r, t @ t', s''))))"

text \<open>\<open>try: m except Exception as e: h(e)\<close>\<close>

definition try_except :: "('w, 'a) run \<Rightarrow> (exn \<Rightarrow> ('w, 'a) run) \<Rightarrow> ('w, 'a) run" where
  "try_except m h = (\<lambda>s.
     (case m s of
        (Inl e, t, s') \<Rightarrow> (case h e s' of (r, t', s'') \<Rightarrow> (r, t @ t', s''))
      | (Inr x, t, s') \<Rightarrow> (Inr x, t, s')))"

definition lift :: "'a res \<Rightarrow> ('w, 'a) run" where
  "lift r = (\<lambda>s. (r, [], s))"

definition do_call :: "'w env \<Rightarrow> call \<Rightarrow> ('w, pyval) run" where
  "do_call env c = (\<lambda>s.
     (case perform env c (ext s) of (r, w) \<Rightarrow> (r, [(c, r)], s\<lparr>ext := w\<rparr>)))"

definition read_clock :: "'w env \<Rightarrow> ('w, datetime) run" where
  "read_clock env = (\<lambda>s. (case clock_now env (ext s) of (d, w) \<Rightarrow> (Inr d, [], s\<lparr>ext := w\<rparr>)))"

abbreviation result :: "'a res \<times> event list \<times> 'w st \<Rightarrow> 'a res" where
  "result x \<equiv> fst x"

abbreviation events :: "'a res \<times> event list \<times> 'w st \<Rightarrow> event list" where
  "events x \<equiv> fst (snd x)"

lemma run_atoms [run_simps]:
  "ret x s = (Inr x, [], s)"
  "throw e s = (Inl e, [], s)"
  "lift r s = (r, [], s)"
  by (simp_all add: ret_def throw_def lift_def)

lemma run_bind [run_simps]:
  "m s = (Inl e, t, s') \<Longrightarrow> bind m f s = (Inl e, t, s')"
  "m s = (Inr x, t, s') \<Longrightarrow> f x s' = (r, t', s'') \<Longrightarrow> bind m f s = (r, t @ t', s'')"
  by (simp_all add: bind_def)

lemma bind_do_call:
  "perform env c (ext s) = (Inr v, w) \<Longrightarrow>
   bind (do_call env c) f s = (case f v (s\<lparr>ext := w\<rparr>) of (r, t, s') \<Rightarrow> (r, (c, Inr v) # t, s'))"
  "perform env c (ext s) = (Inl e, w) \<Longrightarrow> bind (do_call env c) f s = (Inl e, [(c, Inl e)], s\<lparr>ext := w\<rparr>)"
  by (simp_all add: bind_def do_call_def split: prod.splits)

lemma bind_ret [simp]: "bind (ret x) f = f x"
  by (rule ext) (simp add: bind_def ret_def split: prod.splits)

lemma bind_throw [simp]: "bind (throw e) f = throw e"
  by (rule ext) (simp add: bind_def throw_def)

lemma bind_lift_Inr [simp]: "bind (lift (Inr x)) f = f x"
  by (rule ext) (simp add: bind_def lift_def split: prod.splits)

lemma bind_lift_Inl [simp]: "bind (lift (Inl e)) f = throw e"
  by (rule ext) (simp add: bind_def lift_def throw_def)

lemma bind_ret_right [simp]: "bind m ret = m"
  by (rule ext) (auto simp: bind_def ret_def split: prod.splits sum.splits)

lemma bind_assoc: "bind (bind m f) g = bind m (\<lambda>x. bind (f x) g)"
  by (rule ext) (auto simp: bind_def split: prod.splits sum.splits)

text \<open>How a sequence ran: the first part raised, or it returned and the rest ran after it.\<close>

lemma bindE [consumes 1, case_names raised returned]:
  assumes "bind m f s = (r, t, s')"
  obtains (raised) e where "m s = (Inl e, t, s')" and "r = Inl e"
  | (returned) x t1 s1 t2 where "m s = (Inr x, t1, s1)" and "f x s1 = (r, t2, s')" and "t = t1 @ t2"
  using assms by (auto simp: bind_def split: prod.splits sum.splits)

lemma try_exceptE [consumes 1, case_names handled returned]:
  assumes "try_except m h s = (r, t, s')"
  obtains (handled) e t1 s1 t2 where "m s = (Inl e, t1, s1)" and "h e s1 = (r, t2, s')" and "t = t1 @ t2"
  | (returned) x where "m s = (Inr x, t, s')" and "r = Inr x"
  using assms by (auto simp: try_except_def split: prod.splits sum.splits)

lemma do_callE [consumes 1]:
  assumes "do_call env c s = (r, t, s')"
  obtains "t = [(c, r)]" and "perform env c (ext s) = (r, ext s')" and "webhook_cache s' = webhook_cache s"
  using assms by (auto simp: do_call_def split: prod.splits)

lemma read_clockE [consumes 1]:
  assumes "read_clock env s = (r, t, s')"
  obtains d where "r = Inr d" and "t = []" and "webhook_cache s' = webhook_cache s"
  using assms by (auto simp: read_clock_def split: prod.splits)

subsection \<open>Which calls a computation can make\<close>

definition emits :: "(call \<Rightarrow> bool) \<Rightarrow> ('w, 'a) run \<Rightarrow> bool" where
  "emits P m \<longleftrightarrow> (\<forall>s. list_all (\<lambda>e. P (fst e)) (events (m s)))"

lemma emitsI: "(\<And>s r t s'. m s = (r, t, s') \<Longrightarrow> list_all (\<lambda>e. P (fst e)) t) \<Longrightarrow> emits P m"
  unfolding emits_def by (metis prod.collapse)

lemma emitsD: "emits P m \<Longrightarrow> m s = (r, t, s') \<Longrightarrow> list_all (\<lambda>e. P (fst e)) t"
  unfolding emits_def by (metis fst_conv snd_conv)

lemma emits_mono: "emits P m \<Longrightarrow> (\<And>c. P c \<Longrightarrow> Q c) \<Longrightarrow> emits Q m"
  unfolding emits_def by (fastforce simp: list_all_iff)

lemma emits_ret [emit_intros]: "emits P (ret x)"
  by (simp add: emits_def ret_def)

lemma emits_throw [emit_intros]: "emits P (throw e)"
  by (simp add: emits_def throw_def)

lemma emits_lift [emit_intros]: "emits P (lift r)"
  by (simp add: emits_def lift_def)

lemma emits_clock [emit_intros]: "emits P (read_clock env)"
  by (simp add: emits_def read_clock_def split: prod.splits)

lemma emits_call [emit_intros]: "P c \<Longrightarrow> emits P (do_call env c)"
  by (simp add: emits_def do_call_def split: prod.splits)

lemma emits_bind [emit_intros]: "emits P m \<Longrightarrow> (\<And>x. emits P (f x)) \<Longrightarrow> emits P (bind m f)"
  by (rule emitsI, erule bindE) (auto dest: emitsD)

lemma emits_try [emit_intros]: "emits P m \<Longrightarrow> (\<And>e. emits P (h e)) \<Longrightarrow> emits P (try_except m h)"
  by (rule emitsI, erule try_exceptE) (auto dest: emitsD)

lemma emits_if [emit_intros]: "(b \<Longrightarrow> emits P m) \<Longrightarrow> (\<not> b \<Longrightarrow> emits P n) \<Longrightarrow> emits P (if b then m else n)"
  by simp

lemma emits_option [emit_intros]:
  "emits P n \<Longrightarrow> (\<And>x. emits P (f x)) \<Longrightarrow> emits P (case v of None \<Rightarrow> n | Some x \<Rightarrow> f x)"
  by (cases v) auto

lemma emits_let [emit_intros]: "emits P (f x) \<Longrightarrow> emits P (let y = x in f y)"
  by simp

subsection \<open>Kinds of calls\<close>

fun is_read :: "call \<Rightarrow> bool" where
  "is_read (DescribeSecurityGroups _) = True"
| "is_read (DescribeNetworkInterfaces _ _) = True"
| "is_read (GetBucketAcl _) = True"
| "is_read (GetBucketPolicy _) = True"
| "is_read (GetPublicAccessBlock _) = True"
| "is_read (GetBucketTagging _) = True"
| "is_read (GetAccessKeyLastUsed _) = True"
| "is_read (ListAccessKeys _) = True"
| "is_read (ListUserTags _) = True"
| "is_read _ = False"

text \<open>The calls that change a customer's resource.\<close>

fun is_remediation :: "call \<Rightarrow> bool" where
  "is_remediation (RevokeSecurityGroupIngress _ _) = True"
| "is_remediation (PutPublicAccessBlock _ _) = True"
| "is_remediation (PutBucketAcl _ _) = True"
| "is_remediation (UpdateAccessKey _ _ _) = True"
| "is_remediation _ = False"

text \<open>The writes to the audit table, by the prefix of the partition key.\<close>

definition pk_of :: "pydict \<Rightarrow> string" where
  "pk_of d = py_str (dict_get d ''pk'' VNone)"

definition sk_of :: "pydict \<Rightarrow> string" where
  "sk_of d = py_str (dict_get d ''sk'' VNone)"

fun write_pk :: "call \<Rightarrow> string option" where
  "write_pk (PutItem _ d _ _) = Some (pk_of d)"
| "write_pk (UpdateItem _ d _ _ _ _) = Some (pk_of d)"
| "write_pk _ = None"

definition writes_under :: "string \<Rightarrow> call \<Rightarrow> bool" where
  "writes_under p c \<longleftrightarrow> (\<exists>k. write_pk c = Some k \<and> startswith k p)"

lemma writes_under_simps [simp]:
  "writes_under p (PutItem tb d cnd vs) = startswith (pk_of d) p"
  "writes_under p (UpdateItem tb d x n vs rv) = startswith (pk_of d) p"
  by (simp_all add: writes_under_def)

definition is_alert :: "call \<Rightarrow> bool" where
  "is_alert c \<longleftrightarrow>
     (case c of GetSecretValue _ \<Rightarrow> True | UrlOpen _ _ \<Rightarrow> True | _ \<Rightarrow> writes_under ''DEDUP#'' c)"

lemma quiet_calls:
  "is_read c \<Longrightarrow> \<not> is_remediation c"
  "writes_under p c \<Longrightarrow> \<not> is_remediation c"
  "is_alert c \<Longrightarrow> \<not> is_remediation c"
  by (cases c; auto simp: writes_under_def is_alert_def)+

subsection \<open>Order of events\<close>

text \<open>Every event of kind \<open>A\<close> comes after some event of kind \<open>G\<close>.\<close>

definition preceded :: "(event \<Rightarrow> bool) \<Rightarrow> (event \<Rightarrow> bool) \<Rightarrow> event list \<Rightarrow> bool" where
  "preceded G A t \<longleftrightarrow> (\<forall>pre e post. t = pre @ e # post \<longrightarrow> A e \<longrightarrow> (\<exists>g\<in>set pre. G g))"

lemma preceded_none: "list_all (\<lambda>e. \<not> A e) t \<Longrightarrow> preceded G A t"
  by (auto simp: preceded_def)

lemma precededD: "preceded G A t \<Longrightarrow> t = pre @ e # post \<Longrightarrow> A e \<Longrightarrow> \<exists>g\<in>set pre. G g"
  unfolding preceded_def by blast

lemma preceded_after:
  assumes "list_all (\<lambda>e. \<not> A e) t1" and "preceded G A t2"
  shows "preceded G A (t1 @ t2)"
  unfolding preceded_def
proof (intro allI impI)
  fix pre e post
  assume eq: "t1 @ t2 = pre @ e # post" and "A e"
  from append_eq_split [OF eq] show "\<exists>g\<in>set pre. G g"
  proof (elim disjE exE conjE)
    fix zs assume "t1 = pre @ e # zs"
    with assms(1) \<open>A e\<close> show ?thesis by simp
  next
    fix zs assume pre: "pre = t1 @ zs" and t2: "t2 = zs @ e # post"
    from precededD [OF assms(2) t2 \<open>A e\<close>] show ?thesis by (auto simp: pre)
  qed
qed

lemma preceded_seen:
  assumes "preceded G A t1" and "\<exists>g\<in>set t1. G g"
  shows "preceded G A (t1 @ t2)"
  unfolding preceded_def
proof (intro allI impI)
  fix pre e post
  assume eq: "t1 @ t2 = pre @ e # post" and "A e"
  from append_eq_split [OF eq] show "\<exists>g\<in>set pre. G g"
  proof (elim disjE exE conjE)
    fix zs assume t1: "t1 = pre @ e # zs"
    from precededD [OF assms(1) t1 \<open>A e\<close>] show ?thesis .
  next
    fix zs assume "pre = t1 @ zs"
    with assms(2) show ?thesis by auto
  qed
qed

lemma preceded_weaken: "preceded G A t \<Longrightarrow> (\<And>e. G e \<Longrightarrow> G' e) \<Longrightarrow> preceded G' A t"
  unfolding preceded_def by blast

end
