(* ===== verification/Models.thy ===== *)
theory Models
  imports PyVal
begin

text \<open>
  \<open>remediations/common/models.py\<close>: the value types passed between the runtime, the handlers
  and the notifier.
\<close>

datatype status = APPLIED | DRY_RUN | SKIPPED | ESCALATED | BLOCKED | FAILED

datatype severity = INFO | LOW | MEDIUM | HIGH | CRITICAL

fun status_value :: "status \<Rightarrow> string" where
  "status_value APPLIED = ''APPLIED''"
| "status_value DRY_RUN = ''DRY_RUN''"
| "status_value SKIPPED = ''SKIPPED''"
| "status_value ESCALATED = ''ESCALATED''"
| "status_value BLOCKED = ''BLOCKED''"
| "status_value FAILED = ''FAILED''"

fun severity_value :: "severity \<Rightarrow> string" where
  "severity_value INFO = ''info''"
| "severity_value LOW = ''low''"
| "severity_value MEDIUM = ''medium''"
| "severity_value HIGH = ''high''"
| "severity_value CRITICAL = ''critical''"

text \<open>The declaration order of the severities, from least to most severe.\<close>

fun severity_rank :: "severity \<Rightarrow> nat" where
  "severity_rank INFO = 0"
| "severity_rank LOW = 1"
| "severity_rank MEDIUM = 2"
| "severity_rank HIGH = 3"
| "severity_rank CRITICAL = 4"

instantiation severity :: linorder
begin

definition less_eq_severity :: "severity \<Rightarrow> severity \<Rightarrow> bool" where
  "less_eq_severity a b = (severity_rank a \<le> severity_rank b)"

definition less_severity :: "severity \<Rightarrow> severity \<Rightarrow> bool" where
  "less_severity a b = (severity_rank a < severity_rank b)"

instance
proof
  fix a b :: severity
  assume "a \<le> b" and "b \<le> a"
  then show "a = b"
    unfolding less_eq_severity_def by (cases a; cases b) simp_all
qed (auto simp: less_eq_severity_def less_severity_def)

end

lemma critical_top [simp]: "s \<le> CRITICAL"
  by (cases s) (simp_all add: less_eq_severity_def)

record principal =
  arn :: string
  ptype :: string
  pname :: string
  paccount_id :: string

definition is_root :: "principal \<Rightarrow> bool" where
  "is_root p \<longleftrightarrow> ptype p = ''Root'' \<or> endswith (arn p) '':root''"

definition role_name :: "principal \<Rightarrow> string" where
  "role_name p =
     (case split_once '':assumed-role/'' (arn p) of
        None \<Rightarrow> pname p
      | Some (_, rest) \<Rightarrow> split_head ''/'' rest)"

definition is_pac_automation :: "principal \<Rightarrow> bool" where
  "is_pac_automation p = startswith (role_name p) ''pac-''"

record detection_event =
  event_id :: string
  event_time :: string
  source :: string
  account_id :: string
  region :: string
  principal :: principal
  source_ip :: string
  user_agent :: string
  detail :: pydict

record plan =
  resource_id :: string
  resource_arn :: string
  reason :: string
  plan_severity :: severity
  snapshot :: pydict
  tags :: "(string \<times> string) list"
  blast_radius :: pydict
  intended_actions :: "string list"

record outcome =
  detection_id :: string
  status :: status
  severity :: severity
  outcome_resource :: string
  outcome_reason :: string
  actions :: "string list"
  error :: "string option"

definition changed_anything :: "outcome \<Rightarrow> bool" where
  "changed_anything o' \<longleftrightarrow> status o' = APPLIED"

lemma status_value_inject [simp]: "status_value a = status_value b \<longleftrightarrow> a = b"
  by (cases a; cases b) simp_all

lemma severity_value_inject [simp]: "severity_value a = severity_value b \<longleftrightarrow> a = b"
  by (cases a; cases b) simp_all

text \<open>\<open>PLANNED\<close>, the state of an audit item between the two writes, is no terminal status.\<close>

lemma planned_not_terminal: "status_value s \<noteq> ''PLANNED''"
  by (cases s) simp_all

text \<open>An assumed-role ARN names the role in the segment before the session name.\<close>

lemma role_name_assumed:
  assumes "CHR ''/'' \<notin> set pre" and "CHR ''/'' \<notin> set role"
    and "arn p = pre @ '':assumed-role/'' @ role @ CHR ''/'' # session"
  shows "role_name p = role"
proof -
  have "split_once '':assumed-role/'' (arn p) = Some (pre, role @ CHR ''/'' # session)"
    using split_once_first [of "'':assumed-role/''" pre "role @ CHR ''/'' # session"] assms
    by simp
  moreover have "takeWhile (\<lambda>x. x \<noteq> CHR ''/'') (role @ CHR ''/'' # session) = role"
    by (rule takeWhile_eq_prefix) (use assms(2) in auto)
  ultimately show ?thesis by (simp add: role_name_def split_head_char)
qed

lemma role_name_other: "\<not> contains '':assumed-role/'' (arn p) \<Longrightarrow> role_name p = pname p"
  by (simp add: role_name_def split_once_None_iff [symmetric])

subsection \<open>The loop guard\<close>

text \<open>
  C26: for an assumed role the loop guard reads the role name and nothing of the session name, which
  the caller chooses; for any other principal it reads the principal's name, so that an IAM user
  whose name starts with \<open>pac-\<close> counts as the system itself.
\<close>

theorem loop_guard:
  "(\<forall>pre role session. CHR ''/'' \<notin> set pre \<and> CHR ''/'' \<notin> set role \<and>
      arn p = pre @ '':assumed-role/'' @ role @ CHR ''/'' # session \<longrightarrow>
      is_pac_automation p = startswith role ''pac-'') \<and>
   (\<not> contains '':assumed-role/'' (arn p) \<longrightarrow> is_pac_automation p = startswith (pname p) ''pac-'')"
  using role_name_assumed role_name_other by (auto simp: is_pac_automation_def)

theorem loop_guard_witness:
  "\<not> is_pac_automation \<lparr>arn = ''arn:aws:sts::1:assumed-role/admin/pac-sg-open'', ptype = ''AssumedRole'',
      pname = ''pac-sg-open'', paccount_id = ''1''\<rparr> \<and>
   is_pac_automation \<lparr>arn = ''arn:aws:iam::1:user/pac-mallory'', ptype = ''IAMUser'',
      pname = ''pac-mallory'', paccount_id = ''1''\<rparr>"
proof
  let ?p = "\<lparr>arn = ''arn:aws:sts::1:assumed-role/admin/pac-sg-open'', ptype = ''AssumedRole'',
      pname = ''pac-sg-open'', paccount_id = ''1''\<rparr>"
  have "arn ?p = ''arn:aws:sts::1'' @ '':assumed-role/'' @ ''admin'' @ CHR ''/'' # ''pac-sg-open''" by simp
  with loop_guard [of ?p, THEN conjunct1, rule_format, of "''arn:aws:sts::1''" "''admin''" "''pac-sg-open''"]
  show "\<not> is_pac_automation ?p" by (simp add: startswith_def)
next
  let ?p = "\<lparr>arn = ''arn:aws:iam::1:user/pac-mallory'', ptype = ''IAMUser'',
      pname = ''pac-mallory'', paccount_id = ''1''\<rparr>"
  have "\<not> contains '':assumed-role/'' (arn ?p)" by code_simp
  with loop_guard [of ?p, THEN conjunct2] show "is_pac_automation ?p" by (simp add: startswith_def)
qed

end
