(* ===== verification/Contracts.thy ===== *)
theory Contracts
  imports Effects Models
begin

text \<open>
  The two interfaces the runtime is written against: \<open>remediations/common/detection.py\<close> (what a
  handler implements) and the \<open>Notifier\<close> protocol of \<open>remediations/common/runtime.py\<close> (what an
  alerting backend implements). Each contract is a locale: which calls the methods may make.
\<close>

text \<open>A detection is its identifier, its default severity and its two methods.\<close>

record 'w detection =
  det_id :: string
  default_severity :: severity
  plan_of :: "detection_event \<Rightarrow> ('w, plan option) run"
  apply_of :: "plan \<Rightarrow> ('w, string list) run"

type_synonym 'w notifier = "detection_event \<Rightarrow> outcome \<Rightarrow> plan option \<Rightarrow> ('w, bool) run"

text \<open>\<open>plan\<close> is read-only; \<open>apply\<close> makes nothing but changes to the resource.\<close>

locale detection_contract =
  fixes det :: "'w detection"
  assumes plan_reads: "emits is_read (plan_of det ev)"
    and apply_remediates: "emits is_remediation (apply_of det p)"

text \<open>An alert claims a slot in the table, reads the webhook secret and posts; nothing else.\<close>

locale notifier_contract =
  fixes notify :: "'w notifier"
  assumes notify_alerts: "emits is_alert (notify ev out p)"

definition null_notify :: "'w notifier" where
  "null_notify ev out p = ret False"

interpretation null: notifier_contract null_notify
  by unfold_locales (auto simp: null_notify_def intro: emit_intros)

end
