(* ===== verification/Events.thy ===== *)
theory Events
  imports Models
begin

text \<open>
  \<open>remediations/common/events.py\<close>: the two event shapes, normalised. Events are untrusted
  input: a field that is missing or of the wrong type reads as \<open>unknown\<close>.
\<close>

definition unknown :: string where
  "unknown = ''unknown''"

definition mapping :: "pyval \<Rightarrow> pydict" where
  "mapping v = (if is_mapping v then as_dict v else [])"

definition text_or :: "pyval \<Rightarrow> string \<Rightarrow> string" where
  "text_or v dflt = (case v of VStr s \<Rightarrow> (if s \<noteq> [] then s else dflt) | _ \<Rightarrow> dflt)"

definition parse_cloudtrail :: "pydict \<Rightarrow> pydict \<Rightarrow> detection_event" where
  "parse_cloudtrail ev det =
     (let identity = mapping (dict_get det ''userIdentity'' VNone);
          session_issuer =
            mapping (dict_get (mapping (dict_get identity ''sessionContext'' VNone)) ''sessionIssuer'' VNone);
          name = text_or (dict_get identity ''userName'' VNone) '''';
          name = (if name = [] then text_or (dict_get session_issuer ''userName'' VNone) '''' else name);
          name = (if name = [] then split_head '':'' (text_or (dict_get identity ''principalId'' VNone) unknown)
                  else name);
          who = \<lparr>
            arn = text_or (dict_get identity ''arn'' VNone) unknown,
            ptype = text_or (dict_get identity ''type'' VNone) unknown,
            pname = (if name = [] then unknown else name),
            paccount_id = text_or (dict_get identity ''accountId'' VNone)
                            (text_or (dict_get ev ''account'' VNone) unknown)\<rparr>
      in \<lparr>
        event_id = text_or (dict_get det ''eventID'' VNone) (text_or (dict_get ev ''id'' VNone) unknown),
        event_time = text_or (dict_get det ''eventTime'' VNone) (text_or (dict_get ev ''time'' VNone) unknown),
        source = text_or (dict_get ev ''source'' VNone) unknown,
        account_id = text_or (dict_get ev ''account'' VNone)
                       (text_or (dict_get det ''recipientAccountId'' VNone) unknown),
        region = text_or (dict_get det ''awsRegion'' VNone) (text_or (dict_get ev ''region'' VNone) unknown),
        principal = who,
        source_ip = text_or (dict_get det ''sourceIPAddress'' VNone) unknown,
        user_agent = text_or (dict_get det ''userAgent'' VNone) unknown,
        detail = det\<rparr>)"

definition parse_guardduty :: "pydict \<Rightarrow> pydict \<Rightarrow> detection_event" where
  "parse_guardduty ev det =
     (let resource = mapping (dict_get det ''resource'' VNone);
          key_details = mapping (dict_get resource ''accessKeyDetails'' VNone);
          service = mapping (dict_get det ''service'' VNone);
          remote = mapping (dict_get (mapping (dict_get (mapping (dict_get service ''action'' VNone))
                     ''awsApiCallAction'' VNone)) ''remoteIpDetails'' VNone);
          who = \<lparr>
            arn = text_or (dict_get key_details ''principalId'' VNone) unknown,
            ptype = text_or (dict_get key_details ''userType'' VNone) unknown,
            pname = text_or (dict_get key_details ''userName'' VNone) unknown,
            paccount_id = text_or (dict_get det ''accountId'' VNone)
                            (text_or (dict_get ev ''account'' VNone) unknown)\<rparr>
      in \<lparr>
        event_id = text_or (dict_get det ''id'' VNone) (text_or (dict_get ev ''id'' VNone) unknown),
        event_time = text_or (dict_get service ''eventLastSeen'' VNone)
                       (text_or (dict_get ev ''time'' VNone) unknown),
        source = text_or (dict_get ev ''source'' VNone) unknown,
        account_id = text_or (dict_get det ''accountId'' VNone)
                       (text_or (dict_get ev ''account'' VNone) unknown),
        region = text_or (dict_get det ''region'' VNone) (text_or (dict_get ev ''region'' VNone) unknown),
        principal = who,
        source_ip = text_or (dict_get remote ''ipAddressV4'' VNone) unknown,
        user_agent = unknown,
        detail = det\<rparr>)"

definition parse :: "pydict \<Rightarrow> detection_event res" where
  "parse ev =
     (let src = text_or (dict_get ev ''source'' VNone) unknown;
          det = mapping (dict_get ev ''detail'' VNone)
      in if src = ''aws.guardduty'' then Inr (parse_guardduty ev det)
         else if text_or (dict_get ev ''detail-type'' VNone) unknown = ''AWS API Call via CloudTrail''
              then Inr (parse_cloudtrail ev det)
              else Inl (UnsupportedEventError (''unsupported event source '' @ repr_str src)))"

definition request_parameters :: "detection_event \<Rightarrow> pydict" where
  "request_parameters ev = mapping (dict_get (detail ev) ''requestParameters'' VNone)"

fun as_items :: "pyval \<Rightarrow> pyval list" where
  "as_items (VDict d) = (case dict_get d ''items'' VNone of VList xs \<Rightarrow> xs | _ \<Rightarrow> [])"
| "as_items (VList xs) = xs"
| "as_items _ = []"

lemma text_or_nonempty: "dflt \<noteq> [] \<Longrightarrow> text_or v dflt \<noteq> []"
  by (auto simp: text_or_def split: pyval.splits)

lemma unknown_nonempty [simp]: "unknown \<noteq> []"
  by (simp add: unknown_def)

lemmas parse_defs = parse_def parse_cloudtrail_def parse_guardduty_def Let_def

subsection \<open>What a parsed event promises\<close>

text \<open>
  An event is rejected only for its source and its \<open>detail-type\<close>: whatever else is missing
  or has the wrong type, it is normalised.
\<close>

lemma parse_accepts:
  "(\<exists>ev. parse raw = Inr ev) \<longleftrightarrow>
     text_or (dict_get raw ''source'' VNone) unknown = ''aws.guardduty'' \<or>
     dict_get raw ''detail-type'' VNone = VStr ''AWS API Call via CloudTrail''"
  by (auto simp: parse_def Let_def text_or_def unknown_def split: pyval.splits if_splits)

text \<open>
  C33: no text of a normalised event is empty, so neither the audit key nor the alert is built on
  an empty identifier, time, account or principal.
\<close>

theorem parse_complete:
  assumes "parse raw = Inr ev"
  shows "event_id ev \<noteq> [] \<and> event_time ev \<noteq> [] \<and> source ev \<noteq> [] \<and> account_id ev \<noteq> [] \<and>
         region ev \<noteq> [] \<and> source_ip ev \<noteq> [] \<and> user_agent ev \<noteq> [] \<and> arn (principal ev) \<noteq> [] \<and>
         ptype (principal ev) \<noteq> [] \<and> pname (principal ev) \<noteq> [] \<and> paccount_id (principal ev) \<noteq> []"
  using assms by (auto simp: parse_defs text_or_nonempty split: if_splits)

theorem parse_complete_witness:
  "\<exists>ev. parse [(''source'', VStr ''aws.guardduty''), (''detail'', VInt 3)] = Inr ev \<and> event_id ev \<noteq> []"
proof -
  obtain ev where ev: "parse [(''source'', VStr ''aws.guardduty''), (''detail'', VInt 3)] = Inr ev"
    by (simp add: parse_def text_or_def dict_get_def)
  with parse_complete [OF ev] show ?thesis by simp
qed

end
