(* ===== verification/Config.thy ===== *)
theory Config
  imports PyVal
begin

text \<open>
  \<open>remediations/common/config.py\<close>: the configuration read from the environment variables of
  the function. The environment is a map from names to values.
\<close>

definition truthy_words :: "string list" where
  "truthy_words = [''1'', ''true'', ''yes'', ''on'']"

definition falsy_words :: "string list" where
  "falsy_words = [''0'', ''false'', ''no'', ''off'']"

definition flag :: "(string \<rightharpoonup> string) \<Rightarrow> string \<Rightarrow> bool \<Rightarrow> bool res" where
  "flag vars name dflt =
     (case vars name of
        None \<Rightarrow> Inr dflt
      | Some raw \<Rightarrow>
          (if raw = [] then Inr dflt
           else
             let lowered = lower (strip raw) in
             if lowered \<in> set truthy_words then Inr True
             else if lowered \<in> set falsy_words then Inr False
             else Inl (ConfigError (name @ ''='' @ repr_str raw @ '' is not a boolean''))))"

definition positive_int :: "(string \<rightharpoonup> string) \<Rightarrow> string \<Rightarrow> int \<Rightarrow> int res" where
  "positive_int vars name dflt =
     (case vars name of
        None \<Rightarrow> Inr dflt
      | Some raw \<Rightarrow>
          (if raw = [] then Inr dflt
           else
             case parse_int raw of
               None \<Rightarrow> Inl (ConfigError (name @ ''='' @ repr_str raw @ '' is not an integer''))
             | Some value \<Rightarrow>
                 (if value \<le> 0
                  then Inl (ConfigError (name @ ''='' @ show_int value @ '' must be positive''))
                  else Inr value)))"

record config =
  cfg_detection_id :: string
  table_name :: string
  environment :: string
  dry_run :: bool
  exclusion_tag :: string
  circuit_breaker_max_actions :: int
  circuit_breaker_window_seconds :: int
  dedup_window_seconds :: int
  slack_secret_arn :: "string option"

definition env_text :: "(string \<rightharpoonup> string) \<Rightarrow> string \<Rightarrow> string \<Rightarrow> string" where
  "env_text vars name dflt = strip (case vars name of None \<Rightarrow> dflt | Some v \<Rightarrow> v)"

definition or_text :: "string \<Rightarrow> string \<Rightarrow> string" where
  "or_text s dflt = (if s = [] then dflt else s)"

definition from_env :: "(string \<rightharpoonup> string) \<Rightarrow> config res" where
  "from_env vars =
     (let det = env_text vars ''PAC_DETECTION_ID'' '''' in
      if det = [] then Inl (ConfigError ''PAC_DETECTION_ID is required'') else
      let tab = env_text vars ''PAC_TABLE_NAME'' '''' in
      if tab = [] then Inl (ConfigError ''PAC_TABLE_NAME is required'') else
      let secret = env_text vars ''PAC_SLACK_SECRET_ARN'' '''';
          secret = (if secret = [] then None else Some secret)
      in
      res_bind (flag vars ''PAC_DRY_RUN'' True) (\<lambda>dry.
      res_bind (positive_int vars ''PAC_CIRCUIT_BREAKER_MAX_ACTIONS'' 5) (\<lambda>max_actions.
      res_bind (positive_int vars ''PAC_CIRCUIT_BREAKER_WINDOW_SECONDS'' 300) (\<lambda>window.
      res_bind (positive_int vars ''PAC_DEDUP_WINDOW_SECONDS'' 900) (\<lambda>dedup.
      Inr \<lparr>
        cfg_detection_id = det,
        table_name = tab,
        environment = or_text (env_text vars ''PAC_ENVIRONMENT'' ''unknown'') ''unknown'',
        dry_run = dry,
        exclusion_tag = or_text (env_text vars ''PAC_EXCLUSION_TAG'' ''pac:exclude'') ''pac:exclude'',
        circuit_breaker_max_actions = max_actions,
        circuit_breaker_window_seconds = window,
        dedup_window_seconds = dedup,
        slack_secret_arn = secret\<rparr>)))))"

text \<open>What every configuration that is accepted satisfies.\<close>

definition wf_config :: "config \<Rightarrow> bool" where
  "wf_config c \<longleftrightarrow>
     cfg_detection_id c \<noteq> [] \<and> table_name c \<noteq> [] \<and> environment c \<noteq> [] \<and> exclusion_tag c \<noteq> [] \<and>
     0 < circuit_breaker_max_actions c \<and> 0 < circuit_breaker_window_seconds c \<and>
     0 < dedup_window_seconds c \<and> slack_secret_arn c \<noteq> Some []"

lemma positive_int_pos: "positive_int vars n d = Inr v \<Longrightarrow> 0 < d \<Longrightarrow> 0 < v"
  by (auto simp: positive_int_def split: option.splits if_splits)

lemma or_text_nonempty: "d \<noteq> [] \<Longrightarrow> or_text s d \<noteq> []"
  by (simp add: or_text_def)

lemma flag_False_iff:
  "flag vars n True = Inr False \<longleftrightarrow>
     (\<exists>raw. vars n = Some raw \<and> raw \<noteq> [] \<and> lower (strip raw) \<in> set falsy_words)"
  by (auto simp: flag_def truthy_words_def falsy_words_def Let_def split: option.splits if_splits)

lemma flag_Inl: "flag vars n d = Inl e \<Longrightarrow> \<exists>m. e = ConfigError m"
  by (auto simp: flag_def Let_def split: option.splits if_splits)

lemma positive_int_Inl: "positive_int vars n d = Inl e \<Longrightarrow> \<exists>m. e = ConfigError m"
  by (auto simp: positive_int_def split: option.splits if_splits)

lemmas from_env_cases = from_env_def Let_def res_bind_def

lemma from_env_wf: "from_env vars = Inr c \<Longrightarrow> wf_config c"
  by (auto simp: from_env_cases wf_config_def or_text_nonempty split: if_splits sum.splits
        dest: positive_int_pos)

lemma from_env_dry: "from_env vars = Inr c \<Longrightarrow> flag vars ''PAC_DRY_RUN'' True = Inr (dry_run c)"
  by (auto simp: from_env_cases split: if_splits sum.splits)

lemma from_env_Inl: "from_env vars = Inl e \<Longrightarrow> \<exists>m. e = ConfigError m"
  by (auto simp: from_env_cases split: if_splits sum.splits dest: flag_Inl positive_int_Inl)

subsection \<open>What an accepted configuration promises\<close>

text \<open>A function's environment variables, for the examples.\<close>

definition sample_vars :: "string \<rightharpoonup> string" where
  "sample_vars =
     [''PAC_DETECTION_ID'' \<mapsto> ''sg-open'', ''PAC_TABLE_NAME'' \<mapsto> ''pac'', ''PAC_DRY_RUN'' \<mapsto> '' No'']"

lemma sample_vars_accepted: "\<not> isl (from_env sample_vars) \<and> \<not> dry_run (projr (from_env sample_vars))"
  by code_simp

lemma sample_vars_config: "from_env sample_vars = Inr (projr (from_env sample_vars))"
  using sample_vars_accepted by (cases "from_env sample_vars") simp_all

text \<open>
  C31: the program only leaves dry-run when the variable is set and is, up to case and surrounding
  white space, one of the words for false: unset, empty or malformed never does.
\<close>

theorem dry_run_off_is_explicit:
  assumes "from_env vars = Inr c" and "\<not> dry_run c"
  shows "\<exists>raw. vars ''PAC_DRY_RUN'' = Some raw \<and> raw \<noteq> [] \<and> lower (strip raw) \<in> set falsy_words"
  using from_env_dry [OF assms(1)] assms(2) by (auto simp: flag_False_iff [symmetric])

theorem dry_run_off_is_explicit_witness:
  "\<exists>raw. sample_vars ''PAC_DRY_RUN'' = Some raw \<and> raw \<noteq> [] \<and> lower (strip raw) \<in> set falsy_words"
  by (rule dry_run_off_is_explicit [OF sample_vars_config]) (simp add: sample_vars_accepted)

end
