(* ===== verification/Clock.thy ===== *)
theory Clock
  imports Effects
begin

text \<open>
  \<open>remediations/common/clock.py\<close>: the one place that reads the time. A moment is a UTC
  \<open>datetime\<close> value; \<open>iso\<close> renders it, \<open>epoch\<close> counts whole seconds since 1970.
\<close>

definition pad :: "nat \<Rightarrow> nat \<Rightarrow> string" where
  "pad w n = zeros (w - length (show_nat n)) @ show_nat n"

text \<open>\<open>datetime.isoformat\<close> of a UTC moment: the fraction is left out when it is zero.\<close>

definition isoformat :: "datetime \<Rightarrow> string" where
  "isoformat d =
     pad 4 (year d) @ ''-'' @ pad 2 (month d) @ ''-'' @ pad 2 (day d) @ ''T'' @
     pad 2 (hour d) @ '':'' @ pad 2 (minute d) @ '':'' @ pad 2 (second d) @
     (if microsecond d = 0 then '''' else ''.'' @ pad 6 (microsecond d)) @ ''+00:00''"

definition iso_of :: "datetime \<Rightarrow> string" where
  "iso_of d = replace_all ''+00:00'' ''Z'' (isoformat d)"

definition leap_year :: "nat \<Rightarrow> bool" where
  "leap_year y \<longleftrightarrow> y mod 4 = 0 \<and> (y mod 100 \<noteq> 0 \<or> y mod 400 = 0)"

definition days_before_year :: "nat \<Rightarrow> int" where
  "days_before_year y = (let k = int y - 1 in k * 365 + k div 4 - k div 100 + k div 400)"

definition days_before_month :: "nat \<Rightarrow> nat \<Rightarrow> int" where
  "days_before_month y m =
     int ([0, 31, 59, 90, 120, 151, 181, 212, 243, 273, 304, 334] ! ((m - 1) mod 12)) +
     (if 2 < m \<and> leap_year y then 1 else 0)"

text \<open>The microseconds since 1970-01-01T00:00:00Z, whose proleptic ordinal is 719163.\<close>

definition micros :: "datetime \<Rightarrow> int" where
  "micros d =
     ((days_before_year (year d) + days_before_month (year d) (month d) + int (day d) - 719163) * 86400 +
      int (hour d) * 3600 + int (minute d) * 60 + int (second d)) * 1000000 + int (microsecond d)"

text \<open>\<open>int(moment.timestamp())\<close>: truncation towards zero.\<close>

definition epoch_of :: "datetime \<Rightarrow> int" where
  "epoch_of d = trunc_dec (micros d) (- 6)"

definition iso :: "'w env \<Rightarrow> ('w, string) run" where
  "iso env = bind (read_clock env) (\<lambda>d. ret (iso_of d))"

definition epoch :: "'w env \<Rightarrow> ('w, int) run" where
  "epoch env = bind (read_clock env) (\<lambda>d. ret (epoch_of d))"

lemma emits_iso [emit_intros]: "emits P (iso env)"
  by (auto simp: iso_def intro!: emit_intros)

lemma emits_epoch [emit_intros]: "emits P (epoch env)"
  by (auto simp: epoch_def intro!: emit_intros)

lemma isoE [consumes 1]:
  assumes "iso env s = (r, t, s')"
  obtains x where "r = Inr x" and "t = []" and "webhook_cache s' = webhook_cache s"
  using assms unfolding iso_def by (auto elim!: bindE read_clockE simp: ret_def)

lemma epochE [consumes 1]:
  assumes "epoch env s = (r, t, s')"
  obtains x where "r = Inr x" and "t = []" and "webhook_cache s' = webhook_cache s"
  using assms unfolding epoch_def by (auto elim!: bindE read_clockE simp: ret_def)

lemma epoch_of_mono: "micros a \<le> micros b \<Longrightarrow> 0 \<le> micros a \<Longrightarrow> epoch_of a \<le> epoch_of b"
proof -
  assume "micros a \<le> micros b" and "0 \<le> micros a"
  then have "epoch_of a = micros a div 1000000" and "epoch_of b = micros b div 1000000"
    by (auto simp: epoch_of_def trunc_dec_def sgn_if)
  with \<open>micros a \<le> micros b\<close> show ?thesis by (simp add: zdiv_mono1)
qed

end
