(* ===== verification/Redact.thy ===== *)
theory Redact
  imports PyVal
begin

text \<open>
  \<open>remediations/common/redact.py\<close>: credential material is dropped by key name and by two
  value shapes (Slack webhook URLs and Slack tokens) before anything is stored or sent.
\<close>

definition placeholder :: string where
  "placeholder = ''[redacted]''"

definition sensitive_key_parts :: "string list" where
  "sensitive_key_parts =
     [''secretaccesskey'', ''sessiontoken'', ''securitytoken'', ''password'', ''passwd'',
      ''authorization'', ''webhook'', ''privatekey'', ''clientsecret'', ''apikey'', ''api_key'',
      ''credentials'']"

definition max_string :: nat where
  "max_string = 2048"

definition key_is_sensitive :: "string \<Rightarrow> bool" where
  "key_is_sensitive k =
     (let normalised = lower (replace_all ''_'' '''' (replace_all ''-'' '''' k)) in
      list_ex (\<lambda>part. contains (replace_all ''_'' '''' part) normalised) sensitive_key_parts)"

subsection \<open>The value pattern\<close>

text \<open>
  The regular expression has two alternatives, each a fixed prefix and a greedy run over a
  character class; \<open>match_secret\<close> gives the length of a match at the front of the text.
\<close>

definition alnum :: "char \<Rightarrow> bool" where
  "alnum c \<longleftrightarrow>
     (CHR ''A'' \<le> c \<and> c \<le> CHR ''Z'') \<or> (CHR ''a'' \<le> c \<and> c \<le> CHR ''z'') \<or> (CHR ''0'' \<le> c \<and> c \<le> CHR ''9'')"

definition url_char :: "char \<Rightarrow> bool" where
  "url_char c \<longleftrightarrow> alnum c \<or> c = CHR ''/'' \<or> c = CHR ''_'' \<or> c = CHR ''-''"

definition token_char :: "char \<Rightarrow> bool" where
  "token_char c \<longleftrightarrow> alnum c \<or> c = CHR ''-''"

definition webhook_prefix :: string where
  "webhook_prefix = ''https://hooks.slack.com/services/''"

definition token_prefixes :: "string list" where
  "token_prefixes = [''xoxb-'', ''xoxa-'', ''xoxp-'', ''xoxr-'', ''xoxs-'']"

definition run_length :: "(char \<Rightarrow> bool) \<Rightarrow> string \<Rightarrow> nat" where
  "run_length P s = length (takeWhile P s)"

definition match_alt :: "string \<Rightarrow> (char \<Rightarrow> bool) \<Rightarrow> nat \<Rightarrow> string \<Rightarrow> nat option" where
  "match_alt p P least s =
     (if prefix p s \<and> least \<le> run_length P (drop (length p) s)
      then Some (length p + run_length P (drop (length p) s)) else None)"

definition match_secret :: "string \<Rightarrow> nat option" where
  "match_secret s =
     (case match_alt webhook_prefix url_char 1 s of
        Some n \<Rightarrow> Some n
      | None \<Rightarrow> (case find (\<lambda>p. match_alt p token_char 10 s \<noteq> None) token_prefixes of
                   Some p \<Rightarrow> match_alt p token_char 10 s
                 | None \<Rightarrow> None))"

text \<open>\<open>_SENSITIVE_VALUES.sub(PLACEHOLDER, text)\<close>: leftmost matches that do not overlap.\<close>

function sub_secrets :: "string \<Rightarrow> string" where
  "sub_secrets [] = []"
| "sub_secrets (c # s) =
     (case match_secret (c # s) of
        Some n \<Rightarrow> placeholder @ sub_secrets (drop n (c # s))
      | None \<Rightarrow> c # sub_secrets s)"
  by pat_completeness auto
termination
proof (relation "measure length", goal_cases)
  case (3 c s n)
  then have "n \<noteq> 0"
    by (auto simp: match_secret_def match_alt_def webhook_prefix_def token_prefixes_def
        split: option.splits if_splits)
  then show ?case by (cases n) auto
qed simp_all

definition truncated_mark :: string where
  "truncated_mark = [CHR 0xE2, CHR 0x80, CHR 0xA6] @ ''[truncated]''"

definition scrub_text :: "string \<Rightarrow> string" where
  "scrub_text value =
     (let cleaned = sub_secrets value in
      if max_string < cp_length cleaned then cp_take max_string cleaned @ truncated_mark else cleaned)"

text \<open>
  \<open>scrub\<close> and \<open>scrub_mapping\<close> call each other in the source; here the case of a mapping is
  written out inside \<open>scrub\<close>, and \<open>scrub_mapping\<close> is that case on a dict.
\<close>

fun scrub :: "pyval \<Rightarrow> pyval" where
  "scrub (VDict d) =
     VDict (map (\<lambda>(k, v). (k, if key_is_sensitive k then VStr placeholder else scrub v)) d)"
| "scrub (VStr s) = VStr (scrub_text s)"
| "scrub (VBytes s) = VStr placeholder"
| "scrub (VList xs) = VList (map scrub xs)"
| "scrub v = v"

definition scrub_mapping :: "pydict \<Rightarrow> pydict" where
  "scrub_mapping d =
     map (\<lambda>(k, v). (k, if key_is_sensitive k then VStr placeholder else scrub v)) d"

lemma scrub_mapping_scrub: "scrub (VDict d) = VDict (scrub_mapping d)"
  by (simp add: scrub_mapping_def)

subsection \<open>What is left after scrubbing\<close>

text \<open>The alternatives of the pattern, and the shortest texts they match.\<close>

definition alternatives :: "(string \<times> (char \<Rightarrow> bool) \<times> nat) list" where
  "alternatives = (webhook_prefix, url_char, 1) # map (\<lambda>p. (p, token_char, 10)) token_prefixes"

definition secret_word :: "string \<Rightarrow> bool" where
  "secret_word m \<longleftrightarrow>
     (\<exists>(p, P, n)\<in>set alternatives. \<exists>r. m = p @ r \<and> length r = n \<and> list_all P r)"

fun has_secret :: "string \<Rightarrow> bool" where
  "has_secret [] = False"
| "has_secret (c # s) = (match_secret (c # s) \<noteq> None \<or> has_secret s)"

lemma run_length_ge:
  "n \<le> run_length P s \<longleftrightarrow> (\<exists>r. prefix r s \<and> length r = n \<and> list_all P r)"
proof
  assume n: "n \<le> run_length P s"
  let ?r = "take n (takeWhile P s)"
  have "prefix ?r s"
    by (metis take_is_prefix takeWhile_is_prefix prefix_order.trans)
  moreover have "length ?r = n" using n by (simp add: run_length_def)
  moreover have "list_all P ?r"
    using set_take_subset set_takeWhileD by (fastforce simp: list_all_iff)
  ultimately show "\<exists>r. prefix r s \<and> length r = n \<and> list_all P r" by blast
next
  assume "\<exists>r. prefix r s \<and> length r = n \<and> list_all P r"
  then obtain r u where "s = r @ u" "length r = n" "list_all P r" by (auto simp: prefix_def)
  then show "n \<le> run_length P s"
    by (simp add: run_length_def list_all_iff takeWhile_append)
qed

lemma match_alt_Some_iff:
  "match_alt p P n s \<noteq> None \<longleftrightarrow> (\<exists>r. prefix (p @ r) s \<and> length r = n \<and> list_all P r)"
proof -
  have "prefix (p @ r) s \<longleftrightarrow> prefix p s \<and> prefix r (drop (length p) s)" for r
    by (auto simp: prefix_def)
  then show ?thesis by (auto simp: match_alt_def run_length_ge split: if_splits)
qed

lemma match_secret_iff: "match_secret s \<noteq> None \<longleftrightarrow> (\<exists>m. secret_word m \<and> prefix m s)"
proof -
  have "match_secret s \<noteq> None \<longleftrightarrow>
      (match_alt webhook_prefix url_char 1 s \<noteq> None \<or>
       (\<exists>p\<in>set token_prefixes. match_alt p token_char 10 s \<noteq> None))"
    by (auto simp: match_secret_def find_None_iff find_Some_iff split: option.splits)
  then show ?thesis
    unfolding match_alt_Some_iff secret_word_def alternatives_def by auto
qed

lemma match_secret_None_iff: "match_secret s = None \<longleftrightarrow> (\<forall>m. secret_word m \<longrightarrow> \<not> prefix m s)"
  using match_secret_iff [of s] by blast

lemma has_secret_iff: "has_secret s \<longleftrightarrow> (\<exists>a m b. secret_word m \<and> s = a @ m @ b)"
proof (induction s)
  case Nil
  have "\<not> secret_word []"
    by (auto simp: secret_word_def alternatives_def webhook_prefix_def)
  then show ?case by auto
next
  case (Cons c s)
  show ?case
    unfolding has_secret.simps Cons.IH match_secret_iff prefix_def
    by (metis (no_types, lifting) Cons_eq_append_conv append_Nil append_Cons)
qed

text \<open>A secret word starts with \<open>h\<close> or \<open>x\<close> and has no bracket and no byte above ASCII.\<close>

definition secret_char :: "char \<Rightarrow> bool" where
  "secret_char c \<longleftrightarrow> url_char c \<or> c = CHR '':'' \<or> c = CHR ''.''"

lemma alternatives_chars:
  "(p, P, n) \<in> set alternatives \<Longrightarrow> list_all secret_char p \<and> (\<forall>c. P c \<longrightarrow> secret_char c)"
  by (auto simp: alternatives_def token_prefixes_def webhook_prefix_def
      secret_char_def url_char_def token_char_def alnum_def less_eq_char_def)

lemma secret_word_chars: "secret_word m \<Longrightarrow> list_all secret_char m"
  unfolding secret_word_def by (fastforce simp: list_all_iff dest: alternatives_chars)

lemma secret_word_hd: "secret_word m \<Longrightarrow> \<exists>t. m = CHR ''h'' # t \<or> m = CHR ''x'' # t"
  by (auto simp: secret_word_def alternatives_def token_prefixes_def webhook_prefix_def)

lemma secret_free_prefix: "\<not> has_secret s \<Longrightarrow> prefix t s \<Longrightarrow> \<not> has_secret t"
  by (auto simp: has_secret_iff prefix_def) (metis append.assoc)

text \<open>A separator outside the alphabet keeps two secret-free texts secret-free.\<close>

lemma has_secret_sep:
  assumes "\<not> secret_char d" and "\<not> has_secret u" and "\<not> has_secret v"
  shows "\<not> has_secret (u @ d # v)"
proof
  assume "has_secret (u @ d # v)"
  then obtain a m b where m: "secret_word m" and eq: "u @ d # v = a @ m @ b"
    by (auto simp: has_secret_iff)
  have d: "d \<notin> set m" using secret_word_chars [OF m] assms(1) by (auto simp: list_all_iff)
  have "(\<exists>x. u = a @ m @ x) \<or> (\<exists>x. v = x @ m @ b)"
  proof -
    from eq consider x where "u = a @ x" "x @ d # v = m @ b" | x where "a = u @ x" "d # v = x @ m @ b"
      by (auto simp: append_eq_append_conv2)
    then show ?thesis
    proof cases
      case 1
      then consider y where "x = m @ y" | y where "m = x @ y" "d # v = y @ b"
        by (auto simp: append_eq_append_conv2)
      then show ?thesis
      proof cases
        case (2 y)
        then show ?thesis
        proof (cases y)
          case Nil
          with 1 2 show ?thesis by auto
        next
          case (Cons z zs)
          with 2 d show ?thesis by auto
        qed
      qed (use 1 in auto)
    next
      case 2
      then show ?thesis
      proof (cases x)
        case Nil
        obtain z zs where "m = z # zs" using secret_word_hd [OF m] by auto
        with Nil 2 d show ?thesis by auto
      qed auto
    qed
  qed
  with assms(2,3) m show False by (auto simp: has_secret_iff)
qed

lemma sub_secrets_prefix:
  "prefix w (sub_secrets s) \<Longrightarrow> list_all secret_char w \<Longrightarrow> prefix w s"
proof (induction s arbitrary: w rule: sub_secrets.induct)
  case (2 c s)
  show ?case
  proof (cases "match_secret (c # s)")
    case None
    with 2 show ?thesis by (cases w) auto
  next
    case (Some n)
    with 2 show ?thesis
      by (cases w) (auto simp: placeholder_def secret_char_def url_char_def alnum_def)
  qed
qed simp

lemma has_secret_placeholder: "\<not> has_secret v \<Longrightarrow> \<not> has_secret (placeholder @ v)"
proof -
  assume v: "\<not> has_secret v"
  have no: "match_secret (c # s) = None" if "c \<noteq> CHR ''h''" "c \<noteq> CHR ''x''" for c s
    unfolding match_secret_None_iff using that by (auto dest!: secret_word_hd)
  show ?thesis using v by (simp add: placeholder_def no)
qed

lemma sub_secrets_clean: "\<not> has_secret (sub_secrets s)"
proof (induction s rule: sub_secrets.induct)
  case (2 c s)
  show ?case
  proof (cases "match_secret (c # s)")
    case None
    have "match_secret (c # sub_secrets s) = None"
    proof (rule ccontr)
      assume "match_secret (c # sub_secrets s) \<noteq> None"
      then obtain m where m: "secret_word m" "prefix m (c # sub_secrets s)"
        unfolding match_secret_iff by blast
      obtain t where t: "m = c # t" "prefix t (sub_secrets s)"
        using m secret_word_hd [OF m(1)] by (auto simp: prefix_Cons)
      have "prefix t s"
        using sub_secrets_prefix [OF t(2)] secret_word_chars [OF m(1)] t(1) by simp
      with m(1) t(1) None show False
        by (metis Cons_prefix_Cons match_secret_iff)
    qed
    with None 2 show ?thesis by simp
  next
    case (Some n)
    with 2 show ?thesis by (simp add: has_secret_placeholder)
  qed
qed simp

lemma sub_secrets_id: "\<not> has_secret s \<Longrightarrow> sub_secrets s = s"
  by (induction s) auto

lemma truncated_mark_clean: "\<not> has_secret truncated_mark"
proof -
  have no: "c \<noteq> CHR ''h'' \<and> c \<noteq> CHR ''x''" if "c \<in> set truncated_mark" for c
    using that by (auto simp: truncated_mark_def)
  show ?thesis
  proof
    assume "has_secret truncated_mark"
    then obtain a m b where m: "secret_word m" "truncated_mark = a @ m @ b"
      by (auto simp: has_secret_iff)
    from secret_word_hd [OF m(1)] have "hd m \<in> set (a @ m @ b)" by auto
    then have "hd m \<in> set truncated_mark" by (simp only: m(2))
    from no [OF this] secret_word_hd [OF m(1)] show False by auto
  qed
qed

lemma scrub_text_clean: "\<not> has_secret (scrub_text s)"
proof -
  let ?c = "sub_secrets s"
  have "\<not> has_secret (cp_take max_string ?c @ truncated_mark)"
  proof -
    have "\<not> has_secret (cp_take max_string ?c)"
      using sub_secrets_clean prefix_cp_take by (rule secret_free_prefix)
    moreover have "\<not> has_secret (tl truncated_mark)"
      using truncated_mark_clean by (auto simp: truncated_mark_def)
    moreover have "\<not> secret_char (CHR 0xE2)"
      by (simp add: secret_char_def url_char_def alnum_def less_eq_char_def)
    ultimately have "\<not> has_secret (cp_take max_string ?c @ CHR 0xE2 # tl truncated_mark)"
      by (intro has_secret_sep)
    then show ?thesis by (simp add: truncated_mark_def)
  qed
  then show ?thesis by (simp add: scrub_text_def Let_def sub_secrets_clean)
qed

lemma cp_length_mark: "cp_length truncated_mark = 12"
  by (simp add: truncated_mark_def cont_byte_def)

lemma scrub_text_length: "cp_length (scrub_text s) \<le> max_string + 12"
  by (simp add: scrub_text_def Let_def cp_length_take cp_length_mark)

lemma scrub_text_id: "\<not> has_secret s \<Longrightarrow> cp_length s \<le> max_string \<Longrightarrow> scrub_text s = s"
  by (simp add: scrub_text_def sub_secrets_id)

lemma scrub_text_idem: "scrub_text (scrub_text s) = scrub_text s"
proof (cases "max_string < cp_length (sub_secrets s)")
  case True
  let ?u = "cp_take max_string (sub_secrets s)"
  have len: "cp_length ?u = max_string" using True by (simp add: cp_length_take)
  have t: "scrub_text s = ?u @ truncated_mark" using True by (simp add: scrub_text_def)
  have "sub_secrets (?u @ truncated_mark) = ?u @ truncated_mark"
    using scrub_text_clean [of s] by (simp add: t sub_secrets_id)
  moreover have "cp_take max_string (?u @ truncated_mark) = ?u"
    using cp_take_append [of truncated_mark ?u] by (simp add: len truncated_mark_def cont_byte_def)
  ultimately show ?thesis
    by (simp add: t) (simp add: scrub_text_def len cp_length_mark)
next
  case False
  then have "scrub_text s = sub_secrets s" by (simp add: scrub_text_def)
  with False show ?thesis by (simp add: scrub_text_id sub_secrets_clean)
qed

text \<open>
  A value that may leave the function: no text leaf holds a secret or runs past the limit,
  nothing is raw bytes, and under a sensitive key there is only the placeholder.
\<close>

fun clean :: "pyval \<Rightarrow> bool" where
  "clean (VDict d) \<longleftrightarrow>
     (\<forall>(k, v)\<in>set d. if key_is_sensitive k then v = VStr placeholder else clean v)"
| "clean (VStr s) \<longleftrightarrow> \<not> has_secret s \<and> cp_length s \<le> max_string + 12"
| "clean (VBytes s) \<longleftrightarrow> False"
| "clean (VList xs) \<longleftrightarrow> (\<forall>x\<in>set xs. clean x)"
| "clean v \<longleftrightarrow> True"

lemma placeholder_clean [simp]: "\<not> has_secret placeholder" "cp_length placeholder \<le> max_string"
  using has_secret_placeholder [of "[]"] by (simp_all add: placeholder_def cont_byte_def max_string_def)

lemma scrub_text_placeholder [simp]: "scrub_text placeholder = placeholder"
  by (simp add: scrub_text_id)

lemma scrub_cleans: "clean (scrub v)"
  by (induction v rule: scrub.induct)
     (auto simp: scrub_text_clean scrub_text_length intro: trans_le_add1)

lemma scrub_idem: "scrub (scrub v) = scrub v"
  by (induction v rule: scrub.induct) (auto simp: scrub_text_idem)

subsection \<open>The promises of redaction\<close>

text \<open>
  C35: a scrubbed value of any shape is clean (no secret in a text leaf, no raw bytes, only the
  placeholder under a sensitive key), and scrubbing is idempotent.
\<close>

theorem scrub_safe: "clean (scrub v) \<and> scrub (scrub v) = scrub v"
  using scrub_cleans scrub_idem by blast

end
