(* ===== verification/AuditLog.thy ===== *)
theory AuditLog
  imports Models Clock Redact
begin

text \<open>
  \<open>remediations/common/audit.py\<close>: the two-phase writer of the audit table. \<open>audit_open\<close>
  stores the snapshot before anything changes, \<open>audit_close\<close> updates the same item,
  \<open>record_unplanned\<close> writes down an invocation that made no plan.
\<close>

definition audit_key :: "string \<Rightarrow> string \<Rightarrow> string \<Rightarrow> string \<Rightarrow> pydict" where
  "audit_key det rid etime eid =
     [(''pk'', VStr (''AUDIT#'' @ det @ ''#'' @ rid)), (''sk'', VStr (etime @ ''#'' @ eid))]"

definition dump :: "pyval \<Rightarrow> string" where
  "dump v = json_dumps True (scrub v)"

definition strs :: "string list \<Rightarrow> pyval" where
  "strs xs = VList (map VStr xs)"

definition opt_str :: "string option \<Rightarrow> pyval" where
  "opt_str v = (case v of None \<Rightarrow> VNone | Some s \<Rightarrow> VStr s)"

definition plan_key :: "string \<Rightarrow> detection_event \<Rightarrow> plan \<Rightarrow> pydict" where
  "plan_key det ev p = audit_key det (resource_id p) (event_time ev) (event_id ev)"

definition open_item :: "string \<Rightarrow> string \<Rightarrow> detection_event \<Rightarrow> plan \<Rightarrow> bool \<Rightarrow> pydict" where
  "open_item now det ev p dry =
     plan_key det ev p @
     [(''detection_id'', VStr det),
      (''status'', VStr ''PLANNED''),
      (''recorded_at'', VStr now),
      (''dry_run'', VBool dry),
      (''severity'', VStr (severity_value (plan_severity p))),
      (''reason'', VStr (reason p)),
      (''resource_id'', VStr (resource_id p)),
      (''resource_arn'', VStr (resource_arn p)),
      (''account_id'', VStr (account_id ev)),
      (''region'', VStr (region ev)),
      (''event_id'', VStr (event_id ev)),
      (''event_time'', VStr (event_time ev)),
      (''event_source'', VStr (source ev)),
      (''principal_arn'', VStr (arn (principal ev))),
      (''principal_type'', VStr (ptype (principal ev))),
      (''principal_name'', VStr (pname (principal ev))),
      (''source_ip'', VStr (source_ip ev)),
      (''user_agent'', VStr (user_agent ev)),
      (''intended_actions'', strs (intended_actions p)),
      (''tags'', scrub (str_dict (tags p))),
      (''blast_radius'', VStr (dump (VDict (blast_radius p)))),
      (''snapshot'', VStr (dump (VDict (snapshot p))))]"

definition audit_open ::
  "'w env \<Rightarrow> string \<Rightarrow> string \<Rightarrow> detection_event \<Rightarrow> plan \<Rightarrow> bool \<Rightarrow> ('w, pydict) run"
where
  "audit_open env tb det ev p dry =
     bind (iso env) (\<lambda>now.
     bind (do_call env (PutItem tb (open_item now det ev p dry) None [])) (\<lambda>_.
     ret (plan_key det ev p)))"

definition close_expression :: string where
  "close_expression =
     ''SET #s = :status, actions = :actions, completed_at = :completed, '' @
     ''outcome_reason = :reason, #e = :error''"

definition close_values :: "string \<Rightarrow> outcome \<Rightarrow> pydict" where
  "close_values now out =
     [('':status'', VStr (status_value (status out))),
      ('':actions'', strs (actions out)),
      ('':completed'', VStr now),
      ('':reason'', VStr (outcome_reason out)),
      ('':error'', opt_str (error out))]"

definition close_call :: "string \<Rightarrow> pydict \<Rightarrow> outcome \<Rightarrow> string \<Rightarrow> call" where
  "close_call tb k out now =
     UpdateItem tb k close_expression [(''#s'', VStr ''status''), (''#e'', VStr ''error'')]
       (close_values now out) None"

definition audit_close :: "'w env \<Rightarrow> string \<Rightarrow> pydict \<Rightarrow> outcome \<Rightarrow> ('w, unit) run" where
  "audit_close env tb k out =
     bind (iso env) (\<lambda>now.
     bind (do_call env (close_call tb k out now)) (\<lambda>_. ret ()))"

definition unplanned_item :: "string \<Rightarrow> string \<Rightarrow> detection_event \<Rightarrow> outcome \<Rightarrow> pydict" where
  "unplanned_item now det ev out =
     audit_key det (if outcome_resource out = [] then ''none'' else outcome_resource out)
       (event_time ev) (event_id ev) @
     [(''detection_id'', VStr det),
      (''status'', VStr (status_value (status out))),
      (''recorded_at'', VStr now),
      (''severity'', VStr (severity_value (severity out))),
      (''reason'', VStr (outcome_reason out)),
      (''resource_id'', VStr (outcome_resource out)),
      (''account_id'', VStr (account_id ev)),
      (''region'', VStr (region ev)),
      (''event_id'', VStr (event_id ev)),
      (''event_time'', VStr (event_time ev)),
      (''event_source'', VStr (source ev)),
      (''principal_arn'', VStr (arn (principal ev))),
      (''source_ip'', VStr (source_ip ev)),
      (''actions'', strs (actions out)),
      (''error'', opt_str (error out))]"

definition record_unplanned ::
  "'w env \<Rightarrow> string \<Rightarrow> string \<Rightarrow> detection_event \<Rightarrow> outcome \<Rightarrow> ('w, unit) run"
where
  "record_unplanned env tb det ev out =
     bind (iso env) (\<lambda>now.
     bind (do_call env (PutItem tb (unplanned_item now det ev out) None [])) (\<lambda>_. ret ()))"

subsection \<open>How each write runs\<close>

lemma audit_openE [consumes 1, case_names opened failed]:
  assumes "audit_open env tb det ev p dry s = (r, t, s')"
  obtains (opened) now v where "r = Inr (plan_key det ev p)"
      and "t = [(PutItem tb (open_item now det ev p dry) None [], Inr v)]"
      and "webhook_cache s' = webhook_cache s"
  | (failed) now e where "r = Inl e" and "t = [(PutItem tb (open_item now det ev p dry) None [], Inl e)]"
  using assms unfolding audit_open_def
  by (auto elim!: bindE isoE do_callE simp: ret_def)

lemma audit_closeE [consumes 1, case_names closed failed]:
  assumes "audit_close env tb k out s = (r, t, s')"
  obtains (closed) now v where "r = Inr ()"
      and "t = [(close_call tb k out now, Inr v)]"
      and "webhook_cache s' = webhook_cache s"
  | (failed) now e where "r = Inl e" and "t = [(close_call tb k out now, Inl e)]"
  using assms unfolding audit_close_def
  by (auto elim!: bindE isoE do_callE simp: ret_def)

lemma record_unplannedE [consumes 1, case_names recorded failed]:
  assumes "record_unplanned env tb det ev out s = (r, t, s')"
  obtains (recorded) now v where "r = Inr ()"
      and "t = [(PutItem tb (unplanned_item now det ev out) None [], Inr v)]"
      and "webhook_cache s' = webhook_cache s"
  | (failed) now e where "r = Inl e"
      and "t = [(PutItem tb (unplanned_item now det ev out) None [], Inl e)]"
  using assms unfolding record_unplanned_def
  by (auto elim!: bindE isoE do_callE simp: ret_def)

lemma pk_audit_key: "pk_of (audit_key det rid etime eid @ rest) = ''AUDIT#'' @ det @ ''#'' @ rid"
  by (simp add: pk_of_def audit_key_def dict_get_def)

lemma sk_audit_key: "sk_of (audit_key det rid etime eid @ rest) = etime @ ''#'' @ eid"
  by (simp add: sk_of_def audit_key_def dict_get_def)

lemma pk_open_item: "pk_of (open_item now det ev p dry) = ''AUDIT#'' @ det @ ''#'' @ resource_id p"
  by (simp add: open_item_def plan_key_def pk_audit_key)

lemma pk_plan_key: "pk_of (plan_key det ev p) = ''AUDIT#'' @ det @ ''#'' @ resource_id p"
  using pk_audit_key [of det "resource_id p" _ _ "[]"] by (simp add: plan_key_def)

lemma pk_unplanned_item:
  "pk_of (unplanned_item now det ev out) =
     ''AUDIT#'' @ det @ ''#'' @ (if outcome_resource out = [] then ''none'' else outcome_resource out)"
  by (simp add: unplanned_item_def pk_audit_key)

lemma open_item_snapshot: "map_of (open_item now det ev p dry) ''snapshot'' = Some (VStr (dump (VDict (snapshot p))))"
  by (simp add: open_item_def plan_key_def audit_key_def)

lemma emits_audit_open [emit_intros]: "emits (writes_under ''AUDIT#'') (audit_open env tb det ev p dry)"
  unfolding audit_open_def by (intro emit_intros) (simp add: pk_open_item startswith_def)

lemma emits_audit_close [emit_intros]:
  "startswith (pk_of k) ''AUDIT#'' \<Longrightarrow> emits (writes_under ''AUDIT#'') (audit_close env tb k out)"
  unfolding audit_close_def by (intro emit_intros) (simp add: close_call_def)

lemma emits_record_unplanned [emit_intros]:
  "emits (writes_under ''AUDIT#'') (record_unplanned env tb det ev out)"
  unfolding record_unplanned_def by (intro emit_intros) (simp add: pk_unplanned_item startswith_def)

text \<open>
  Redaction covers the tags, the blast radius and the snapshot only: the texts of the event, its user
  agent for one, are stored as they came, a secret in them included.
\<close>

lemma secret_member_unclean:
  "(k, VStr s) \<in> set d \<Longrightarrow> \<not> key_is_sensitive k \<Longrightarrow> has_secret s \<Longrightarrow> \<not> clean (VDict d)"
  by (force simp del: has_secret.simps)

lemma open_item_unredacted:
  assumes "has_secret (user_agent ev)"
  shows "map_of (open_item now det ev p dry) ''user_agent'' = Some (VStr (user_agent ev)) \<and>
         \<not> clean (VDict (open_item now det ev p dry))"
proof -
  have item: "map_of (open_item now det ev p dry) ''user_agent'' = Some (VStr (user_agent ev))"
    by (simp add: open_item_def plan_key_def audit_key_def)
  have "\<not> key_is_sensitive ''user_agent''" by code_simp
  with item secret_member_unclean [OF map_of_SomeD [OF item]] assms show ?thesis by blast
qed

end
