(* ===== verification/Breaker.thy ===== *)
theory Breaker
  imports Clock
begin

text \<open>
  \<open>remediations/common/circuit_breaker.py\<close>: a counter per detection and time window in the
  audit table, raised by one for every attempt.
\<close>

record breaker_state =
  is_open :: bool
  count :: int
  limit :: int
  state_window_start :: int
  window_seconds :: int

definition breaker_reason :: "breaker_state \<Rightarrow> string" where
  "breaker_reason b =
     ''circuit breaker open: '' @ show_int (count b) @ '' remediation attempts by this detection '' @
     ''in the last '' @ show_int (window_seconds b) @ ''s exceeds the limit of '' @ show_int (limit b)"

definition window_start :: "int \<Rightarrow> int \<Rightarrow> int res" where
  "window_start window at =
     (if window = 0 then Inl (ZeroDivisionError ''integer modulo by zero'') else Inr (at - at mod window))"

definition breaker_key :: "string \<Rightarrow> int \<Rightarrow> pydict" where
  "breaker_key det ws = [(''pk'', VStr (''CB#'' @ det)), (''sk'', VStr (''WINDOW#'' @ show_int ws))]"

definition breaker_expression :: string where
  "breaker_expression = ''ADD attempts :one SET expires_at = :ttl, detection_id = :did''"

definition breaker_update :: "string \<Rightarrow> string \<Rightarrow> int \<Rightarrow> int \<Rightarrow> call" where
  "breaker_update tb det window ws =
     UpdateItem tb (breaker_key det ws) breaker_expression []
       [('':one'', VInt 1), ('':ttl'', VInt (ws + window * 2)), ('':did'', VStr det)]
       (Some ''UPDATED_NEW'')"

text \<open>\<open>int(response.get("Attributes", {}).get("attempts", 1))\<close>\<close>

definition attempts_of :: "pyval \<Rightarrow> int res" where
  "attempts_of response =
     res_bind (py_get response ''Attributes'' (VDict [])) (\<lambda>attrs.
     res_bind (py_get attrs ''attempts'' (VInt 1)) py_int)"

definition check_and_increment ::
  "'w env \<Rightarrow> string \<Rightarrow> string \<Rightarrow> int \<Rightarrow> int \<Rightarrow> int option \<Rightarrow> ('w, breaker_state) run"
where
  "check_and_increment env tb det lim window at =
     bind (case at of None \<Rightarrow> epoch env | Some a \<Rightarrow> ret a) (\<lambda>moment.
     bind (lift (window_start window moment)) (\<lambda>ws.
     bind (do_call env (breaker_update tb det window ws)) (\<lambda>response.
     bind (lift (attempts_of response)) (\<lambda>n.
     ret \<lparr>is_open = lim < n, count = n, limit = lim, state_window_start = ws,
          window_seconds = window\<rparr>))))"

lemma window_start_Inr:
  "0 < w \<Longrightarrow> window_start w at = Inr ws \<Longrightarrow> ws \<le> at \<and> at < ws + w \<and> ws mod w = 0"
proof -
  assume w: "0 < w" and "window_start w at = Inr ws"
  then have ws: "ws = at - at mod w" by (simp add: window_start_def)
  have "0 \<le> at mod w" and "at mod w < w" using w by simp_all
  then show ?thesis by (simp add: ws)
qed

lemma window_start_same_iff:
  "0 < w \<Longrightarrow> window_start w a = window_start w b \<longleftrightarrow> a div w = b div w"
  by (auto simp: window_start_def minus_mod_eq_mult_div)

text \<open>
  A check that returns made exactly one call, the update of its window's counter, and is open
  exactly when the stored count is past the limit.
\<close>

lemma check_and_incrementE [consumes 1, case_names counted no_call bad_call]:
  assumes "check_and_increment env tb det lim window at s = (r, t, s')"
  obtains (counted) n ws v where
      "r = Inr \<lparr>is_open = lim < n, count = n, limit = lim, state_window_start = ws, window_seconds = window\<rparr>"
      and "t = [(breaker_update tb det window ws, Inr v)]" and "attempts_of v = Inr n"
      and "webhook_cache s' = webhook_cache s"
  | (no_call) e where "r = Inl e" and "t = []"
  | (bad_call) e ws a where "r = Inl e" and "t = [(breaker_update tb det window ws, a)]"
  using assms unfolding check_and_increment_def
  by (auto elim!: bindE epochE do_callE simp: ret_def throw_def lift_def split: option.splits)

lemma pk_breaker_key: "pk_of (breaker_key det ws) = ''CB#'' @ det"
  by (simp add: pk_of_def breaker_key_def dict_get_def)

lemma emits_check [emit_intros]:
  "emits (writes_under ''CB#'') (check_and_increment env tb det lim window at)"
  unfolding check_and_increment_def
  by (intro emit_intros) (simp_all add: breaker_update_def pk_breaker_key startswith_def)

subsection \<open>What the breaker promises\<close>

text \<open>
  A check that returns raised the counter of its window by one, in one update, whatever the
  answer was, and the breaker is open exactly when the stored count is past the limit.
\<close>

lemma breaker_counts:
  assumes "check_and_increment env tb det lim window at s = (Inr b, t, s')"
  shows "\<exists>v. t = [(breaker_update tb det window (state_window_start b), Inr v)] \<and>
           attempts_of v = Inr (count b) \<and> (is_open b \<longleftrightarrow> lim < count b) \<and>
           limit b = lim \<and> window_seconds b = window"
  using assms by (cases rule: check_and_incrementE) auto

text \<open>An AWS that answers every call alike, and a clock that stands still.\<close>

definition fixed_env :: "pyval res \<Rightarrow> datetime \<Rightarrow> unit env" where
  "fixed_env a d = \<lparr>perform = (\<lambda>c w. (a, w)), clock_now = (\<lambda>w. (d, w))\<rparr>"

definition idle :: "unit st" where
  "idle = \<lparr>ext = (), webhook_cache = None\<rparr>"

lemma fixed_perform [simp]: "perform (fixed_env a d) c w = (a, w)"
  by (simp add: fixed_env_def)

lemma fixed_clock [simp]: "clock_now (fixed_env a d) w = (d, w)"
  by (simp add: fixed_env_def)

lemma fixed_call [simp]: "do_call (fixed_env a d) c s = (a, [(c, a)], s)"
  by (simp add: do_call_def)

definition sixth :: "pyval" where
  "sixth = VDict [(''Attributes'', VDict [(''attempts'', VInt 6)])]"

lemma breaker_counts_witness:
  "\<exists>b t s'. check_and_increment (fixed_env (Inr sixth) undefined) ''pac'' ''sg-open'' 5 300 (Some 640) idle =
     (Inr b, t, s') \<and> is_open b \<and> (\<exists>v. t = [(breaker_update ''pac'' ''sg-open'' 300 (state_window_start b), Inr v)])"
proof -
  let ?b = "\<lparr>is_open = True, count = 6, limit = 5, state_window_start = 600, window_seconds = 300\<rparr>"
  have run: "check_and_increment (fixed_env (Inr sixth) undefined) ''pac'' ''sg-open'' 5 300 (Some 640) idle =
      (Inr ?b, [(breaker_update ''pac'' ''sg-open'' 300 600, Inr sixth)], idle)"
    by (simp add: check_and_increment_def bind_def ret_def lift_def window_start_def attempts_of_def
        sixth_def dict_get_def)
  note facts = breaker_counts [OF run]
  show ?thesis
  proof (intro exI conjI)
    show "is_open ?b" using facts by simp
    show "[(breaker_update ''pac'' ''sg-open'' 300 600, Inr sixth)] =
        [(breaker_update ''pac'' ''sg-open'' 300 (state_window_start ?b), Inr sixth)]" by simp
  qed (rule run)
qed

text \<open>
  C34: a moment lies in the window it is counted in, and two moments share a counter exactly when
  they fall into the same multiple of the window's length: the windows tumble, they do not roll, so
  the last second of one and the first of the next are counted apart.
\<close>

theorem breaker_windows:
  assumes "0 < w" and "window_start w a = Inr ws"
  shows "ws \<le> a \<and> a < ws + w \<and> ws mod w = 0 \<and> (window_start w b = Inr ws \<longleftrightarrow> a div w = b div w) \<and>
         window_start w (ws + w - 1) = Inr ws \<and> window_start w (ws + w) = Inr (ws + w)"
proof -
  note start = window_start_Inr [OF assms]
  define q where "q = a div w"
  have ws: "ws = w * q" using assms by (simp add: window_start_def q_def minus_mod_eq_mult_div)
  have "(w * q + (w - 1)) mod w = w - 1" using assms(1) by (simp only: mod_mult_self4) (rule mod_pos_pos_trivial, simp_all)
  then have "(ws + w - 1) mod w = w - 1" by (simp add: ws algebra_simps)
  then show ?thesis
    using start window_start_same_iff [OF assms(1), of a b] assms by (auto simp: window_start_def)
qed

theorem breaker_windows_witness:
  "window_start 300 899 = Inr (600::int) \<and> window_start 300 900 = Inr (900::int)"
  using breaker_windows [of 300 640 600 700] by (simp add: window_start_def)

end
