(* ===== verification/Runtime.thy ===== *)
theory Runtime
  imports Contracts Events Config AuditLog Breaker
begin

text \<open>
  \<open>remediations/common/runtime.py\<close>: the pipeline every detection runs through. \<open>execute\<close> is
  cut at its numbered comments: steps 1 and 2 are \<open>execute\<close>, step 3 and 4 \<open>run_plan\<close>,
  4b to 6 \<open>run_gates\<close>, 7 and 8 \<open>run_apply\<close>; \<open>conclude\<close> is the
  close-notify-return tail the branches share.
\<close>

definition skip :: "config \<Rightarrow> string \<Rightarrow> severity \<Rightarrow> outcome" where
  "skip cfg why sev = \<lparr>
     detection_id = cfg_detection_id cfg, status = SKIPPED, severity = sev,
     outcome_resource = ''none'', outcome_reason = why, actions = [], error = None\<rparr>"

definition conclude ::
  "'w env \<Rightarrow> config \<Rightarrow> 'w notifier \<Rightarrow> detection_event \<Rightarrow> plan \<Rightarrow> pydict \<Rightarrow> outcome \<Rightarrow> ('w, outcome) run"
where
  "conclude env cfg notify ev p k out =
     bind (audit_close env (table_name cfg) k out) (\<lambda>_.
     bind (notify ev out (Some p)) (\<lambda>_.
     ret out))"

definition run_apply ::
  "'w env \<Rightarrow> 'w detection \<Rightarrow> config \<Rightarrow> 'w notifier \<Rightarrow> detection_event \<Rightarrow> plan \<Rightarrow> pydict \<Rightarrow> ('w, outcome) run"
where
  "run_apply env det cfg notify ev p k =
     bind (try_except (bind (apply_of det p) (\<lambda>acts. ret (Inr acts))) (\<lambda>e. ret (Inl e))) (\<lambda>applied.
     case applied of
       Inl e \<Rightarrow> conclude env cfg notify ev p k \<lparr>
         detection_id = cfg_detection_id cfg, status = FAILED, severity = CRITICAL,
         outcome_resource = resource_id p, outcome_reason = reason p, actions = intended_actions p,
         error = Some (exn_name e @ '': '' @ exn_str e)\<rparr>
     | Inr acts \<Rightarrow> conclude env cfg notify ev p k \<lparr>
         detection_id = cfg_detection_id cfg, status = APPLIED, severity = plan_severity p,
         outcome_resource = resource_id p, outcome_reason = reason p, actions = acts,
         error = None\<rparr>)"

definition run_gates ::
  "'w env \<Rightarrow> 'w detection \<Rightarrow> config \<Rightarrow> 'w notifier \<Rightarrow> detection_event \<Rightarrow> plan \<Rightarrow> pydict \<Rightarrow> ('w, outcome) run"
where
  "run_gates env det cfg notify ev p k =
     (if intended_actions p = [] then
        conclude env cfg notify ev p k \<lparr>
          detection_id = cfg_detection_id cfg, status = ESCALATED, severity = plan_severity p,
          outcome_resource = resource_id p, outcome_reason = reason p, actions = [], error = None\<rparr>
      else
        bind (check_and_increment env (table_name cfg) (cfg_detection_id cfg)
                (circuit_breaker_max_actions cfg) (circuit_breaker_window_seconds cfg) None) (\<lambda>state.
        if is_open state then
          conclude env cfg notify ev p k \<lparr>
            detection_id = cfg_detection_id cfg, status = BLOCKED, severity = CRITICAL,
            outcome_resource = resource_id p, outcome_reason = breaker_reason state, actions = [],
            error = None\<rparr>
        else if dry_run cfg then
          conclude env cfg notify ev p k \<lparr>
            detection_id = cfg_detection_id cfg, status = DRY_RUN, severity = plan_severity p,
            outcome_resource = resource_id p, outcome_reason = reason p,
            actions = intended_actions p, error = None\<rparr>
        else run_apply env det cfg notify ev p k))"

definition run_plan ::
  "'w env \<Rightarrow> 'w detection \<Rightarrow> config \<Rightarrow> 'w notifier \<Rightarrow> detection_event \<Rightarrow> plan \<Rightarrow> ('w, outcome) run"
where
  "run_plan env det cfg notify ev p =
     (case map_of (tags p) (exclusion_tag cfg) of
        Some v \<Rightarrow>
          (let out = \<lparr>
             detection_id = cfg_detection_id cfg, status = SKIPPED, severity = MEDIUM,
             outcome_resource = resource_id p,
             outcome_reason = ''excluded by tag '' @ exclusion_tag cfg @ ''='' @ repr_str v @ ''; '' @ reason p,
             actions = [], error = None\<rparr>
           in bind (record_unplanned env (table_name cfg) (cfg_detection_id cfg) ev out) (\<lambda>_.
              bind (notify ev out (Some p)) (\<lambda>_.
              ret out)))
      | None \<Rightarrow>
          bind (audit_open env (table_name cfg) (cfg_detection_id cfg) ev p (dry_run cfg)) (\<lambda>k.
          run_gates env det cfg notify ev p k))"

definition execute ::
  "'w env \<Rightarrow> 'w detection \<Rightarrow> pydict \<Rightarrow> config \<Rightarrow> 'w notifier \<Rightarrow> ('w, outcome) run"
where
  "execute env det raw cfg notify =
     bind (lift (parse raw)) (\<lambda>ev.
     if is_pac_automation (principal ev) then
       (let out = skip cfg ''triggered by this system's own remediation role'' LOW in
        bind (record_unplanned env (table_name cfg) (cfg_detection_id cfg) ev out) (\<lambda>_. ret out))
     else
       bind (plan_of det ev) (\<lambda>planned.
       case planned of
         None \<Rightarrow>
           (let out = skip cfg ''resource state is not dangerous'' INFO in
            bind (record_unplanned env (table_name cfg) (cfg_detection_id cfg) ev out) (\<lambda>_. ret out))
       | Some p \<Rightarrow> run_plan env det cfg notify ev p))"

subsection \<open>How a run unfolds\<close>

lemma concludeE [consumes 1, case_names not_closed notified]:
  assumes "conclude env cfg notify ev p k out s = (r, t, s')"
  obtains (not_closed) now e where "r = Inl e" and "t = [(close_call (table_name cfg) k out now, Inl e)]"
  | (notified) now v s1 r2 t2 where "notify ev out (Some p) s1 = (r2, t2, s')"
      and "t = (close_call (table_name cfg) k out now, Inr v) # t2"
      and "r = (case r2 of Inl e \<Rightarrow> Inl e | Inr _ \<Rightarrow> Inr out)"
  using assms unfolding conclude_def by (auto elim!: bindE audit_closeE simp: ret_def)

definition failed_outcome :: "config \<Rightarrow> plan \<Rightarrow> exn \<Rightarrow> outcome" where
  "failed_outcome cfg p e = \<lparr>
     detection_id = cfg_detection_id cfg, status = FAILED, severity = CRITICAL,
     outcome_resource = resource_id p, outcome_reason = reason p, actions = intended_actions p,
     error = Some (exn_name e @ '': '' @ exn_str e)\<rparr>"

definition planned_outcome :: "config \<Rightarrow> plan \<Rightarrow> status \<Rightarrow> string list \<Rightarrow> outcome" where
  "planned_outcome cfg p st acts = \<lparr>
     detection_id = cfg_detection_id cfg, status = st, severity = plan_severity p,
     outcome_resource = resource_id p, outcome_reason = reason p, actions = acts, error = None\<rparr>"

definition blocked_outcome :: "config \<Rightarrow> plan \<Rightarrow> breaker_state \<Rightarrow> outcome" where
  "blocked_outcome cfg p b = \<lparr>
     detection_id = cfg_detection_id cfg, status = BLOCKED, severity = CRITICAL,
     outcome_resource = resource_id p, outcome_reason = breaker_reason b, actions = [], error = None\<rparr>"

definition excluded_outcome :: "config \<Rightarrow> plan \<Rightarrow> string \<Rightarrow> outcome" where
  "excluded_outcome cfg p v = \<lparr>
     detection_id = cfg_detection_id cfg, status = SKIPPED, severity = MEDIUM,
     outcome_resource = resource_id p,
     outcome_reason = ''excluded by tag '' @ exclusion_tag cfg @ ''='' @ repr_str v @ ''; '' @ reason p,
     actions = [], error = None\<rparr>"

lemmas outcome_defs = failed_outcome_def planned_outcome_def blocked_outcome_def excluded_outcome_def skip_def

lemma run_applyE [consumes 1, case_names failed applied]:
  assumes "run_apply env det cfg notify ev p k s = (r, t, s')"
  obtains (failed) e t1 s1 t2 where "apply_of det p s = (Inl e, t1, s1)" and "t = t1 @ t2"
      and "conclude env cfg notify ev p k (failed_outcome cfg p e) s1 = (r, t2, s')"
  | (applied) acts t1 s1 t2 where "apply_of det p s = (Inr acts, t1, s1)" and "t = t1 @ t2"
      and "conclude env cfg notify ev p k (planned_outcome cfg p APPLIED acts) s1 = (r, t2, s')"
  using assms unfolding run_apply_def failed_outcome_def planned_outcome_def
  by (auto elim!: bindE try_exceptE simp: ret_def)

text \<open>The breaker's answer for this detection: the counter it raised and the count it got.\<close>

definition breaker_event :: "config \<Rightarrow> int \<Rightarrow> int \<Rightarrow> event \<Rightarrow> bool" where
  "breaker_event cfg ws n e \<longleftrightarrow>
     (\<exists>v. e = (breaker_update (table_name cfg) (cfg_detection_id cfg)
                (circuit_breaker_window_seconds cfg) ws, Inr v) \<and> attempts_of v = Inr n)"

definition breaker_of :: "config \<Rightarrow> int \<Rightarrow> int \<Rightarrow> breaker_state" where
  "breaker_of cfg ws n = \<lparr>
     is_open = circuit_breaker_max_actions cfg < n, count = n,
     limit = circuit_breaker_max_actions cfg, state_window_start = ws,
     window_seconds = circuit_breaker_window_seconds cfg\<rparr>"

lemma run_gatesE [consumes 1, case_names escalated no_breaker bad_breaker blocked dry applying]:
  assumes "run_gates env det cfg notify ev p k s = (r, t, s')"
  obtains (escalated) "intended_actions p = []"
      and "conclude env cfg notify ev p k (planned_outcome cfg p ESCALATED []) s = (r, t, s')"
  | (no_breaker) e where "intended_actions p \<noteq> []" and "r = Inl e" and "t = []"
  | (bad_breaker) e ws a where "intended_actions p \<noteq> []" and "r = Inl e"
      and "t = [(breaker_update (table_name cfg) (cfg_detection_id cfg)
                  (circuit_breaker_window_seconds cfg) ws, a)]"
  | (blocked) ws n eb s1 t2 where "intended_actions p \<noteq> []" and "breaker_event cfg ws n eb"
      and "circuit_breaker_max_actions cfg < n" and "t = eb # t2"
      and "conclude env cfg notify ev p k (blocked_outcome cfg p (breaker_of cfg ws n)) s1 = (r, t2, s')"
  | (dry) ws n eb s1 t2 where "intended_actions p \<noteq> []" and "breaker_event cfg ws n eb"
      and "n \<le> circuit_breaker_max_actions cfg" and "dry_run cfg" and "t = eb # t2"
      and "conclude env cfg notify ev p k (planned_outcome cfg p DRY_RUN (intended_actions p)) s1 = (r, t2, s')"
  | (applying) ws n eb s1 t2 where "intended_actions p \<noteq> []" and "breaker_event cfg ws n eb"
      and "n \<le> circuit_breaker_max_actions cfg" and "\<not> dry_run cfg" and "t = eb # t2"
      and "run_apply env det cfg notify ev p k s1 = (r, t2, s')"
  using assms
  unfolding run_gates_def planned_outcome_def blocked_outcome_def breaker_event_def breaker_of_def
  by (auto elim!: bindE check_and_incrementE simp: ret_def split: if_splits)

definition opened :: "config \<Rightarrow> detection_event \<Rightarrow> plan \<Rightarrow> event \<Rightarrow> bool" where
  "opened cfg ev p e \<longleftrightarrow>
     (\<exists>now v. e = (PutItem (table_name cfg) (open_item now (cfg_detection_id cfg) ev p (dry_run cfg)) None [],
                   Inr v))"

abbreviation plan_key_of :: "config \<Rightarrow> detection_event \<Rightarrow> plan \<Rightarrow> pydict" where
  "plan_key_of cfg ev p \<equiv> plan_key (cfg_detection_id cfg) ev p"

lemma run_planE [consumes 1, case_names unrecorded excluded not_opened gated]:
  assumes "run_plan env det cfg notify ev p s = (r, t, s')"
  obtains (unrecorded) v now e where "map_of (tags p) (exclusion_tag cfg) = Some v" and "r = Inl e"
      and "t = [(PutItem (table_name cfg)
                  (unplanned_item now (cfg_detection_id cfg) ev (excluded_outcome cfg p v)) None [], Inl e)]"
  | (excluded) v now a s1 r2 t2 where "map_of (tags p) (exclusion_tag cfg) = Some v"
      and "notify ev (excluded_outcome cfg p v) (Some p) s1 = (r2, t2, s')"
      and "t = (PutItem (table_name cfg)
                  (unplanned_item now (cfg_detection_id cfg) ev (excluded_outcome cfg p v)) None [], Inr a) # t2"
      and "r = (case r2 of Inl e \<Rightarrow> Inl e | Inr _ \<Rightarrow> Inr (excluded_outcome cfg p v))"
  | (not_opened) now e where "map_of (tags p) (exclusion_tag cfg) = None" and "r = Inl e"
      and "t = [(PutItem (table_name cfg) (open_item now (cfg_detection_id cfg) ev p (dry_run cfg)) None [],
                 Inl e)]"
  | (gated) now v s1 t2 where "map_of (tags p) (exclusion_tag cfg) = None"
      and "t = (PutItem (table_name cfg) (open_item now (cfg_detection_id cfg) ev p (dry_run cfg)) None [],
                Inr v) # t2"
      and "run_gates env det cfg notify ev p (plan_key_of cfg ev p) s1 = (r, t2, s')"
  using assms unfolding run_plan_def excluded_outcome_def
  by (auto elim!: bindE record_unplannedE audit_openE simp: ret_def Let_def split: option.splits)

lemma executeE [consumes 1, case_names rejected own plan_raised benign planned]:
  assumes "execute env det raw cfg notify s = (r, t, s')"
  obtains (rejected) e where "parse raw = Inl e" and "r = Inl e" and "t = []"
  | (own) ev r1 out where "parse raw = Inr ev" and "is_pac_automation (principal ev)"
      and "out = skip cfg ''triggered by this system's own remediation role'' LOW"
      and "record_unplanned env (table_name cfg) (cfg_detection_id cfg) ev out s = (r1, t, s')"
      and "r = (case r1 of Inl e \<Rightarrow> Inl e | Inr _ \<Rightarrow> Inr out)"
  | (plan_raised) ev e where "parse raw = Inr ev" and "\<not> is_pac_automation (principal ev)"
      and "plan_of det ev s = (Inl e, t, s')" and "r = Inl e"
  | (benign) ev t1 s1 r1 t2 out where "parse raw = Inr ev" and "\<not> is_pac_automation (principal ev)"
      and "plan_of det ev s = (Inr None, t1, s1)" and "t = t1 @ t2"
      and "out = skip cfg ''resource state is not dangerous'' INFO"
      and "record_unplanned env (table_name cfg) (cfg_detection_id cfg) ev out s1 = (r1, t2, s')"
      and "r = (case r1 of Inl e \<Rightarrow> Inl e | Inr _ \<Rightarrow> Inr out)"
  | (planned) ev p t1 s1 t2 where "parse raw = Inr ev" and "\<not> is_pac_automation (principal ev)"
      and "plan_of det ev s = (Inr (Some p), t1, s1)" and "t = t1 @ t2"
      and "run_plan env det cfg notify ev p s1 = (r, t2, s')"
proof (cases "parse raw")
  case (Inl e)
  with assms show ?thesis by (intro rejected) (auto simp: execute_def throw_def)
next
  case (Inr ev)
  show ?thesis
  proof (cases "is_pac_automation (principal ev)")
    case True
    with assms Inr show ?thesis
      by (auto simp: execute_def Let_def ret_def elim!: bindE intro: own)
  next
    case False
    with assms Inr have "bind (plan_of det ev) (\<lambda>planned.
       case planned of
         None \<Rightarrow>
           (let out = skip cfg ''resource state is not dangerous'' INFO in
            bind (record_unplanned env (table_name cfg) (cfg_detection_id cfg) ev out) (\<lambda>_. ret out))
       | Some p \<Rightarrow> run_plan env det cfg notify ev p) s = (r, t, s')"
      by (simp add: execute_def)
    then show ?thesis
    proof (cases rule: bindE)
      case (raised e)
      with Inr False show ?thesis by (intro plan_raised)
    next
      case (returned planned t1 s1 t2)
      show ?thesis
      proof (cases planned)
        case None
        with returned obtain r1 where
            "record_unplanned env (table_name cfg) (cfg_detection_id cfg) ev
               (skip cfg ''resource state is not dangerous'' INFO) s1 = (r1, t2, s')"
          and "r = (case r1 of Inl e \<Rightarrow> Inl e
                    | Inr _ \<Rightarrow> Inr (skip cfg ''resource state is not dangerous'' INFO))"
          by (auto simp: Let_def ret_def elim!: bindE)
        with None returned Inr False show ?thesis by (intro benign) simp_all
      next
        case (Some p)
        with returned Inr False show ?thesis by (intro planned) simp_all
      qed
    qed
  qed
qed

subsection \<open>The pipeline, for any detection and any notifier that keep their contracts\<close>

definition tail_call :: "call \<Rightarrow> bool" where
  "tail_call c \<longleftrightarrow> writes_under ''AUDIT#'' c \<or> is_alert c"

lemma tail_call_quiet: "tail_call c \<Longrightarrow> \<not> is_remediation c"
  by (auto simp: tail_call_def dest: quiet_calls)

lemma pk_plan_key_audit: "startswith (pk_of (plan_key_of cfg ev p)) ''AUDIT#''"
  by (simp add: pk_plan_key startswith_def)

lemma emits_record_tail [emit_intros]: "emits tail_call (record_unplanned env tb did ev out)"
  by (rule emits_mono [OF emits_record_unplanned]) (simp add: tail_call_def)

locale pipeline = detection_contract det + notifier_contract notify
  for det :: "'w detection" and notify :: "'w notifier"
begin

lemma emits_notify [emit_intros]: "emits tail_call (notify ev out p)"
  by (rule emits_mono [OF notify_alerts]) (simp add: tail_call_def)

lemma emits_conclude [emit_intros]: "emits tail_call (conclude env cfg notify ev p (plan_key_of cfg ev p) out)"
proof -
  have "emits tail_call (audit_close env (table_name cfg) (plan_key_of cfg ev p) out)"
    by (rule emits_mono [OF emits_audit_close [OF pk_plan_key_audit]]) (simp add: tail_call_def)
  then show ?thesis unfolding conclude_def by (intro emit_intros)
qed

text \<open>
  A run in which a resource was changed: it read, stored the snapshot, was counted and admitted by
  the breaker, applied, and then only closed the record and alerted.
\<close>

lemma gates_quiet:
  assumes "run_gates env det cfg notify ev p (plan_key_of cfg ev p) s = (r, t, s')"
    and "e \<in> set t" and "is_remediation (fst e)"
  obtains ws n eb s1 r2 t2 s3 t3 where "intended_actions p \<noteq> []" and "\<not> dry_run cfg"
    and "breaker_event cfg ws n eb" and "n \<le> circuit_breaker_max_actions cfg"
    and "apply_of det p s1 = (r2, t2, s3)" and "t = eb # t2 @ t3" and "list_all (\<lambda>e. tail_call (fst e)) t3"
  using assms(1)
proof (cases rule: run_gatesE)
  case escalated
  with emitsD [OF emits_conclude escalated(2)] assms(2,3) show ?thesis
    by (auto simp: list_all_iff dest: tail_call_quiet)
next
  case (bad_breaker e' ws a)
  with assms(2,3) show ?thesis by (simp add: breaker_update_def)
next
  case (blocked ws n eb s1 t2)
  with emitsD [OF emits_conclude blocked(5)] assms(2,3) show ?thesis
    by (auto simp: list_all_iff breaker_event_def breaker_update_def dest: tail_call_quiet)
next
  case (dry ws n eb s1 t2)
  with emitsD [OF emits_conclude dry(6)] assms(2,3) show ?thesis
    by (auto simp: list_all_iff breaker_event_def breaker_update_def dest: tail_call_quiet)
next
  case (applying ws n eb s1 t2)
  from applying(6) show ?thesis
  proof (cases rule: run_applyE)
    case (failed e' ta sa tc)
    with applying emitsD [OF emits_conclude failed(3)] show ?thesis
      by (intro that [of ws n eb s1 "Inl e'" ta sa tc]) simp_all
  next
    case (applied acts ta sa tc)
    with applying emitsD [OF emits_conclude applied(3)] show ?thesis
      by (intro that [of ws n eb s1 "Inr acts" ta sa tc]) simp_all
  qed
qed (use assms in simp)

lemma acting_run:
  assumes run: "execute env det raw cfg notify s = (r, t, s')"
    and "e \<in> set t" and "is_remediation (fst e)"
  obtains ev p t1 s1 eo ws n eb s2 r2 t2 s3 t3 where
    "parse raw = Inr ev" and "\<not> is_pac_automation (principal ev)"
    and "plan_of det ev s = (Inr (Some p), t1, s1)"
    and "map_of (tags p) (exclusion_tag cfg) = None" and "intended_actions p \<noteq> []" and "\<not> dry_run cfg"
    and "opened cfg ev p eo" and "breaker_event cfg ws n eb" and "n \<le> circuit_breaker_max_actions cfg"
    and "apply_of det p s2 = (r2, t2, s3)" and "t = t1 @ [eo, eb] @ t2 @ t3"
    and "list_all (\<lambda>e. is_read (fst e)) t1" and "list_all (\<lambda>e. tail_call (fst e)) t3"
  using run
proof (cases rule: executeE)
  case (own ev r1 out)
  with emitsD [OF emits_record_tail own(4)] assms(2,3) show ?thesis
    by (auto simp: list_all_iff dest: tail_call_quiet)
next
  case (plan_raised ev x)
  with emitsD [OF plan_reads plan_raised(3)] assms(2,3) show ?thesis
    by (auto simp: list_all_iff dest: quiet_calls)
next
  case (benign ev t1 s1 r1 t2 out)
  with emitsD [OF emits_record_tail benign(6)] emitsD [OF plan_reads benign(3)] assms(2,3)
  show ?thesis by (auto simp: list_all_iff dest: quiet_calls tail_call_quiet)
next
  case (planned ev p t1 s1 tb)
  have t1: "list_all (\<lambda>e. is_read (fst e)) t1" by (rule emitsD [OF plan_reads planned(3)])
  have e: "e \<in> set tb" using t1 planned(4) assms(2,3) by (auto simp: list_all_iff dest: quiet_calls)
  from planned(5) show ?thesis
  proof (cases rule: run_planE)
    case (excluded v now a s2 r2 t2)
    with emitsD [OF emits_notify excluded(2)] e assms(3) show ?thesis
      by (auto simp: list_all_iff dest: tail_call_quiet)
  next
    case (gated now v s2 t2)
    with e assms(3) have "e \<in> set t2" by auto
    from gates_quiet [OF gated(3) this assms(3)] obtain ws n eb s3 r2 t3 s4 t4 where
      "intended_actions p \<noteq> []" "\<not> dry_run cfg" "breaker_event cfg ws n eb"
      "n \<le> circuit_breaker_max_actions cfg" "apply_of det p s3 = (r2, t3, s4)" "t2 = eb # t3 @ t4"
      "list_all (\<lambda>e. tail_call (fst e)) t4" .
    with planned gated t1 show ?thesis
      by (intro that [of ev p t1 s1 "(PutItem (table_name cfg)
            (open_item now (cfg_detection_id cfg) ev p (dry_run cfg)) None [], Inr v)" ws n eb s3 r2 t3 s4 t4])
         (auto simp: opened_def)
  qed (use e assms(3) in auto)
qed (use assms in simp)

end

end
