(* ===== verification/SgOpen.thy ===== *)
theory SgOpen
  imports Contracts Events
begin

text \<open>
  \<open>remediations/sg_open/handler.py\<close>: which world-open ingress rules of a security group are
  dangerous, and the revocation of exactly those CIDRs. First the handler as it is written, on
  the values the EC2 client returns; then a typed view of the rules and what the handler does to them.
\<close>

subsection \<open>The handler\<close>

definition world_ipv4 :: string where
  "world_ipv4 = ''0.0.0.0/0''"

definition world_ipv6 :: string where
  "world_ipv6 = ''::/0''"

definition sensitive_ports :: "int list" where
  "sensitive_ports =
     [20, 21, 22, 23, 25, 135, 137, 138, 139, 389, 445, 512, 513, 514, 1433, 1521, 2375, 2376, 2379,
      3000, 3306, 3389, 4333, 5432, 5439, 5500, 5601, 5900, 5984, 6379, 7000, 7001, 8020, 8086, 8500,
      9042, 9200, 9300, 11211, 27017, 27018, 50070]"

text \<open>The ports the internet is supposed to reach; the code only names them.\<close>

definition commonly_public_ports :: "int list" where
  "commonly_public_ports = [80, 443]"

definition covered_sensitive_ports :: "pyval \<Rightarrow> int list res" where
  "covered_sensitive_ports perm =
     res_bind (py_get perm ''IpProtocol'' (VStr ''-1'')) (\<lambda>pr.
     let protocol = py_str pr in
     if protocol = ''-1'' then Inr sensitive_ports
     else if protocol \<notin> {''tcp'', ''udp''} then Inr []
     else
       res_bind (py_get perm ''FromPort'' VNone) (\<lambda>from_port.
       res_bind (py_get perm ''ToPort'' VNone) (\<lambda>to_port.
       if from_port = VNone \<or> to_port = VNone then Inr sensitive_ports
       else
         res_bind (py_int from_port) (\<lambda>low.
         res_bind (py_int to_port) (\<lambda>high.
         let (low, high) = (if high < low then (high, low) else (low, high))
         in Inr (filter (\<lambda>port. low \<le> port \<and> port \<le> high) sensitive_ports))))))"

definition world_entry :: "string \<Rightarrow> string \<Rightarrow> pyval \<Rightarrow> bool" where
  "world_entry k cidr entry \<longleftrightarrow> is_mapping entry \<and> dict_get (as_dict entry) k VNone = VStr cidr"

text \<open>\<open>permission.get(k, []) or []\<close>, iterated\<close>

definition ranges :: "pyval \<Rightarrow> string \<Rightarrow> pyval list res" where
  "ranges perm k = res_bind (py_get perm k (VList [])) (\<lambda>v. py_iter (py_or v (VList [])))"

definition present :: "pydict \<Rightarrow> string \<Rightarrow> pydict" where
  "present d k = (case map_of d k of None \<Rightarrow> [] | Some v \<Rightarrow> [(k, v)])"

definition world_open_dangerous_part :: "pyval \<Rightarrow> pydict option res" where
  "world_open_dangerous_part perm =
     res_bind (ranges perm ''IpRanges'') (\<lambda>entries4.
     let ipv4 = filter (world_entry ''CidrIp'' world_ipv4) entries4 in
     res_bind (ranges perm ''Ipv6Ranges'') (\<lambda>entries6.
     let ipv6 = filter (world_entry ''CidrIpv6'' world_ipv6) entries6 in
     if ipv4 = [] \<and> ipv6 = [] then Inr None
     else
       res_bind (covered_sensitive_ports perm) (\<lambda>ports.
       if ports = [] then Inr None
       else
         Inr (Some (
           [(''IpProtocol'', dict_get (as_dict perm) ''IpProtocol'' (VStr ''-1''))] @
           present (as_dict perm) ''FromPort'' @
           present (as_dict perm) ''ToPort'' @
           (if ipv4 \<noteq> [] then [(''IpRanges'', VList ipv4)] else []) @
           (if ipv6 \<noteq> [] then [(''Ipv6Ranges'', VList ipv6)] else []))))))"

definition sources_of :: "pyval \<Rightarrow> string \<Rightarrow> string \<Rightarrow> pyval list res" where
  "sources_of rule k c =
     res_bind (py_get rule k (VList [])) (\<lambda>v.
     res_bind (py_iter v) (\<lambda>entries.
     res_bind (res_mapM (py_member_item c) entries) (\<lambda>xs.
     Inr (List.map_filter (\<lambda>x. x) xs))))"

definition render :: "pyval \<Rightarrow> string res" where
  "render rule =
     res_bind (py_get rule ''IpProtocol'' (VStr ''-1'')) (\<lambda>protocol.
     res_bind (if protocol = VStr ''-1'' then Inr ''all''
               else res_bind (py_get rule ''FromPort'' (VStr ''?'')) (\<lambda>f.
                    res_bind (py_get rule ''ToPort'' (VStr ''?'')) (\<lambda>t.
                    Inr (py_str f @ ''-'' @ py_str t)))) (\<lambda>ports.
     res_bind (sources_of rule ''IpRanges'' ''CidrIp'') (\<lambda>s4.
     res_bind (sources_of rule ''Ipv6Ranges'' ''CidrIpv6'') (\<lambda>s6.
     res_bind (str_items 0 (s4 @ s6)) (\<lambda>ss.
     Inr (py_str protocol @ ''/'' @ ports @ '' from '' @ join '','' ss))))))"

definition describe_ports :: "int list \<Rightarrow> string" where
  "describe_ports ports =
     (if ports = [] then ''all ports''
      else if 8 < length ports then
        show_nat (length ports) @ '' sensitive ports including '' @ join '', '' (map show_int (take 8 ports))
      else join '', '' (map show_int ports))"

definition attached_interface_count :: "'w env \<Rightarrow> string \<Rightarrow> ('w, int) run" where
  "attached_interface_count env group_id =
     bind (try_except
       (bind (do_call env (DescribeNetworkInterfaces ''group-id'' [group_id])) (\<lambda>v. ret (Some v)))
       (\<lambda>_. ret None)) (\<lambda>response.
     case response of
       None \<Rightarrow> ret (- 1)
     | Some v \<Rightarrow>
         bind (lift (py_get v ''NetworkInterfaces'' (VList []))) (\<lambda>interfaces.
         ret (case interfaces of VList xs \<Rightarrow> int (length xs) | _ \<Rightarrow> - 1)))"

definition revocations_of :: "pyval list \<Rightarrow> pydict list res" where
  "revocations_of perms =
     res_bind (res_mapM world_open_dangerous_part perms) (\<lambda>parts.
     Inr (List.map_filter (\<lambda>x. x) parts))"

definition exposed_ports :: "pydict list \<Rightarrow> int list res" where
  "exposed_ports revs =
     res_bind (res_mapM (\<lambda>rule. covered_sensitive_ports (VDict rule)) revs) (\<lambda>pss.
     Inr (sort (remdups (concat pss))))"

text \<open>\<open>plan\<close> from the point where there is something to revoke.\<close>

definition sg_build_plan ::
  "'w env \<Rightarrow> detection_event \<Rightarrow> string \<Rightarrow> pyval \<Rightarrow> pyval list \<Rightarrow> pydict list \<Rightarrow> ('w, plan option) run"
where
  "sg_build_plan env ev group_id grp perms revs =
     bind (lift (res_bind (py_get grp ''Tags'' (VList [])) (\<lambda>v. py_iter (py_or v (VList []))))) (\<lambda>ts.
     let tags = tag_dict ts;
         covers_everything = list_ex (\<lambda>rule. dict_get rule ''IpProtocol'' VNone = VStr ''-1'') revs in
     bind (lift (exposed_ports revs)) (\<lambda>exposed.
     let why = ''security group '' @ group_id @ '' allows ingress from the internet on '' @
               (if covers_everything then ''all ports and protocols'' else describe_ports exposed) in
     bind (lift (py_get grp ''GroupName'' VNone)) (\<lambda>group_name.
     bind (lift (py_get grp ''VpcId'' VNone)) (\<lambda>vpc_id.
     bind (lift (py_get grp ''Description'' VNone)) (\<lambda>description.
     bind (attached_interface_count env group_id) (\<lambda>attached.
     bind (lift (py_get grp ''VpcId'' (VStr ''unknown''))) (\<lambda>vpc.
     bind (lift (res_mapM (\<lambda>rule. render (VDict rule)) revs)) (\<lambda>rendered.
     ret (Some \<lparr>
       resource_id = group_id,
       resource_arn = ''arn:aws:ec2:'' @ region ev @ '':'' @ account_id ev @ '':security-group/'' @ group_id,
       reason = why,
       plan_severity = HIGH,
       snapshot =
         [(''group_id'', VStr group_id),
          (''group_name'', group_name),
          (''vpc_id'', vpc_id),
          (''description'', description),
          (''ip_permissions_before'', VList perms),
          (''ip_permissions_revoked'', VList (map VDict revs)),
          (''tags'', str_dict tags)],
       tags = tags,
       blast_radius =
         [(''attached_interfaces'', VInt attached),
          (''vpc_id'', vpc),
          (''sensitive_ports'',
             VStr (if covers_everything then ''all'' else join '','' (map show_int exposed)))],
       intended_actions =
         map (\<lambda>r. ''revoke ingress '' @ r @ '' from '' @ group_id) rendered\<rparr>)))))))))"

definition sg_plan :: "'w env \<Rightarrow> detection_event \<Rightarrow> ('w, plan option) run" where
  "sg_plan env ev =
     (let group_id = text_field (request_parameters ev) ''groupId'' in
      if group_id = [] then ret None
      else
        bind (do_call env (DescribeSecurityGroups [group_id])) (\<lambda>described.
        bind (lift (py_get described ''SecurityGroups'' (VList []))) (\<lambda>groups.
        if \<not> truthy groups then ret None
        else
          bind (lift (py_first groups)) (\<lambda>grp.
          bind (lift (ranges grp ''IpPermissions'')) (\<lambda>perms.
          bind (lift (revocations_of perms)) (\<lambda>revs.
          if revs = [] then ret None
          else sg_build_plan env ev group_id grp perms revs))))))"

definition sg_apply :: "'w env \<Rightarrow> plan \<Rightarrow> ('w, string list) run" where
  "sg_apply env p =
     (let revocations = dict_get (snapshot p) ''ip_permissions_revoked'' (VList []) in
      if \<not> truthy revocations then ret []
      else
        bind (lift (py_iter revocations)) (\<lambda>rules.
        bind (do_call env (RevokeSecurityGroupIngress (resource_id p) rules)) (\<lambda>_.
        bind (lift (res_mapM render rules)) (\<lambda>rendered.
        ret (map (\<lambda>r. ''revoked ingress '' @ r @ '' from '' @ resource_id p) rendered)))))"

definition sg_open :: "'w env \<Rightarrow> 'w detection" where
  "sg_open env = \<lparr>
     det_id = ''sg-open'', default_severity = HIGH, plan_of = sg_plan env, apply_of = sg_apply env\<rparr>"

lemma emits_attached [emit_intros]: "emits is_read (attached_interface_count env g)"
  unfolding attached_interface_count_def by (intro emit_intros) simp_all

lemma emits_sg_build [emit_intros]: "emits is_read (sg_build_plan env ev g grp perms revs)"
  unfolding sg_build_plan_def Let_def by (intro emit_intros)

interpretation sg: detection_contract "sg_open env" for env
proof unfold_locales
  show "emits is_read (plan_of (sg_open env) ev)" for ev
    unfolding sg_open_def sg_plan_def Let_def by (simp, intro emit_intros conjI impI) simp_all
  show "emits is_remediation (apply_of (sg_open env) p)" for p
    unfolding sg_open_def sg_apply_def Let_def by (simp, intro emit_intros conjI impI) simp_all
qed

end
