(* ===== verification/PyJson.thy ===== *)
theory PyJson
  imports PyVal
begin

text \<open>
  \<open>json.loads\<close>, the reader the handlers and the notifier use on a bucket policy and on the
  webhook secret. The text is UTF-8. A decoding error is \<open>JSONDecodeError\<close> (its position is
  left out, no caller reads it); an integer past the interpreter's digit limit is a
  \<open>ValueError\<close>. A float literal is taken with all its digits, which is the value of
  the double up to fifteen significant digits; \<open>NaN\<close> and the infinities are opaque objects.
\<close>

definition json_error :: exn where
  "json_error = External ''JSONDecodeError'' '''' None"

definition is_ws :: "char \<Rightarrow> bool" where
  "is_ws c \<longleftrightarrow> c = CHR '' '' \<or> c = CHR 0x09 \<or> c = CHR 0x0A \<or> c = CHR 0x0D"

definition skip_ws :: "string \<Rightarrow> string" where
  "skip_ws s = dropWhile is_ws s"

lemma length_skip_ws: "length (skip_ws s) \<le> length s"
  by (simp add: skip_ws_def length_dropWhile_le)

definition utf8 :: "nat \<Rightarrow> string" where
  "utf8 n =
     (if n < 128 then [char_of n]
      else if n < 2048 then [char_of (192 + n div 64), char_of (128 + n mod 64)]
      else if n < 65536 then
        [char_of (224 + n div 4096), char_of (128 + n div 64 mod 64), char_of (128 + n mod 64)]
      else
        [char_of (240 + n div 262144), char_of (128 + n div 4096 mod 64),
         char_of (128 + n div 64 mod 64), char_of (128 + n mod 64)])"

fun hex_val :: "char \<Rightarrow> nat option" where
  "hex_val c =
     (let n = of_char c :: nat in
      if 48 \<le> n \<and> n \<le> 57 then Some (n - 48)
      else if 97 \<le> n \<and> n \<le> 102 then Some (n - 87)
      else if 65 \<le> n \<and> n \<le> 70 then Some (n - 55)
      else None)"

definition hex4_val :: "char \<Rightarrow> char \<Rightarrow> char \<Rightarrow> char \<Rightarrow> nat option" where
  "hex4_val a b c d =
     (case (hex_val a, hex_val b, hex_val c, hex_val d) of
        (Some w, Some x, Some y, Some z) \<Rightarrow> Some (w * 4096 + x * 256 + y * 16 + z)
      | _ \<Rightarrow> None)"

text \<open>The letter after a backslash, but for \<open>u\<close>.\<close>

definition unescape :: "char \<Rightarrow> char option" where
  "unescape c =
     map_of [(CHR 0x22, CHR 0x22), (CHR 0x5C, CHR 0x5C), (CHR ''/'', CHR ''/''), (CHR ''b'', CHR 0x08),
             (CHR ''f'', CHR 0x0C), (CHR ''n'', CHR 0x0A), (CHR ''r'', CHR 0x0D), (CHR ''t'', CHR 0x09)] c"

text \<open>
  The code unit of \<open>\\uXXXX\<close> at the front (after the \<open>\\u\<close>) and, when it is the first half of a
  surrogate pair, the second half: the code point and the rest.
\<close>

definition unicode_escape :: "string \<Rightarrow> (nat \<times> string) option" where
  "unicode_escape s =
     (case s of
        a # b # c # d # t \<Rightarrow>
          (case hex4_val a b c d of
             None \<Rightarrow> None
           | Some hi \<Rightarrow>
               (if 55296 \<le> hi \<and> hi \<le> 56319 then
                  (case t of
                     bs # u # e # f # g # h # t' \<Rightarrow>
                       (if bs = CHR 0x5C \<and> u = CHR ''u'' then
                          (case hex4_val e f g h of
                             Some lo \<Rightarrow>
                               (if 56320 \<le> lo \<and> lo \<le> 57343
                                then Some (65536 + (hi - 55296) * 1024 + (lo - 56320), t')
                                else Some (hi, t))
                           | None \<Rightarrow> Some (hi, t))
                        else Some (hi, t))
                   | _ \<Rightarrow> Some (hi, t))
                else Some (hi, t)))
      | _ \<Rightarrow> None)"

lemma unicode_escape_length: "unicode_escape s = Some (n, t) \<Longrightarrow> length t < length s"
  by (auto simp: unicode_escape_def split: list.splits option.splits if_splits)

text \<open>A string after its opening quote: its text and what follows the closing quote.\<close>

function parse_string :: "string \<Rightarrow> (string \<times> string) option" where
  "parse_string [] = None"
| "parse_string (c # s) =
     (if c = CHR 0x22 then Some ([], s)
      else if c = CHR 0x5C then
        (case s of
           [] \<Rightarrow> None
         | e # t \<Rightarrow>
             (if e = CHR ''u'' then
                (case unicode_escape t of
                   None \<Rightarrow> None
                 | Some (n, t') \<Rightarrow> map_option (\<lambda>(x, r). (utf8 n @ x, r)) (parse_string t'))
              else
                (case unescape e of
                   None \<Rightarrow> None
                 | Some e' \<Rightarrow> map_option (\<lambda>(x, r). (e' # x, r)) (parse_string t))))
      else if (of_char c :: nat) < 32 then None
      else map_option (\<lambda>(x, r). (c # x, r)) (parse_string s))"
  by pat_completeness auto
termination
  by (relation "measure length") (auto dest: unicode_escape_length)

lemma parse_string_length: "parse_string s = Some (x, r) \<Longrightarrow> length r < length s"
proof (induction s arbitrary: x r rule: parse_string.induct)
  case (2 c s)
  then show ?case
    by (fastforce split: if_splits list.splits option.splits dest: unicode_escape_length)
qed simp

text \<open>Numbers: sign, integer part, and optionally a fraction and an exponent.\<close>

definition digits_of :: "string \<Rightarrow> string" where
  "digits_of s = takeWhile is_digit s"

definition number_value :: "string \<Rightarrow> nat" where
  "number_value ds = foldl (\<lambda>a c. 10 * a + digit_val c) 0 ds"

text \<open>The double of a decimal literal in canonical form: no trailing zeros in the mantissa.\<close>

function strip_zeros :: "int \<Rightarrow> int \<Rightarrow> pyval" where
  "strip_zeros m e =
     (if m = 0 then VFloat 0 0
      else if m mod 10 = 0 then strip_zeros (m div 10) (e + 1) else VFloat m e)"
  by pat_completeness auto
termination
  by (relation "measure (\<lambda>(m, e). nat \<bar>m\<bar>)") auto

declare strip_zeros.simps [simp del]

definition fraction_part :: "string \<Rightarrow> string \<times> string" where
  "fraction_part s =
     (case s of
        c # t \<Rightarrow> (if c = CHR ''.'' \<and> digits_of t \<noteq> [] then (digits_of t, drop (length (digits_of t)) t)
                  else ([], s))
      | [] \<Rightarrow> ([], s))"

definition exponent_part :: "string \<Rightarrow> int option \<times> string" where
  "exponent_part s =
     (case s of
        c # t \<Rightarrow>
          (if c = CHR ''e'' \<or> c = CHR ''E'' then
             (let neg = (t \<noteq> [] \<and> hd t = CHR ''-'');
                  t' = (if t \<noteq> [] \<and> (hd t = CHR ''-'' \<or> hd t = CHR ''+'') then tl t else t);
                  ds = digits_of t'
              in if ds = [] then (None, s)
                 else (Some (if neg then - int (number_value ds) else int (number_value ds)),
                       drop (length ds) t'))
           else (None, s))
      | [] \<Rightarrow> (None, s))"

definition parse_number :: "string \<Rightarrow> (pyval \<times> string) res" where
  "parse_number s =
     (let neg = (s \<noteq> [] \<and> hd s = CHR ''-'');
          u = (if neg then tl s else s);
          ds = (if u \<noteq> [] \<and> hd u = CHR ''0'' then [CHR ''0''] else digits_of u);
          rest = drop (length ds) u
      in if ds = [] then Inl json_error
         else
           let (frac, rest1) = fraction_part rest; (ex, rest2) = exponent_part rest1;
               sgnd = (\<lambda>n. if neg then - int n else int n)
           in if frac = [] \<and> ex = None then
                (if max_str_digits < length ds
                 then Inl (ValueError ''Exceeds the limit for integer string conversion'')
                 else Inr (VInt (sgnd (number_value ds)), rest2))
              else
                Inr (strip_zeros (sgnd (number_value (ds @ frac)))
                       ((case ex of None \<Rightarrow> 0 | Some k \<Rightarrow> k) - int (length frac)), rest2))"

definition literals :: "(string \<times> pyval) list" where
  "literals =
     [(''null'', VNone), (''true'', VBool True), (''false'', VBool False),
      (''NaN'', VObj ''nan'' ''nan''), (''Infinity'', VObj ''inf'' ''inf''),
      (''-Infinity'', VObj ''-inf'' ''-inf'')]"

definition parse_atom :: "string \<Rightarrow> (pyval \<times> string) res" where
  "parse_atom s =
     (case find (\<lambda>(w, v). prefix w s) literals of
        Some (w, v) \<Rightarrow> Inr (v, drop (length w) s)
      | None \<Rightarrow> parse_number s)"

text \<open>
  Values, array elements and object members. A rest that is not shorter than the text it came
  from would be a mistake of the reader; the test for it only serves the termination proof, and
  \<open>element_guard\<close> and \<open>member_guard\<close> show that it never fails.
\<close>

function parse_value :: "string \<Rightarrow> (pyval \<times> string) res"
  and parse_elements :: "string \<Rightarrow> (pyval list \<times> string) res"
  and parse_members :: "string \<Rightarrow> ((string \<times> pyval) list \<times> string) res"
where
  "parse_value s =
     (case s of
        [] \<Rightarrow> Inl json_error
      | c # t \<Rightarrow>
          (if c = CHR 0x22 then
             (case parse_string t of None \<Rightarrow> Inl json_error | Some (x, r) \<Rightarrow> Inr (VStr x, r))
           else if c = CHR ''{'' then
             (if skip_ws t \<noteq> [] \<and> hd (skip_ws t) = CHR ''}'' then Inr (VDict [], tl (skip_ws t))
              else res_bind (parse_members (skip_ws t)) (\<lambda>(kvs, r). Inr (VDict (dict_of kvs), r)))
           else if c = CHR ''['' then
             (if skip_ws t \<noteq> [] \<and> hd (skip_ws t) = CHR '']'' then Inr (VList [], tl (skip_ws t))
              else res_bind (parse_elements (skip_ws t)) (\<lambda>(xs, r). Inr (VList xs, r)))
           else parse_atom s))"
| "parse_elements s =
     (case parse_value s of
        Inl e \<Rightarrow> Inl e
      | Inr (v, r) \<Rightarrow>
          (case skip_ws r of
             [] \<Rightarrow> Inl json_error
           | c # t \<Rightarrow>
               (if c = CHR '']'' then Inr ([v], t)
                else if c = CHR '','' \<and> length (skip_ws t) < length s then
                  res_bind (parse_elements (skip_ws t)) (\<lambda>(vs, r'). Inr (v # vs, r'))
                else Inl json_error)))"
| "parse_members s =
     (case s of
        [] \<Rightarrow> Inl json_error
      | q # t \<Rightarrow>
          (if q \<noteq> CHR 0x22 then Inl json_error
           else
             case parse_string t of
               None \<Rightarrow> Inl json_error
             | Some (k, r) \<Rightarrow>
                 (case skip_ws r of
                    [] \<Rightarrow> Inl json_error
                  | c # u \<Rightarrow>
                      (if c \<noteq> CHR '':'' then Inl json_error
                       else
                         case parse_value (skip_ws u) of
                           Inl e \<Rightarrow> Inl e
                         | Inr (v, w) \<Rightarrow>
                             (case skip_ws w of
                                [] \<Rightarrow> Inl json_error
                              | d # x \<Rightarrow>
                                  (if d = CHR ''}'' then Inr ([(k, v)], x)
                                   else if d = CHR '','' \<and> length (skip_ws x) < length s then
                                     res_bind (parse_members (skip_ws x)) (\<lambda>(kvs, r'). Inr ((k, v) # kvs, r'))
                                   else Inl json_error))))))"
  by pat_completeness auto

text \<open>\<open>parse_elements\<close> calls \<open>parse_value\<close> on its own text: two per character, one more for the caller.\<close>

termination
proof (relation "measure (\<lambda>x. case x of Inl s \<Rightarrow> 2 * length s
                                        | Inr (Inl s) \<Rightarrow> 2 * length s + 1
                                        | Inr (Inr s) \<Rightarrow> 2 * length s + 1)", goal_cases)
  case (2 s c t)
  then show ?case using length_skip_ws [of t] by simp
next
  case (3 s c t)
  then show ?case using length_skip_ws [of t] by simp
next
  case (6 s q t _ k r c u)
  then have "length r < length t" by (auto dest: parse_string_length)
  moreover have "length (skip_ws u) \<le> length u" and "length (skip_ws r) \<le> length r"
    by (rule length_skip_ws)+
  ultimately show ?case using 6 by simp
qed (auto simp: length_skip_ws)

declare parse_value.simps [simp del] parse_elements.simps [simp del] parse_members.simps [simp del]

definition json_loads :: "string \<Rightarrow> pyval res" where
  "json_loads s =
     res_bind (parse_value (skip_ws s)) (\<lambda>(v, rest).
     if skip_ws rest = [] then Inr v else Inl json_error)"

subsection \<open>The reader moves forward\<close>

lemma fraction_part_length: "fraction_part s = (f, r) \<Longrightarrow> length r \<le> length s"
  by (auto simp: fraction_part_def split: list.splits if_splits)

lemma exponent_part_length: "exponent_part s = (f, r) \<Longrightarrow> length r \<le> length s"
  by (auto simp: exponent_part_def Let_def split: list.splits if_splits)

lemma parse_number_length:
  assumes "parse_number s = Inr (v, r)"
  shows "length r < length s"
proof -
  define u where "u = (if s \<noteq> [] \<and> hd s = CHR ''-'' then tl s else s)"
  define ds where "ds = (if u \<noteq> [] \<and> hd u = CHR ''0'' then [CHR ''0''] else digits_of u)"
  obtain frac rest1 where fr: "fraction_part (drop (length ds) u) = (frac, rest1)" by fastforce
  obtain ex rest2 where er: "exponent_part rest1 = (ex, rest2)" by fastforce
  have ds: "ds \<noteq> []" using assms by (auto simp: parse_number_def Let_def u_def ds_def split: if_splits)
  then have "r = rest2"
    using assms fr er by (auto simp: parse_number_def Let_def u_def ds_def split: if_splits)
  moreover have "length rest2 \<le> length (drop (length ds) u)"
    using fraction_part_length [OF fr] exponent_part_length [OF er] by simp
  moreover have "u \<noteq> []" using ds by (auto simp: ds_def digits_of_def)
  then have "length (drop (length ds) u) < length u" using ds by (cases ds) auto
  moreover have "length u \<le> length s" by (simp add: u_def)
  ultimately show ?thesis by simp
qed

lemma parse_atom_length: "parse_atom s = Inr (v, r) \<Longrightarrow> length r < length s"
proof (cases "find (\<lambda>(w, v). prefix w s) literals")
  case None
  then show "parse_atom s = Inr (v, r) \<Longrightarrow> length r < length s"
    by (simp add: parse_atom_def parse_number_length)
next
  case (Some wv)
  obtain w x where wv: "wv = (w, x)" by (cases wv)
  have "wv \<in> set literals" using Some by (metis find_Some_iff nth_mem)
  moreover have "prefix w s" using Some wv by (auto simp: find_Some_iff)
  ultimately have "w \<noteq> []" and "s \<noteq> []" using wv by (auto simp: literals_def)
  with Some wv show "parse_atom s = Inr (v, r) \<Longrightarrow> length r < length s"
    by (auto simp: parse_atom_def)
qed

lemma parse_lengths:
  "parse_value s = Inr (v, r) \<Longrightarrow> length r < length s"
  "parse_elements s' = Inr (vs, r') \<Longrightarrow> length r' < length s'"
  "parse_members s'' = Inr (kvs, r'') \<Longrightarrow> length r'' < length s''"
proof (induction s and s' and s'' arbitrary: v r and vs r' and kvs r''
    rule: parse_value_parse_elements_parse_members.induct)
  case (1 s)
  show ?case
  proof (cases s)
    case Nil
    with 1 show ?thesis by (simp add: parse_value.simps)
  next
    case (Cons c t)
    have t: "length (skip_ws t) \<le> length t" by (rule length_skip_ws)
    show ?thesis
      using 1 t unfolding Cons
      by (fastforce simp: parse_value.simps res_bind_Inr_iff dest: parse_string_length parse_atom_length
          split: if_splits option.splits)
  qed
next
  case (2 s)
  obtain u w where uw: "parse_value s = Inr (u, w)"
    using "2.prems" by (auto simp: parse_elements.simps [of s] split: sum.splits)
  have w: "length w < length s" using "2.IH"(1) [OF uw] .
  have sk: "length (skip_ws x) \<le> length x" for x by (rule length_skip_ws)
  show ?case
  proof (cases "skip_ws w")
    case Nil
    with "2.prems" uw show ?thesis by (simp add: parse_elements.simps [of s])
  next
    case (Cons c t)
    then have "length t < length w" using sk [of w] by simp
    with "2.prems" uw Cons w sk [of t] "2.IH"(2) [OF uw refl Cons] show ?thesis
      by (auto simp: parse_elements.simps [of s] res_bind_Inr_iff split: if_splits)
  qed
next
  case (3 s)
  from "3.prems" obtain q t where s: "s = q # t" and q: "q = CHR 0x22"
    by (auto simp: parse_members.simps [of s] split: list.splits if_splits)
  from "3.prems" obtain k r where kr: "parse_string t = Some (k, r)"
    by (auto simp: parse_members.simps [of "CHR 0x22 # t"] s q split: option.splits if_splits)
  from "3.prems" obtain c u where cu: "skip_ws r = c # u" and c: "c = CHR '':''"
    by (auto simp: parse_members.simps [of "CHR 0x22 # t"] s q kr split: list.splits if_splits)
  from "3.prems" obtain v w where vw: "parse_value (skip_ws u) = Inr (v, w)"
    by (auto simp: parse_members.simps [of "CHR 0x22 # t"] s q kr cu c split: sum.splits if_splits)
  from "3.prems" obtain d x where dx: "skip_ws w = d # x"
    by (auto simp: parse_members.simps [of "CHR 0x22 # t"] s q kr cu c vw split: list.splits if_splits)
  have sk: "length (skip_ws y) \<le> length y" for y by (rule length_skip_ws)
  have "length w < length (skip_ws u)"
    by (rule "3.IH"(1) [OF s _ kr _ cu _ vw]) (use q c in simp_all)
  then have x: "length x < length s"
    using sk [of w] sk [of u] sk [of r] parse_string_length [OF kr] by (simp add: dx cu s)
  have ih: "length r' < length (skip_ws x)"
    if "parse_members (skip_ws x) = Inr (kvs', r')" and "d = CHR '',''" for kvs' r'
    by (rule "3.IH"(2) [OF s _ kr _ cu _ vw _ dx]) (use q c that x sk [of x] in simp_all)
  show ?case
    using "3.prems" x sk [of x]
    by (auto simp: parse_members.simps [of "CHR 0x22 # t"] s q kr cu c vw dx res_bind_Inr_iff split: if_splits dest: ih)
qed

lemma skip_ws_Cons: "skip_ws r = c # t \<Longrightarrow> length (skip_ws t) < length r"
  using length_skip_ws [of r] length_skip_ws [of t] by simp

lemma element_guard:
  "parse_value s = Inr (v, r) \<Longrightarrow> skip_ws r = c # t \<Longrightarrow> length (skip_ws t) < length s"
  using parse_lengths(1) skip_ws_Cons by (meson less_trans)

lemma member_guard:
  assumes "parse_string t = Some (k, r)" and "skip_ws r = c # u"
    and "parse_value (skip_ws u) = Inr (v, w)" and "skip_ws w = d # x"
  shows "length (skip_ws x) < length (q # t)"
proof -
  have "length (skip_ws x) < length (skip_ws u)"
    using element_guard [OF assms(3,4)] .
  also have "\<dots> < length r" using skip_ws_Cons [OF assms(2)] .
  also have "\<dots> < length t" using parse_string_length [OF assms(1)] .
  finally show ?thesis by simp
qed

end
