(* ===== verification/S3Public.thy ===== *)
theory S3Public
  imports Contracts Events PyJson
begin

text \<open>
  \<open>remediations/s3_public/handler.py\<close>: whether a bucket is public through its ACL or its
  policy and Block Public Access does not neutralise it, and the two calls that close it.
\<close>

definition public_acl_uris :: "string list" where
  "public_acl_uris =
     [''http://acs.amazonaws.com/groups/global/AllUsers'',
      ''http://acs.amazonaws.com/groups/global/AuthenticatedUsers'']"

definition full_block_public_access :: pydict where
  "full_block_public_access =
     [(''BlockPublicAcls'', VBool True), (''IgnorePublicAcls'', VBool True),
      (''BlockPublicPolicy'', VBool True), (''RestrictPublicBuckets'', VBool True)]"

text \<open>\<open>v in PUBLIC_ACL_URIS\<close>: a set lookup hashes its operand.\<close>

fun in_public_uris :: "pyval \<Rightarrow> bool res" where
  "in_public_uris (VStr s) = Inr (s \<in> set public_acl_uris)"
| "in_public_uris (VList _) = Inl (TypeError (''unhashable type: '' @ quoted ''list''))"
| "in_public_uris (VDict _) = Inl (TypeError (''unhashable type: '' @ quoted ''dict''))"
| "in_public_uris _ = Inr False"

definition grant_label :: "pyval \<Rightarrow> string option res" where
  "grant_label grant =
     (case grant of
        VDict g \<Rightarrow>
          (case dict_get g ''Grantee'' VNone of
             VDict grantee \<Rightarrow>
               res_bind (in_public_uris (dict_get grantee ''URI'' VNone)) (\<lambda>public.
               Inr (if public
                    then Some (rsplit_last (CHR ''/'') (py_str (dict_get grantee ''URI'' VNone)) @ '':'' @
                               py_str (dict_get g ''Permission'' (VStr ''UNKNOWN'')))
                    else None))
           | _ \<Rightarrow> Inr None)
      | _ \<Rightarrow> Inr None)"

text \<open>The set of labels as a list without repetitions.\<close>

definition public_acl_grants :: "pyval \<Rightarrow> string list res" where
  "public_acl_grants acl =
     (case acl of
        VDict d \<Rightarrow>
          res_bind (py_iter (py_or (dict_get d ''Grants'' (VList [])) (VList []))) (\<lambda>grants.
          res_bind (res_mapM grant_label grants) (\<lambda>labels.
          Inr (remdups (List.map_filter (\<lambda>x. x) labels))))
      | _ \<Rightarrow> Inr [])"

definition principal_is_wildcard :: "pyval \<Rightarrow> bool" where
  "principal_is_wildcard v =
     (v = VStr ''*'' \<or>
      (case v of
         VDict d \<Rightarrow>
           (case dict_get d ''AWS'' VNone of
              VStr s \<Rightarrow> s = ''*''
            | VList xs \<Rightarrow> VStr ''*'' \<in> set xs
            | _ \<Rightarrow> False)
       | _ \<Rightarrow> False))"

definition statement_is_public :: "pyval \<Rightarrow> bool" where
  "statement_is_public st =
     (case st of
        VDict d \<Rightarrow>
          dict_get d ''Effect'' VNone = VStr ''Allow'' \<and> \<not> truthy (dict_get d ''Condition'' VNone) \<and>
          principal_is_wildcard (dict_get d ''Principal'' VNone)
      | _ \<Rightarrow> False)"

definition policy_is_public :: "pyval \<Rightarrow> bool" where
  "policy_is_public document =
     (case document of
        VDict d \<Rightarrow>
          (case dict_get d ''Statement'' VNone of
             VDict st \<Rightarrow> list_ex statement_is_public [VDict st]
           | VList sts \<Rightarrow> list_ex statement_is_public sts
           | _ \<Rightarrow> False)
      | _ \<Rightarrow> False)"

definition absent_config_codes :: "string list" where
  "absent_config_codes =
     [''NoSuchBucketPolicy'', ''NoSuchTagSet'', ''NoSuchPublicAccessBlockConfiguration'',
      ''NoSuchConfiguration'', ''ServerSideEncryptionConfigurationNotFoundError'']"

definition error_code :: "exn \<Rightarrow> string" where
  "error_code e =
     (case exn_response e of
        Some (VDict response) \<Rightarrow>
          (case dict_get response ''Error'' VNone of
             VDict err \<Rightarrow> py_str (dict_get err ''Code'' (VStr ''''))
           | _ \<Rightarrow> exn_name e)
      | _ \<Rightarrow> exn_name e)"

definition safe :: "('w, pyval) run \<Rightarrow> pyval \<Rightarrow> ('w, pyval) run" where
  "safe m dflt = try_except m (\<lambda>e. if error_code e \<in> set absent_config_codes then ret dflt else throw e)"

definition call_get :: "'w env \<Rightarrow> call \<Rightarrow> string \<Rightarrow> pyval \<Rightarrow> ('w, pyval) run" where
  "call_get env c k dflt = bind (do_call env c) (\<lambda>v. lift (py_get v k dflt))"

definition load_policy :: "'w env \<Rightarrow> string \<Rightarrow> ('w, pyval) run" where
  "load_policy env bucket =
     bind (safe (call_get env (GetBucketPolicy bucket) ''Policy'' VNone) VNone) (\<lambda>raw.
     case raw of
       VStr s \<Rightarrow>
         (case json_loads s of
            Inr parsed \<Rightarrow> ret (if is_mapping parsed then parsed else VNone)
          | Inl e \<Rightarrow> if exn_name e = ''JSONDecodeError'' then ret VNone else throw e)
     | _ \<Rightarrow> ret VNone)"

definition load_tags :: "'w env \<Rightarrow> string \<Rightarrow> ('w, (string \<times> string) list) run" where
  "load_tags env bucket =
     bind (safe (call_get env (GetBucketTagging bucket) ''TagSet'' (VList [])) (VList [])) (\<lambda>tag_set.
     ret (case tag_set of VList ts \<Rightarrow> tag_dict ts | _ \<Rightarrow> []))"

definition block_is_complete :: "pyval \<Rightarrow> bool res" where
  "block_is_complete block =
     res_bind (res_mapM (\<lambda>(k, _). py_get block k VNone) full_block_public_access) (\<lambda>vs.
     Inr (list_all (\<lambda>v. v = VBool True) vs))"

text \<open>\<open>plan\<close> once the bucket is read: the decision and the plan itself.\<close>

definition s3_decide ::
  "detection_event \<Rightarrow> string \<Rightarrow> pyval \<Rightarrow> pyval \<Rightarrow> pyval \<Rightarrow> (string \<times> string) list \<Rightarrow> plan option res"
where
  "s3_decide ev bucket acl policy_document block tgs =
     res_bind (public_acl_grants acl) (\<lambda>public_grants.
     let policy_public = policy_is_public policy_document in
     res_bind (block_is_complete block) (\<lambda>complete.
     let reasons =
           (if public_grants \<noteq> [] then [''ACL grants '' @ join '', '' (sort public_grants)] else []) @
           (if policy_public
            then [''bucket policy allows Principal '' @ quoted ''*'' @ '' with no restricting condition'']
            else [])
     in if reasons = [] then Inr None
        else if complete then Inr None
        else Inr (Some \<lparr>
          resource_id = bucket,
          resource_arn = ''arn:aws:s3:::'' @ bucket,
          reason = join ''; '' reasons,
          plan_severity = HIGH,
          snapshot =
            [(''bucket'', VStr bucket),
             (''acl'', acl),
             (''bucket_policy'', policy_document),
             (''public_access_block'', block),
             (''tags'', str_dict tgs),
             (''triggering_event_name'', dict_get (detail ev) ''eventName'' VNone)],
          tags = tgs,
          blast_radius =
            [(''public_via'', VStr (join '','' (filter (\<lambda>x. x \<noteq> [])
                [if public_grants \<noteq> [] then ''acl'' else '''', if policy_public then ''policy'' else '''']))),
             (''block_public_access'', VStr (if truthy block then ''partial'' else ''absent'')),
             (''region'', VStr (region ev))],
          intended_actions =
            [''enable all four Block Public Access settings''] @
            (if public_grants \<noteq> [] then [''reset bucket ACL to private''] else [])\<rparr>)))"

definition s3_plan :: "'w env \<Rightarrow> detection_event \<Rightarrow> ('w, plan option) run" where
  "s3_plan env ev =
     (let bucket = text_field (request_parameters ev) ''bucketName'' in
      if bucket = [] then ret None
      else
        bind (safe (do_call env (GetBucketAcl bucket)) (VDict [])) (\<lambda>acl.
        bind (load_policy env bucket) (\<lambda>policy_document.
        bind (safe (call_get env (GetPublicAccessBlock bucket) ''PublicAccessBlockConfiguration'' (VDict []))
                (VDict [])) (\<lambda>block.
        bind (load_tags env bucket) (\<lambda>tgs.
        lift (s3_decide ev bucket acl policy_document block tgs))))))"

definition policy_note :: string where
  "policy_note =
     ''bucket policy left in place '' @ [CHR 0xE2, CHR 0x80, CHR 0x94] @
     '' Block Public Access neutralises it and the policy is retained as evidence''"

definition s3_apply :: "'w env \<Rightarrow> plan \<Rightarrow> ('w, string list) run" where
  "s3_apply env p =
     (let bucket = resource_id p in
      bind (do_call env (PutPublicAccessBlock bucket full_block_public_access)) (\<lambda>_.
      let acts = [''enabled Block Public Access on s3://'' @ bucket] in
      bind (lift (public_acl_grants (dict_get (snapshot p) ''acl'' (VDict [])))) (\<lambda>grants.
      bind (if grants \<noteq> [] then
              bind (do_call env (PutBucketAcl bucket ''private'')) (\<lambda>_.
              ret (acts @ [''reset ACL to private on s3://'' @ bucket]))
            else ret acts) (\<lambda>acts.
      ret (if policy_is_public (dict_get (snapshot p) ''bucket_policy'' VNone)
           then acts @ [policy_note] else acts)))))"

definition s3_public :: "'w env \<Rightarrow> 'w detection" where
  "s3_public env = \<lparr>
     det_id = ''s3-public'', default_severity = HIGH, plan_of = s3_plan env, apply_of = s3_apply env\<rparr>"

lemma emits_safe [emit_intros]: "emits P m \<Longrightarrow> emits P (safe m d)"
  unfolding safe_def by (intro emit_intros)

lemma emits_call_get [emit_intros]: "P c \<Longrightarrow> emits P (call_get env c k d)"
  unfolding call_get_def by (intro emit_intros)

lemma emits_load_policy [emit_intros]: "emits is_read (load_policy env b)"
  unfolding load_policy_def
  by (intro emit_intros) (auto intro!: emit_intros split: pyval.split sum.split)

lemma emits_load_tags [emit_intros]: "emits is_read (load_tags env b)"
  unfolding load_tags_def by (intro emit_intros) simp

interpretation s3: detection_contract "s3_public env" for env
proof unfold_locales
  show "emits is_read (plan_of (s3_public env) ev)" for ev
    unfolding s3_public_def s3_plan_def Let_def by (simp, intro emit_intros conjI impI) simp_all
  show "emits is_remediation (apply_of (s3_public env) p)" for p
    unfolding s3_public_def s3_apply_def Let_def by (simp, intro emit_intros conjI impI) simp_all
qed

subsection \<open>What the handler promises\<close>


definition sample_bucket_event :: detection_event where
  "sample_bucket_event = \<lparr>event_id = ''e'', event_time = ''t'', source = ''aws.s3'', account_id = ''1'',
     region = ''eu-west-1'', principal = \<lparr>arn = ''a'', ptype = ''IAMUser'', pname = ''m'', paccount_id = ''1''\<rparr>,
     source_ip = ''192.0.2.1'', user_agent = ''aws-cli'',
     detail = [(''requestParameters'', VDict [(''bucketName'', VStr ''b'')])]\<rparr>"

definition open_acl :: pyval where
  "open_acl = VDict [(''Grants'', VList [VDict
     [(''Grantee'', VDict [(''URI'', VStr ''http://acs.amazonaws.com/groups/global/AllUsers'')]),
      (''Permission'', VStr ''READ'')]])]"

lemma open_acl_grants: "public_acl_grants open_acl = Inr [''AllUsers:READ'']"
  by code_simp

lemma no_block: "block_is_complete (VDict []) = Inr False"
  by code_simp


text \<open>
  Applying a plan turns on all four Block Public Access settings first, then resets the ACL to
  private if the snapshot's was public, and makes no other call; an action is only reported when
  every call succeeded.
\<close>

lemma s3_apply_calls:
  assumes "map_of (snapshot p) ''acl'' = Some acl" and "public_acl_grants acl = Inr grants"
    and "s3_apply env p s = (r, t, s')"
  shows "t \<noteq> [] \<and>
         prefix (map fst t) (PutPublicAccessBlock (resource_id p) full_block_public_access #
                              (if grants = [] then [] else [PutBucketAcl (resource_id p) ''private''])) \<and>
         (\<forall>acts. r = Inr acts \<longrightarrow>
            length t = (if grants = [] then 1 else 2) \<and> (\<forall>e\<in>set t. \<not> isl (snd e)))"
proof -
  have acl: "dict_get (snapshot p) ''acl'' d = acl" for d by (simp add: dict_get_def assms(1))
  show ?thesis
    using assms(3) unfolding s3_apply_def Let_def acl assms(2)
    by (cases "grants = []") (auto elim!: bindE do_callE simp: ret_def)
qed

definition sample_bucket_plan :: plan where
  "sample_bucket_plan = \<lparr>resource_id = ''b'', resource_arn = ''arn:aws:s3:::b'', reason = ''ACL'',
     plan_severity = HIGH, snapshot = [(''acl'', open_acl)], tags = [], blast_radius = [],
     intended_actions = [''enable'', ''reset'']\<rparr>"

definition s3_env :: "(call \<Rightarrow> pyval res) \<Rightarrow> unit env" where
  "s3_env answer = \<lparr>perform = (\<lambda>c w. (answer c, w)), clock_now = (\<lambda>w. (undefined, w))\<rparr>"

lemma s3_apply_calls_witness:
  "prefix (map fst (events (s3_apply (s3_env (\<lambda>c. Inr (VDict []))) sample_bucket_plan
      \<lparr>ext = (), webhook_cache = None\<rparr>)))
     [PutPublicAccessBlock ''b'' full_block_public_access, PutBucketAcl ''b'' ''private'']"
proof -
  obtain r t s' where
    run: "s3_apply (s3_env (\<lambda>c. Inr (VDict []))) sample_bucket_plan \<lparr>ext = (), webhook_cache = None\<rparr> = (r, t, s')"
    using prod_cases3 by blast
  have "map_of (snapshot sample_bucket_plan) ''acl'' = Some open_acl"
    by (simp add: sample_bucket_plan_def)
  from s3_apply_calls [OF this open_acl_grants run] show ?thesis
    by (simp add: run) (simp add: sample_bucket_plan_def)
qed

text \<open>A read that failed and was taken for absent configuration.\<close>

definition tolerated :: "event list \<Rightarrow> bool" where
  "tolerated t \<longleftrightarrow> (\<forall>c e. (c, Inl e) \<in> set t \<longrightarrow> error_code e \<in> set absent_config_codes)"

lemma tolerated_simps [simp]:
  "tolerated []"
  "tolerated (t1 @ t2) \<longleftrightarrow> tolerated t1 \<and> tolerated t2"
  "tolerated [(c, a)] \<longleftrightarrow> (\<forall>e. a = Inl e \<longrightarrow> error_code e \<in> set absent_config_codes)"
  by (auto simp: tolerated_def)

lemma safe_call_tolerated: "safe (do_call env c) d s = (Inr v, t, s') \<Longrightarrow> tolerated t"
  unfolding safe_def by (auto elim!: try_exceptE do_callE simp: ret_def throw_def split: if_splits)

lemma safe_get_tolerated: "safe (call_get env c k e) d s = (Inr v, t, s') \<Longrightarrow> tolerated t"
  unfolding safe_def call_get_def
  by (auto elim!: try_exceptE bindE do_callE simp: ret_def throw_def lift_def split: if_splits)

lemma load_policy_tolerated:
  assumes "load_policy env b s = (Inr v, t, s')"
  shows "tolerated t"
  using assms unfolding load_policy_def
proof (cases rule: bindE)
  case (returned raw t1 s1 t2)
  from returned(2) have "t2 = []"
    by (auto simp: ret_def throw_def split: pyval.splits sum.splits if_splits)
  with returned safe_get_tolerated show ?thesis by fastforce
qed simp

lemma load_tags_tolerated: "load_tags env b s = (Inr v, t, s') \<Longrightarrow> tolerated t"
  unfolding load_tags_def by (auto elim!: bindE simp: ret_def dest: safe_get_tolerated)

text \<open>
  C28: a decision about a bucket, to act or not to, is only reached when every read succeeded or
  failed with one of the codes for absent configuration: a read that was denied raises instead of
  passing for an empty ACL or policy.
\<close>

theorem s3_reads_tolerate_only_absence:
  assumes "s3_plan env ev s = (Inr planned, t, s')" and "(c, Inl e) \<in> set t"
  shows "error_code e \<in> set absent_config_codes"
proof -
  have "tolerated t"
    using assms(1) unfolding s3_plan_def Let_def
    by (auto elim!: bindE simp: ret_def lift_def split: if_splits
        dest: safe_call_tolerated safe_get_tolerated load_policy_tolerated load_tags_tolerated)
  with assms(2) show ?thesis by (auto simp: tolerated_def)
qed

definition absent_policy :: exn where
  "absent_policy = External ''NoSuchBucketPolicy'' ''''
     (Some (VDict [(''Error'', VDict [(''Code'', VStr ''NoSuchBucketPolicy'')])]))"

theorem s3_reads_tolerate_only_absence_witness:
  "\<exists>planned t s'. s3_plan (s3_env (\<lambda>c. case c of GetBucketPolicy _ \<Rightarrow> Inl absent_policy | _ \<Rightarrow> Inr (VDict [])))
       sample_bucket_event \<lparr>ext = (), webhook_cache = None\<rparr> = (Inr planned, t, s') \<and>
     (GetBucketPolicy ''b'', Inl absent_policy) \<in> set t \<and> error_code absent_policy \<in> set absent_config_codes"
proof -
  let ?env = "s3_env (\<lambda>c. case c of GetBucketPolicy _ \<Rightarrow> Inl absent_policy | _ \<Rightarrow> Inr (VDict []))"
  have b: "text_field (request_parameters sample_bucket_event) ''bucketName'' = ''b''" by code_simp
  have code: "error_code absent_policy = ''NoSuchBucketPolicy''" by code_simp
  have dec: "s3_decide sample_bucket_event ''b'' (VDict []) VNone (VDict []) [] = Inr None" by code_simp
  have run: "s3_plan ?env sample_bucket_event \<lparr>ext = (), webhook_cache = None\<rparr> =
      (Inr None, [(GetBucketAcl ''b'', Inr (VDict [])), (GetBucketPolicy ''b'', Inl absent_policy),
                  (GetPublicAccessBlock ''b'', Inr (VDict [])), (GetBucketTagging ''b'', Inr (VDict []))],
       \<lparr>ext = (), webhook_cache = None\<rparr>)"
    unfolding s3_plan_def b Let_def
    by (simp add: bind_def safe_def try_except_def do_call_def s3_env_def load_policy_def load_tags_def
        call_get_def ret_def lift_def code absent_config_codes_def dict_get_def dec)
  from s3_reads_tolerate_only_absence [OF run, of "GetBucketPolicy ''b''" absent_policy] run
  show ?thesis by auto
qed

end
