(* ===== verification/IamKeyLeak.thy ===== *)
theory IamKeyLeak
  imports Contracts Events
begin

text \<open>
  \<open>remediations/iam_key_leak/handler.py\<close>: a long-lived key of an IAM user is set to
  \<open>Inactive\<close>, any other credential is escalated, nothing is deleted.
\<close>

definition em_dash :: string where
  "em_dash = [CHR 0xE2, CHR 0x80, CHR 0x94]"

definition principal_arn_of :: "string \<Rightarrow> string \<Rightarrow> string \<Rightarrow> string" where
  "principal_arn_of account user_type user_name =
     (if user_type = ''Root'' \<or> user_name = [] then ''arn:aws:iam::'' @ account @ '':root''
      else if user_type = ''AssumedRole'' then ''arn:aws:iam::'' @ account @ '':role/'' @ user_name
      else ''arn:aws:iam::'' @ account @ '':user/'' @ user_name)"

definition escalation_reason :: "string \<Rightarrow> string \<Rightarrow> string \<Rightarrow> string \<Rightarrow> string" where
  "escalation_reason finding_type access_key_id user_type user_name =
     (let head = ''GuardDuty '' @ finding_type @ '' on credential '' @ access_key_id in
      if user_type = ''Root'' \<or> user_name = [] then
        head @ '', which belongs to the account root ('' @
        (if user_type = [] then ''unidentified principal'' else user_type) @
        ''). Root credentials are never deactivated automatically '' @ em_dash @
        '' rotate them by hand now.''
      else if user_type = ''AssumedRole'' then
        head @ '', a temporary session credential for role '' @ user_name @
        ''. Temporary credentials cannot be deactivated; revoke them by attaching an '' @
        ''AWSRevokeOlderSessions deny-by-date policy to the role, and find out how the role was assumed.''
      else
        head @ '', held by principal type '' @ repr_str user_type @
        '', which this remediation does not know how to act on safely. Handle manually.'')"

definition last_used :: "'w env \<Rightarrow> string \<Rightarrow> ('w, pydict) run" where
  "last_used env access_key_id =
     bind (try_except (bind (do_call env (GetAccessKeyLastUsed access_key_id)) (\<lambda>v. ret (Some v)))
             (\<lambda>_. ret None)) (\<lambda>response.
     case response of
       None \<Rightarrow> ret []
     | Some v \<Rightarrow> bind (lift (py_get v ''AccessKeyLastUsed'' (VDict []))) (\<lambda>info. ret (as_dict info)))"

definition key_metadata :: "'w env \<Rightarrow> string \<Rightarrow> string \<Rightarrow> ('w, pydict) run" where
  "key_metadata env user_name access_key_id =
     bind (do_call env (ListAccessKeys user_name)) (\<lambda>response.
     bind (lift (py_get response ''AccessKeyMetadata'' (VList []))) (\<lambda>v.
     bind (lift (py_iter (py_or v (VList [])))) (\<lambda>entries.
     ret (case find (\<lambda>e. is_mapping e \<and> dict_get (as_dict e) ''AccessKeyId'' VNone = VStr access_key_id) entries of
            Some e \<Rightarrow> as_dict e
          | None \<Rightarrow> []))))"

definition user_tags :: "'w env \<Rightarrow> string \<Rightarrow> ('w, (string \<times> string) list) run" where
  "user_tags env user_name =
     bind (try_except (bind (do_call env (ListUserTags user_name)) (\<lambda>v. ret (Some v)))
             (\<lambda>_. ret None)) (\<lambda>response.
     case response of
       None \<Rightarrow> ret []
     | Some v \<Rightarrow>
         bind (lift (py_get v ''Tags'' (VList []))) (\<lambda>ts.
         bind (lift (py_iter (py_or ts (VList [])))) (\<lambda>entries.
         ret (tag_dict entries))))"

text \<open>What \<open>plan\<close> reads of the event: the credential and the finding.\<close>

definition key_details :: "detection_event \<Rightarrow> pydict" where
  "key_details ev =
     mapping (dict_get (mapping (dict_get (detail ev) ''resource'' VNone)) ''accessKeyDetails'' VNone)"

definition finding_type :: "detection_event \<Rightarrow> string" where
  "finding_type ev = py_str (py_or (dict_get (detail ev) ''type'' VNone) (VStr ''unknown''))"

definition finding_severity :: "detection_event \<Rightarrow> pyval" where
  "finding_severity ev = dict_get (detail ev) ''severity'' VNone"

definition finding :: "detection_event \<Rightarrow> pyval" where
  "finding ev = VDict [(''type'', VStr (finding_type ev)), (''severity'', finding_severity ev)]"

definition iam_blast :: "detection_event \<Rightarrow> pydict \<Rightarrow> pydict" where
  "iam_blast ev used =
     [(''finding'', VStr (finding_type ev)),
      (''guardduty_severity'', finding_severity ev),
      (''last_used_service'', dict_get used ''ServiceName'' (VStr ''unknown'')),
      (''last_used_region'', dict_get used ''Region'' (VStr ''unknown'')),
      (''last_used_at'', VStr (py_str (dict_get used ''LastUsedDate'' (VStr ''never'')))),
      (''source_ip'', VStr (source_ip ev))]"

text \<open>The plan for a credential that cannot be deactivated safely: no action.\<close>

definition escalation_plan ::
  "detection_event \<Rightarrow> string \<Rightarrow> string \<Rightarrow> string \<Rightarrow> pydict \<Rightarrow> plan"
where
  "escalation_plan ev access_key_id user_type user_name used = \<lparr>
     resource_id = access_key_id,
     resource_arn = principal_arn_of (account_id ev) user_type user_name,
     reason = escalation_reason (finding_type ev) access_key_id user_type user_name,
     plan_severity = CRITICAL,
     snapshot =
       [(''access_key_id'', VStr access_key_id),
        (''user_type'', VStr user_type),
        (''user_name'', VStr user_name),
        (''access_key_last_used'', VDict used),
        (''guardduty_finding'', finding ev)],
     tags = [],
     blast_radius = iam_blast ev used,
     intended_actions = []\<rparr>"

text \<open>The plan for the key of an IAM user.\<close>

definition deactivation_plan ::
  "detection_event \<Rightarrow> string \<Rightarrow> string \<Rightarrow> string \<Rightarrow> pydict \<Rightarrow> pydict \<Rightarrow> (string \<times> string) list \<Rightarrow> plan"
where
  "deactivation_plan ev access_key_id user_type user_name used meta tgs = \<lparr>
     resource_id = access_key_id,
     resource_arn = ''arn:aws:iam::'' @ account_id ev @ '':user/'' @ user_name,
     reason =
       ''GuardDuty '' @ finding_type ev @ '' (severity '' @ py_str (finding_severity ev) @
       '') on access key '' @ access_key_id @ '' belonging to IAM user '' @ user_name @
       '', seen from '' @ source_ip ev,
     plan_severity = CRITICAL,
     snapshot =
       [(''access_key_id'', VStr access_key_id),
        (''user_name'', VStr user_name),
        (''user_type'', VStr user_type),
        (''access_key_metadata'', VDict meta),
        (''access_key_last_used'', VDict used),
        (''user_tags'', str_dict tgs),
        (''guardduty_finding'', finding ev)],
     tags = tgs,
     blast_radius = dict_set ''user'' (VStr user_name) (iam_blast ev used),
     intended_actions =
       [''set access key '' @ access_key_id @ '' of user '' @ user_name @ '' to Inactive'']\<rparr>"

definition iam_plan :: "'w env \<Rightarrow> detection_event \<Rightarrow> ('w, plan option) run" where
  "iam_plan env ev =
     (let access_key_id = text_field (key_details ev) ''accessKeyId'';
          user_name = text_field (key_details ev) ''userName'';
          user_type = text_field (key_details ev) ''userType''
      in if access_key_id = [] then ret None
      else
        bind (last_used env access_key_id) (\<lambda>used.
        if user_type \<noteq> ''IAMUser'' \<or> user_name = [] then
          ret (Some (escalation_plan ev access_key_id user_type user_name used))
        else
          bind (key_metadata env user_name access_key_id) (\<lambda>meta.
          if dict_get meta ''Status'' VNone = VStr ''Inactive'' then ret None
          else
            bind (user_tags env user_name) (\<lambda>tgs.
            ret (Some (deactivation_plan ev access_key_id user_type user_name used meta tgs))))))"

text \<open>\<open>str(plan.snapshot[k])\<close>\<close>

definition snapshot_text :: "plan \<Rightarrow> string \<Rightarrow> string res" where
  "snapshot_text p k =
     (case map_of (snapshot p) k of None \<Rightarrow> Inl (KeyError (repr_str k)) | Some v \<Rightarrow> Inr (py_str v))"

definition iam_apply :: "'w env \<Rightarrow> plan \<Rightarrow> ('w, string list) run" where
  "iam_apply env p =
     bind (lift (snapshot_text p ''access_key_id'')) (\<lambda>access_key_id.
     bind (lift (snapshot_text p ''user_name'')) (\<lambda>user_name.
     bind (do_call env (UpdateAccessKey user_name access_key_id ''Inactive'')) (\<lambda>_.
     ret [''deactivated access key '' @ access_key_id @ '' for IAM user '' @ user_name @
          '' (not deleted '' @ em_dash @ '' last-used history preserved)''])))"

definition iam_key_leak :: "'w env \<Rightarrow> 'w detection" where
  "iam_key_leak env = \<lparr>
     det_id = ''iam-key-leak'', default_severity = CRITICAL, plan_of = iam_plan env,
     apply_of = iam_apply env\<rparr>"

lemma emits_last_used [emit_intros]: "emits is_read (last_used env k)"
  unfolding last_used_def by (intro emit_intros) simp_all

lemma emits_key_metadata [emit_intros]: "emits is_read (key_metadata env u k)"
  unfolding key_metadata_def by (intro emit_intros) simp_all

lemma emits_user_tags [emit_intros]: "emits is_read (user_tags env u)"
  unfolding user_tags_def by (intro emit_intros) simp_all

interpretation iam: detection_contract "iam_key_leak env" for env
proof unfold_locales
  show "emits is_read (plan_of (iam_key_leak env) ev)" for ev
    unfolding iam_key_leak_def iam_plan_def Let_def by (simp, intro emit_intros conjI impI)
  show "emits is_remediation (apply_of (iam_key_leak env) p)" for p
    unfolding iam_key_leak_def iam_apply_def by (simp, intro emit_intros) simp_all
qed

subsection \<open>What the handler promises\<close>

lemmas iam_plans = escalation_plan_def deactivation_plan_def

lemma iam_plan_shape:
  assumes "iam_plan env ev s = (Inr (Some p), t, s')"
  shows "resource_id p = text_field (key_details ev) ''accessKeyId'' \<and> resource_id p \<noteq> [] \<and>
         plan_severity p = CRITICAL \<and>
         (if text_field (key_details ev) ''userType'' = ''IAMUser'' \<and>
             text_field (key_details ev) ''userName'' \<noteq> []
          then map_of (snapshot p) ''access_key_id'' = Some (VStr (resource_id p)) \<and>
               map_of (snapshot p) ''user_name'' = Some (VStr (text_field (key_details ev) ''userName'')) \<and>
               length (intended_actions p) = 1 \<and>
               (\<exists>meta. map_of (snapshot p) ''access_key_metadata'' = Some (VDict meta) \<and>
                       dict_get meta ''Status'' VNone \<noteq> VStr ''Inactive'')
          else intended_actions p = [] \<and> tags p = [])"
  using assms unfolding iam_plan_def Let_def
  by (auto elim!: bindE simp: ret_def iam_plans split: if_splits)

text \<open>
  C29: the handler plans a change only for the access key of a named IAM user that is not inactive
  already; any other credential it plans for is escalated, with no action, at critical severity.
\<close>

theorem iam_acts_on_users_only:
  assumes "iam_plan env ev s = (Inr (Some p), t, s')"
  shows "resource_id p = text_field (key_details ev) ''accessKeyId'' \<and> resource_id p \<noteq> [] \<and>
         plan_severity p = CRITICAL \<and>
         (if text_field (key_details ev) ''userType'' = ''IAMUser'' \<and>
             text_field (key_details ev) ''userName'' \<noteq> []
          then map_of (snapshot p) ''access_key_id'' = Some (VStr (resource_id p)) \<and>
               map_of (snapshot p) ''user_name'' = Some (VStr (text_field (key_details ev) ''userName'')) \<and>
               length (intended_actions p) = 1 \<and>
               (\<exists>meta. map_of (snapshot p) ''access_key_metadata'' = Some (VDict meta) \<and>
                       dict_get meta ''Status'' VNone \<noteq> VStr ''Inactive'')
          else intended_actions p = [] \<and> tags p = [])"
  using assms by (rule iam_plan_shape)

definition leaked_event :: "string \<Rightarrow> detection_event" where
  "leaked_event user_type = \<lparr>event_id = ''e'', event_time = ''t'', source = ''aws.guardduty'',
     account_id = ''1'', region = ''eu-west-1'',
     principal = \<lparr>arn = ''AIDA'', ptype = user_type, pname = ''alice'', paccount_id = ''1''\<rparr>,
     source_ip = ''192.0.2.1'', user_agent = ''unknown'',
     detail = [(''resource'', VDict [(''accessKeyDetails'', VDict
       [(''accessKeyId'', VStr ''AKIA1''), (''userName'', VStr ''alice''), (''userType'', VStr user_type)])])]\<rparr>"

definition silent_env :: "unit env" where
  "silent_env = \<lparr>perform = (\<lambda>c w. (Inr (VDict []), w)), clock_now = (\<lambda>w. (undefined, w))\<rparr>"

lemma silent_call [simp]: "do_call silent_env c s = (Inr (VDict []), [(c, Inr (VDict []))], s)"
  by (simp add: do_call_def silent_env_def)

lemma leaked_fields:
  "text_field (key_details (leaked_event ''IAMUser'')) ''accessKeyId'' = ''AKIA1''"
  "text_field (key_details (leaked_event ''IAMUser'')) ''userName'' = ''alice''"
  "text_field (key_details (leaked_event ''IAMUser'')) ''userType'' = ''IAMUser''"
  "text_field (key_details (leaked_event ''Root'')) ''accessKeyId'' = ''AKIA1''"
  "text_field (key_details (leaked_event ''Root'')) ''userType'' = ''Root''"
  by code_simp+

lemma iam_plan_runs:
  "\<exists>p t s'. iam_plan silent_env (leaked_event ''IAMUser'') \<lparr>ext = (), webhook_cache = None\<rparr> = (Inr (Some p), t, s')"
  "\<exists>p t s'. iam_plan silent_env (leaked_event ''Root'') \<lparr>ext = (), webhook_cache = None\<rparr> = (Inr (Some p), t, s')"
  using leaked_fields
  by (simp_all add: iam_plan_def Let_def bind_def last_used_def key_metadata_def user_tags_def try_except_def
      ret_def lift_def dict_get_def py_or_def)

theorem iam_acts_on_users_only_witness:
  "\<exists>p t s'. iam_plan silent_env (leaked_event ''Root'') \<lparr>ext = (), webhook_cache = None\<rparr> = (Inr (Some p), t, s') \<and>
     resource_id p = ''AKIA1'' \<and> intended_actions p = []"
proof -
  obtain p t s' where
    run: "iam_plan silent_env (leaked_event ''Root'') \<lparr>ext = (), webhook_cache = None\<rparr> = (Inr (Some p), t, s')"
    using iam_plan_runs(2) by blast
  from iam_acts_on_users_only [OF run] run show ?thesis by (auto simp: leaked_fields)
qed

text \<open>
  C9: from plan to change: whatever the plan for an IAM user says, applying it deactivates the
  very key the finding named, of the very user, and fails only if that call fails.
\<close>

theorem iam_plan_apply:
  assumes "iam_plan env ev s = (Inr (Some p), t, s')" and "intended_actions p \<noteq> []"
    and "iam_apply env' p s2 = (r, t2, s3)"
  shows "\<exists>a. t2 = [(UpdateAccessKey (text_field (key_details ev) ''userName'')
                      (text_field (key_details ev) ''accessKeyId'') ''Inactive'', a)] \<and> (isl r \<longleftrightarrow> isl a)"
proof -
  from iam_plan_shape [OF assms(1)] assms(2)
  have "snapshot_text p ''user_name'' = Inr (text_field (key_details ev) ''userName'')"
    and "snapshot_text p ''access_key_id'' = Inr (text_field (key_details ev) ''accessKeyId'')"
    by (auto simp: snapshot_text_def split: if_splits)
  with assms(3) show ?thesis
    unfolding iam_apply_def by (auto elim!: bindE do_callE simp: ret_def)
qed

theorem iam_plan_apply_witness:
  "\<exists>p t s'. iam_plan silent_env (leaked_event ''IAMUser'') \<lparr>ext = (), webhook_cache = None\<rparr> = (Inr (Some p), t, s') \<and>
     map fst (events (iam_apply silent_env p \<lparr>ext = (), webhook_cache = None\<rparr>)) =
       [UpdateAccessKey ''alice'' ''AKIA1'' ''Inactive'']"
proof -
  obtain p t s' where
    run: "iam_plan silent_env (leaked_event ''IAMUser'') \<lparr>ext = (), webhook_cache = None\<rparr> = (Inr (Some p), t, s')"
    using iam_plan_runs(1) by blast
  obtain r t2 s3 where app: "iam_apply silent_env p \<lparr>ext = (), webhook_cache = None\<rparr> = (r, t2, s3)"
    using prod_cases3 by blast
  have "intended_actions p \<noteq> []" using iam_plan_shape [OF run] by (auto simp: leaked_fields)
  from iam_plan_apply [OF run this app] run app show ?thesis by (auto simp: leaked_fields)
qed

subsection \<open>Tags that cannot be read\<close>

lemma user_tags_refused:
  assumes "user_tags env u s = (Inr tgs, t, s')" and "(ListUserTags u', Inl e) \<in> set t"
  shows "tgs = []"
  using assms unfolding user_tags_def
  by (auto elim!: bindE try_exceptE do_callE simp: ret_def lift_def split: option.splits)

lemma other_reads_no_tags:
  "last_used env k s = (r, t, s') \<Longrightarrow> (ListUserTags u, a) \<notin> set t"
  "key_metadata env v k s = (r', t', s') \<Longrightarrow> (ListUserTags u, a) \<notin> set t'"
  unfolding last_used_def key_metadata_def
  by (auto elim!: bindE try_exceptE do_callE simp: ret_def lift_def throw_def split: option.splits)

text \<open>How a plan was made: an escalation after one read, or a deactivation after three.\<close>

lemma iam_planE [consumes 1, case_names escalated deactivated]:
  assumes "iam_plan env ev s = (Inr (Some p), t, s')"
  obtains (escalated) k user_type user_name used
    where "p = escalation_plan ev k user_type user_name used" and "last_used env k s = (Inr used, t, s')"
  | (deactivated) k user_type user_name used meta tgs t1 s1 t2 s2 t3
    where "p = deactivation_plan ev k user_type user_name used meta tgs"
      and "last_used env k s = (Inr used, t1, s1)" and "key_metadata env user_name k s1 = (Inr meta, t2, s2)"
      and "user_tags env user_name s2 = (Inr tgs, t3, s')" and "t = t1 @ t2 @ t3"
  using assms unfolding iam_plan_def Let_def by (auto elim!: bindE simp: ret_def split: if_splits)

lemma iam_plan_refused_tags:
  assumes "iam_plan env ev s = (Inr (Some p), t, s')" and "(ListUserTags u, Inl e) \<in> set t"
  shows "tags p = [] \<and> intended_actions p \<noteq> []"
  using assms(1)
proof (cases rule: iam_planE)
  case (escalated k user_type user_name used)
  with assms(2) other_reads_no_tags(1) [OF escalated(2)] show ?thesis by simp
next
  case (deactivated k user_type user_name used meta tgs t1 s1 t2 s2 t3)
  with assms(2) other_reads_no_tags have "(ListUserTags u, Inl e) \<in> set t3" by fastforce
  from user_tags_refused [OF deactivated(4) this] show ?thesis
    by (simp add: deactivated(1) deactivation_plan_def)
qed

end
