(* ===== verification/Sha256.thy ===== *)
theory Sha256
  imports PyStr "HOL-Library.Word"
begin

unbundle bit_operations_syntax

text \<open>
  \<open>hashlib.sha256\<close>, as FIPS 180-4 defines it: the message is a list of bytes, the state
  eight 32-bit words. The alert fingerprint is cut from its hexadecimal digest.
\<close>

type_synonym word32 = "32 word"

text \<open>
  The constants are the first 32 bits of the fractional parts of roots of primes: cube roots of
  the first 64 for the rounds, square roots of the first 8 for the initial state.
\<close>

definition primes_below :: "int \<Rightarrow> int list" where
  "primes_below n = filter (\<lambda>p. list_all (\<lambda>d. p mod d \<noteq> 0) [2..p - 1]) [2..n - 1]"

text \<open>The integer part of the \<open>k\<close>-th root of \<open>x\<close>, bit by bit from bit \<open>b - 1\<close> down.\<close>

fun root_bits :: "nat \<Rightarrow> nat \<Rightarrow> int \<Rightarrow> int \<Rightarrow> int" where
  "root_bits k 0 r x = r"
| "root_bits k (Suc b) r x = (let r' = r + 2 ^ b in root_bits k b (if r' ^ k \<le> x then r' else r) x)"

definition root_fraction :: "nat \<Rightarrow> int \<Rightarrow> word32" where
  "root_fraction k p = word_of_int (root_bits k 37 0 (p * 2 ^ (32 * k)))"

definition sha_k :: "word32 list" where
  "sha_k = map (root_fraction 3) (primes_below 312)"

definition sha_init :: "word32 list" where
  "sha_init = map (root_fraction 2) (primes_below 20)"

definition rotr :: "nat \<Rightarrow> word32 \<Rightarrow> word32" where
  "rotr n w = (drop_bit n w OR push_bit (32 - n) w)"

definition small_sigma0 :: "word32 \<Rightarrow> word32" where
  "small_sigma0 w = (rotr 7 w XOR rotr 18 w XOR drop_bit 3 w)"

definition small_sigma1 :: "word32 \<Rightarrow> word32" where
  "small_sigma1 w = (rotr 17 w XOR rotr 19 w XOR drop_bit 10 w)"

definition big_sigma0 :: "word32 \<Rightarrow> word32" where
  "big_sigma0 w = (rotr 2 w XOR rotr 13 w XOR rotr 22 w)"

definition big_sigma1 :: "word32 \<Rightarrow> word32" where
  "big_sigma1 w = (rotr 6 w XOR rotr 11 w XOR rotr 25 w)"

text \<open>The message schedule: the last sixteen words, extended \<open>n\<close> times.\<close>

fun schedule :: "nat \<Rightarrow> word32 list \<Rightarrow> word32 list" where
  "schedule 0 ws = []"
| "schedule (Suc n) ws =
     ws ! 0 # schedule n (tl ws @ [small_sigma1 (ws ! 14) + ws ! 9 + small_sigma0 (ws ! 1) + ws ! 0])"

fun sha_round :: "word32 list \<Rightarrow> word32 \<times> word32 \<Rightarrow> word32 list" where
  "sha_round [a, b, c, d, e, f, g, h] (k, w) =
     (let t1 = h + big_sigma1 e + ((e AND f) XOR (NOT e AND g)) + k + w;
          t2 = big_sigma0 a + ((a AND b) XOR (a AND c) XOR (b AND c))
      in [t1 + t2, a, b, c, d + t1, e, f, g])"
| "sha_round st _ = st"

definition be_word :: "int list \<Rightarrow> word32" where
  "be_word bs = word_of_int (foldl (\<lambda>n b. n * 256 + b) 0 bs)"

fun chunks :: "nat \<Rightarrow> nat \<Rightarrow> 'a list \<Rightarrow> 'a list list" where
  "chunks 0 n xs = []"
| "chunks (Suc k) n xs = take n xs # chunks k n (drop n xs)"

definition sha_block :: "word32 list \<Rightarrow> int list \<Rightarrow> word32 list" where
  "sha_block st bs =
     map2 (+) st (foldl sha_round st (zip sha_k (schedule 64 (map be_word (chunks 16 4 bs)))))"

fun be_bytes :: "nat \<Rightarrow> int \<Rightarrow> int list" where
  "be_bytes 0 n = []"
| "be_bytes (Suc k) n = be_bytes k (n div 256) @ [n mod 256]"

definition sha_pad :: "int list \<Rightarrow> int list" where
  "sha_pad m = m @ [128] @ replicate ((119 - length m mod 64) mod 64) 0 @ be_bytes 8 (8 * int (length m))"

definition sha256 :: "int list \<Rightarrow> int list" where
  "sha256 m =
     (let p = sha_pad m in
      concat (map (\<lambda>w. be_bytes 4 (uint w)) (foldl sha_block sha_init (chunks (length p div 64) 64 p))))"

text \<open>\<open>hashlib.sha256(material.encode("utf-8")).hexdigest()\<close>\<close>

definition sha256_hex :: "string \<Rightarrow> string" where
  "sha256_hex s = concat (map (\<lambda>b. hex2 (nat b)) (sha256 (map of_char s)))"

lemma length_be_bytes [simp]: "length (be_bytes k n) = k"
  by (induction k arbitrary: n) simp_all

lemma be_bytes_range: "b \<in> set (be_bytes k n) \<Longrightarrow> 0 \<le> b \<and> b < 256"
  by (induction k arbitrary: n) auto

lemma sha_round_length: "length st = 8 \<Longrightarrow> length (sha_round st x) = 8"
  by (cases "(st, x)" rule: sha_round.cases) (auto simp: Let_def)

lemma sha_rounds_length: "length st = 8 \<Longrightarrow> length (foldl sha_round st xs) = 8"
  by (induction xs arbitrary: st) (auto simp: sha_round_length)

lemma sha_blocks_length: "length st = 8 \<Longrightarrow> length (foldl sha_block st bs) = 8"
  by (induction bs arbitrary: st) (auto simp: sha_block_def sha_rounds_length)

lemma sha_init_length: "length sha_init = 8"
  by code_simp

text \<open>The root is exact: the largest integer whose power does not exceed the argument.\<close>

lemma root_bits_exact:
  assumes "0 \<le> r" and "r ^ k \<le> x" and "x < (r + 2 ^ b) ^ k"
  shows "root_bits k b r x ^ k \<le> x \<and> x < (root_bits k b r x + 1) ^ k"
  using assms
proof (induction b arbitrary: r)
  case (Suc b)
  show ?case
  proof (cases "(r + 2 ^ b) ^ k \<le> x")
    case True
    have "x < (r + 2 ^ b + 2 ^ b) ^ k" using Suc.prems(3) by (simp add: algebra_simps)
    with True Suc show ?thesis by simp
  next
    case False
    with Suc show ?thesis by simp
  qed
qed simp

lemma length_sha256 [simp]: "length (sha256 m) = 32"
  by (simp add: sha256_def Let_def length_concat comp_def sum_list_triv sha_blocks_length sha_init_length)

text \<open>Padding fills whole blocks.\<close>

lemma sha_pad_blocks: "length (sha_pad m) mod 64 = 0"
proof -
  define r where "r = length m mod 64"
  have r: "r < 64" by (simp add: r_def)
  have "(length m + c) mod 64 = (r + c) mod 64" for c by (simp add: r_def mod_add_left_eq)
  from this [of "9 + (119 - r) mod 64"]
  have "length (sha_pad m) mod 64 = (r + 9 + (119 - r) mod 64) mod 64"
    by (simp add: sha_pad_def r_def [symmetric] add.assoc)
  also have "\<dots> = (r + 9 + (119 - r)) mod 64" by (simp only: mod_add_right_eq)
  also have "r + 9 + (119 - r) = 128" using r by simp
  finally show ?thesis by simp
qed

end
