(* ===== verification/Dedup.thy ===== *)
theory Dedup
  imports Clock Sha256
begin

text \<open>
  \<open>notifier/dedup.py\<close>: an alert is sent by the first caller to claim its fingerprint within
  the window; the claim is a conditional write to the audit table.
\<close>

definition alert_material :: "string \<Rightarrow> string \<Rightarrow> string \<Rightarrow> string \<Rightarrow> string" where
  "alert_material det rid st sev = join ''|'' [det, rid, st, sev]"

definition fingerprint :: "string \<Rightarrow> string \<Rightarrow> string \<Rightarrow> string \<Rightarrow> string" where
  "fingerprint det rid st sev = take 32 (sha256_hex (alert_material det rid st sev))"

definition claim_item :: "string \<Rightarrow> int \<Rightarrow> int \<Rightarrow> string \<Rightarrow> pydict" where
  "claim_item k now window stamp =
     [(''pk'', VStr (''DEDUP#'' @ k)),
      (''sk'', VStr ''ALERT''),
      (''expires_at'', VInt (now + window)),
      (''claimed_at'', VStr stamp)]"

definition claim_call :: "string \<Rightarrow> string \<Rightarrow> int \<Rightarrow> int \<Rightarrow> string \<Rightarrow> call" where
  "claim_call tb k now window stamp =
     PutItem tb (claim_item k now window stamp)
       (Some ''attribute_not_exists(pk) OR expires_at < :now'') [('':now'', VInt now)]"

text \<open>A \<open>Deduplicator\<close> is its table and its window.\<close>

record deduplicator =
  dedup_table :: string
  dedup_window :: int

definition new_deduplicator :: "string \<Rightarrow> int \<Rightarrow> deduplicator" where
  "new_deduplicator tb window = \<lparr>dedup_table = tb, dedup_window = window\<rparr>"

definition dedup_claim :: "'w env \<Rightarrow> string \<Rightarrow> int \<Rightarrow> string \<Rightarrow> int option \<Rightarrow> ('w, bool) run" where
  "dedup_claim env tb window k at =
     bind (case at of None \<Rightarrow> epoch env | Some a \<Rightarrow> ret a) (\<lambda>now.
     try_except
       (bind (iso env) (\<lambda>stamp.
        bind (do_call env (claim_call tb k now window stamp)) (\<lambda>_. ret True)))
       (\<lambda>e. if exn_name e = ''ConditionalCheckFailedException'' then ret False else throw e))"

text \<open>How a claim runs: always exactly one write, and what its answer decides.\<close>

lemma dedup_claimE [consumes 1, case_names won lost broken]:
  assumes "dedup_claim env tb window k at s = (r, t, s')"
  obtains (won) now stamp v where "r = Inr True" and "t = [(claim_call tb k now window stamp, Inr v)]"
      and "webhook_cache s' = webhook_cache s"
  | (lost) now stamp e where "r = Inr False" and "t = [(claim_call tb k now window stamp, Inl e)]"
      and "exn_name e = ''ConditionalCheckFailedException''" and "webhook_cache s' = webhook_cache s"
  | (broken) now stamp e where "r = Inl e" and "t = [(claim_call tb k now window stamp, Inl e)]"
      and "exn_name e \<noteq> ''ConditionalCheckFailedException''" and "webhook_cache s' = webhook_cache s"
  using assms unfolding dedup_claim_def
  by (auto elim!: bindE try_exceptE epochE isoE do_callE simp: ret_def throw_def
      split: option.splits if_splits)

lemma pk_claim_item: "pk_of (claim_item k now window stamp) = ''DEDUP#'' @ k"
  by (simp add: pk_of_def claim_item_def dict_get_def)

lemma claim_is_alert: "is_alert (claim_call tb k now window stamp)"
  by (simp add: is_alert_def claim_call_def pk_claim_item startswith_def)

lemma emits_claim [emit_intros]: "emits is_alert (dedup_claim env tb window k at)"
  by (rule emitsI, erule dedup_claimE) (simp_all add: claim_is_alert)

lemma length_hex: "length (concat (map (\<lambda>b. hex2 (nat b)) bs)) = 2 * length bs"
  by (induction bs) (simp_all add: hex2_def)

lemma length_fingerprint [simp]: "length (fingerprint det rid st sev) = 32"
  by (simp add: fingerprint_def sha256_hex_def length_hex)

subsection \<open>What deduplication promises\<close>

lemma join_inj:
  assumes "CHR ''|'' \<notin> set a" and "CHR ''|'' \<notin> set a'" and "a @ CHR ''|'' # x = a' @ CHR ''|'' # x'"
  shows "a = a' \<and> x = x'"
proof -
  have "takeWhile (\<lambda>c. c \<noteq> CHR ''|'') (a @ CHR ''|'' # x) = a"
    using assms(1) by (intro takeWhile_eq_prefix) auto
  moreover have "takeWhile (\<lambda>c. c \<noteq> CHR ''|'') (a' @ CHR ''|'' # x') = a'"
    using assms(2) by (intro takeWhile_eq_prefix) auto
  ultimately have "a = a'" using assms(3) by metis
  with assms(3) show ?thesis by simp
qed

text \<open>
  The text an alert is identified by tells apart detection, resource, status and severity, so
  that (up to a collision of the digest) an alert for a resource that was skipped does not swallow the one
  for its remediation.
\<close>

lemma alert_material_distinct:
  assumes "\<forall>s\<in>{det, det', rid, rid', st, st'}. CHR ''|'' \<notin> set s"
    and "alert_material det rid st sev = alert_material det' rid' st' sev'"
  shows "det = det' \<and> rid = rid' \<and> st = st' \<and> sev = sev'"
proof -
  have m: "alert_material a b c d = a @ CHR ''|'' # b @ CHR ''|'' # c @ CHR ''|'' # d" for a b c d
    by (simp add: alert_material_def)
  have 1: "det = det' \<and> rid @ CHR ''|'' # st @ CHR ''|'' # sev = rid' @ CHR ''|'' # st' @ CHR ''|'' # sev'"
    using assms unfolding m by (intro join_inj) auto
  then have 2: "rid = rid' \<and> st @ CHR ''|'' # sev = st' @ CHR ''|'' # sev'"
    using assms(1) by (intro join_inj) auto
  then have "st = st' \<and> sev = sev'"
    using assms(1) by (intro join_inj) auto
  with 1 2 show ?thesis by simp
qed

definition dedup_env :: "pyval res \<Rightarrow> unit env" where
  "dedup_env a = \<lparr>perform = (\<lambda>c w. (a, w)), clock_now = (\<lambda>w.
     (\<lparr>year = 1970, month = 1, day = 1, hour = 0, minute = 0, second = 0, microsecond = 0\<rparr>, w))\<rparr>"

end
