(* ===== verification/Slack.thy ===== *)
theory Slack
  imports Contracts Dedup Redact PyJson
begin

text \<open>
  \<open>notifier/slack.py\<close>: the alert, as a pure function of the event, the outcome and the plan,
  and its delivery: claim the fingerprint, read the webhook secret once per container, post.
\<close>

fun severity_emoji :: "severity \<Rightarrow> string" where
  "severity_emoji INFO = '':information_source:''"
| "severity_emoji LOW = '':white_circle:''"
| "severity_emoji MEDIUM = '':large_yellow_circle:''"
| "severity_emoji HIGH = '':large_orange_circle:''"
| "severity_emoji CRITICAL = '':red_circle:''"

fun status_headline :: "status \<Rightarrow> string" where
  "status_headline APPLIED = ''remediated''"
| "status_headline DRY_RUN = ''would remediate (dry run)''"
| "status_headline SKIPPED = ''no action''"
| "status_headline ESCALATED = ''MANUAL ACTION REQUIRED''"
| "status_headline BLOCKED = ''remediation BLOCKED''"
| "status_headline FAILED = ''remediation FAILED''"

text \<open>The three characters of the messages that are not ASCII: em dash, bullet, middle dot.\<close>

definition dash :: string where
  "dash = [CHR 0xE2, CHR 0x80, CHR 0x94]"

definition bullet :: string where
  "bullet = [CHR 0xE2, CHR 0x80, CHR 0xA2]"

definition middle_dot :: string where
  "middle_dot = [CHR 0xC2, CHR 0xB7]"

subsection \<open>The payload\<close>

definition plain :: "string \<Rightarrow> string" where
  "plain v = scrub_text v"

definition code_text :: "string \<Rightarrow> string" where
  "code_text v = (let text = plain v in if text \<noteq> [] then ''`'' @ text @ ''`'' else ''`'' @ dash @ ''`'')"

definition render_blast_radius :: "pyval \<Rightarrow> string" where
  "render_blast_radius blast =
     (if is_mapping blast
      then join '', '' (map (\<lambda>(k, v). k @ ''='' @ py_str v) (sort_key fst (scrub_mapping (as_dict blast))))
      else py_str (scrub blast))"

definition mrkdwn :: "string \<Rightarrow> pyval" where
  "mrkdwn text = VDict [(''type'', VStr ''mrkdwn''), (''text'', VStr text)]"

definition text_section :: "string \<Rightarrow> pyval" where
  "text_section text = VDict [(''type'', VStr ''section''), (''text'', mrkdwn text)]"

definition labelled :: "string \<Rightarrow> string \<Rightarrow> string" where
  "labelled label body = ''*'' @ label @ ''*'' @ [CHR 0x0A] @ body"

definition alert_fields :: "detection_event \<Rightarrow> outcome \<Rightarrow> plan option \<Rightarrow> (string \<times> string) list" where
  "alert_fields ev out p =
     [(''Resource'', outcome_resource out),
      (''Account'', account_id ev @ '' ('' @ region ev @ '')''),
      (''Principal'', arn (principal ev)),
      (''Source IP'', source_ip ev),
      (''Severity'', severity_value (severity out)),
      (''Event'', source ev @ '' / '' @ event_id ev)] @
     (case p of
        Some q \<Rightarrow> (if blast_radius q \<noteq> []
                   then [(''Blast radius'', render_blast_radius (VDict (blast_radius q)))] else [])
      | None \<Rightarrow> [])"

definition alert_title :: "outcome \<Rightarrow> string \<Rightarrow> string" where
  "alert_title out env_name =
     severity_emoji (severity out) @ '' ['' @ env_name @ ''] '' @ detection_id out @ '' '' @ dash @ '' '' @
     status_headline (status out)"

definition snapshot_note :: "detection_event \<Rightarrow> string" where
  "snapshot_note ev =
     ''Prior state snapshotted to the audit table before any change '' @ middle_dot @ '' event time '' @
     plain (event_time ev)"

definition alert_blocks :: "detection_event \<Rightarrow> outcome \<Rightarrow> plan option \<Rightarrow> string \<Rightarrow> pyval list" where
  "alert_blocks ev out p env_name =
     [VDict [(''type'', VStr ''header''),
             (''text'', VDict [(''type'', VStr ''plain_text''),
                               (''text'', VStr (plain (alert_title out env_name)))])],
      VDict [(''type'', VStr ''section''),
             (''fields'', VList (map (\<lambda>(label, v). mrkdwn (labelled label (code_text v)))
                                  (alert_fields ev out p)))],
      text_section (labelled ''Why'' (plain (outcome_reason out)))] @
     (if actions out \<noteq> [] then
        [text_section (labelled
           (if status out = APPLIED then ''Actions taken'' else ''Actions withheld'')
           (join [CHR 0x0A] (map (\<lambda>a. bullet @ '' '' @ plain a) (actions out))))]
      else []) @
     (case error out of
        Some e \<Rightarrow> (if e \<noteq> [] then [text_section (labelled ''Error'' (code_text e))] else [])
      | None \<Rightarrow> []) @
     [VDict [(''type'', VStr ''context''), (''elements'', VList [mrkdwn (snapshot_note ev)])]]"

definition build_payload :: "detection_event \<Rightarrow> outcome \<Rightarrow> plan option \<Rightarrow> string \<Rightarrow> pydict" where
  "build_payload ev out p env_name =
     scrub_mapping [(''text'', VStr (alert_title out env_name)),
                    (''blocks'', VList (alert_blocks ev out p env_name))]"

subsection \<open>The webhook secret\<close>

text \<open>\<open>_extract_webhook\<close>: only a string has the methods it calls on the value it is given.\<close>

definition extract_webhook :: "pyval \<Rightarrow> string res" where
  "extract_webhook raw =
     (case raw of
        VStr s \<Rightarrow>
          (let stripped = strip s in
           if startswith stripped ''{'' then
             res_bind (json_loads stripped) (\<lambda>parsed.
             res_bind (py_get parsed ''webhook_url'' VNone) (\<lambda>a.
             res_bind (if truthy a then Inr a else py_get parsed ''url'' VNone) (\<lambda>b.
             Inr (strip (py_str (py_or b (VStr '''')))))))
           else Inr stripped)
      | VBytes s \<Rightarrow>
          Inl (TypeError ''startswith first arg must be bytes or a tuple of bytes, not str'')
      | _ \<Rightarrow> Inl (AttributeError (quoted (type_name raw) @ '' object has no attribute '' @ quoted ''strip'')))"

definition https :: string where
  "https = ''https://''"

definition set_webhook :: "string \<Rightarrow> ('w, unit) run" where
  "set_webhook url = (\<lambda>s. (Inr (), [], s\<lparr>webhook_cache := Some url\<rparr>))"

definition get_webhook :: "('w, string option) run" where
  "get_webhook = (\<lambda>s. (Inr (webhook_cache s), [], s))"

definition resolve_webhook :: "'w env \<Rightarrow> string \<Rightarrow> ('w, string option) run" where
  "resolve_webhook env secret_arn =
     bind get_webhook (\<lambda>cached.
     case cached of
       Some url \<Rightarrow> ret (Some url)
     | None \<Rightarrow>
         bind (try_except
           (bind (do_call env (GetSecretValue secret_arn)) (\<lambda>response.
            bind (lift (py_get response ''SecretString'' (VStr ''''))) (\<lambda>raw.
            bind (lift (extract_webhook raw)) (\<lambda>candidate.
            ret (Some candidate)))))
           (\<lambda>_. ret None)) (\<lambda>read.
         case read of
           None \<Rightarrow> ret None
         | Some candidate \<Rightarrow>
             (if \<not> startswith candidate https then ret None
              else bind (set_webhook candidate) (\<lambda>_. ret (Some candidate)))))"

text \<open>\<open>URLError\<close> and the two classes of \<open>urllib.error\<close> derived from it.\<close>

definition url_errors :: "string list" where
  "url_errors = [''URLError'', ''HTTPError'', ''ContentTooShortError'']"

definition slack_post :: "'w env \<Rightarrow> string \<Rightarrow> pydict \<Rightarrow> ('w, unit) run" where
  "slack_post env secret_arn payload =
     bind (resolve_webhook env secret_arn) (\<lambda>webhook.
     case webhook of
       None \<Rightarrow> ret ()
     | Some url \<Rightarrow>
         try_except
           (bind (do_call env (UrlOpen url (json_dumps False (VDict payload)))) (\<lambda>_. ret ()))
           (\<lambda>e. if exn_name e \<in> set url_errors then ret () else throw e))"

definition slack_notify ::
  "'w env \<Rightarrow> string \<Rightarrow> string \<Rightarrow> string \<Rightarrow> int \<Rightarrow> 'w notifier"
where
  "slack_notify env secret_arn tb env_name window ev out p =
     bind (dedup_claim env tb window
             (fingerprint (detection_id out) (outcome_resource out) (status_value (status out))
                (severity_value (severity out))) None) (\<lambda>claimed.
     if \<not> claimed then ret False
     else
       bind (slack_post env secret_arn (build_payload ev out p env_name)) (\<lambda>_. ret True))"

text \<open>
  A \<open>SlackNotifier\<close> without its webhook, which is the field \<open>webhook_cache\<close> of the state, and
  its \<open>notify\<close>.
\<close>

record slack_notifier =
  sn_secret_arn :: string
  sn_environment :: string
  sn_dedup :: deduplicator

definition new_slack_notifier :: "string \<Rightarrow> string \<Rightarrow> string \<Rightarrow> int \<Rightarrow> slack_notifier" where
  "new_slack_notifier secret_arn tb env_name window = \<lparr>
     sn_secret_arn = secret_arn, sn_environment = env_name, sn_dedup = new_deduplicator tb window\<rparr>"

definition notifier_of :: "'w env \<Rightarrow> slack_notifier \<Rightarrow> 'w notifier" where
  "notifier_of env sn =
     slack_notify env (sn_secret_arn sn) (dedup_table (sn_dedup sn)) (sn_environment sn)
       (dedup_window (sn_dedup sn))"

lemma notifier_of_new [simp]:
  "notifier_of env (new_slack_notifier secret_arn tb env_name window) = slack_notify env secret_arn tb env_name window"
  by (simp add: notifier_of_def new_slack_notifier_def new_deduplicator_def)

subsection \<open>How a delivery runs\<close>

lemma resolve_webhookE [consumes 1, case_names cached read unusable]:
  assumes "resolve_webhook env secret_arn s = (r, t, s')"
  obtains (cached) url where "webhook_cache s = Some url" and "r = Inr (Some url)" and "t = []" and "s' = s"
  | (read) url a where "webhook_cache s = None" and "startswith url https" and "r = Inr (Some url)"
      and "t = [(GetSecretValue secret_arn, a)]" and "webhook_cache s' = Some url"
  | (unusable) a where "webhook_cache s = None" and "r = Inr None"
      and "t = [(GetSecretValue secret_arn, a)]" and "webhook_cache s' = None"
  using assms unfolding resolve_webhook_def get_webhook_def set_webhook_def
  by (auto elim!: bindE try_exceptE do_callE simp: ret_def throw_def lift_def
      split: option.splits if_splits)

lemma slack_postE [consumes 1, case_names undeliverable posted]:
  assumes "slack_post env secret_arn payload s = (r, t, s')"
  obtains (undeliverable) t1 where "resolve_webhook env secret_arn s = (Inr None, t1, s')"
      and "r = Inr ()" and "t = t1"
  | (posted) url t1 s1 a where "resolve_webhook env secret_arn s = (Inr (Some url), t1, s1)"
      and "t = t1 @ [(UrlOpen url (json_dumps False (VDict payload)), a)]"
      and "webhook_cache s' = webhook_cache s1"
      and "r = (case a of Inr _ \<Rightarrow> Inr ()
                | Inl e \<Rightarrow> if exn_name e \<in> set url_errors then Inr () else Inl e)"
proof -
  from assms[unfolded slack_post_def] show ?thesis
  proof (cases rule: bindE)
    case (raised e)
    then show ?thesis by (auto elim!: resolve_webhookE)
  next
    case (returned w t1 s1 t2)
    show ?thesis
    proof (cases w)
      case None
      with returned show ?thesis by (intro undeliverable [of t1]) (auto simp: ret_def)
    next
      case (Some url)
      with returned obtain a where "t2 = [(UrlOpen url (json_dumps False (VDict payload)), a)]"
        and "webhook_cache s' = webhook_cache s1"
        and "r = (case a of Inr _ \<Rightarrow> Inr ()
                  | Inl e \<Rightarrow> if exn_name e \<in> set url_errors then Inr () else Inl e)"
        by (auto elim!: bindE try_exceptE do_callE simp: ret_def throw_def split: if_splits)
      with Some returned show ?thesis by (intro posted [of url t1 s1 a]) auto
    qed
  qed
qed

lemma emits_slack_post [emit_intros]: "emits is_alert (slack_post env secret_arn payload)"
  by (rule emitsI) (auto simp: is_alert_def elim!: slack_postE resolve_webhookE)

interpretation slack: notifier_contract "slack_notify env secret_arn tb env_name window"
  for env secret_arn tb env_name window
  by unfold_locales (auto simp: slack_notify_def intro!: emit_intros)

subsection \<open>What an alert promises\<close>

text \<open>
  Whatever event, outcome and plan an alert is built from, the payload is clean: no text in it
  holds a webhook URL or a Slack token, and nothing in it is over-long or raw bytes.
\<close>

lemma payload_clean: "clean (VDict (build_payload ev out p env_name))"
  unfolding build_payload_def scrub_mapping_scrub [symmetric] by (rule scrub_cleans)

lemma scrub_mapping_sensitive:
  "key_is_sensitive k \<Longrightarrow> scrub_mapping (a @ (k, v) # b) = scrub_mapping (a @ (k, v') # b)"
  by (simp add: scrub_mapping_def)

text \<open>
  C37: the alert does not depend on what stands under a sensitive key of the blast radius: it is
  redacted before the mapping is flattened to text.
\<close>

theorem payload_hides_sensitive:
  assumes "key_is_sensitive k"
  shows "build_payload ev out (Some (q\<lparr>blast_radius := a @ (k, v) # b\<rparr>)) env_name =
         build_payload ev out (Some (q\<lparr>blast_radius := a @ (k, v') # b\<rparr>)) env_name"
  using scrub_mapping_sensitive [OF assms, of a v b v']
  by (simp add: build_payload_def alert_blocks_def alert_fields_def render_blast_radius_def)

definition quiet_outcome :: outcome where
  "quiet_outcome = \<lparr>detection_id = ''sg-open'', status = APPLIED, severity = HIGH, outcome_resource = ''sg-1'',
     outcome_reason = ''r'', actions = [], error = None\<rparr>"

definition quiet_event :: detection_event where
  "quiet_event = \<lparr>event_id = ''e'', event_time = ''t'', source = ''aws.ec2'', account_id = ''1'',
     region = ''eu-west-1'', principal = \<lparr>arn = ''a'', ptype = ''IAMUser'', pname = ''m'', paccount_id = ''1''\<rparr>,
     source_ip = ''192.0.2.1'', user_agent = ''aws-cli'', detail = []\<rparr>"

definition quiet_plan :: plan where
  "quiet_plan = \<lparr>resource_id = ''sg-1'', resource_arn = ''arn'', reason = ''r'', plan_severity = HIGH,
     snapshot = [], tags = [], blast_radius = [], intended_actions = []\<rparr>"

theorem payload_hides_sensitive_witness:
  "build_payload quiet_event quiet_outcome
     (Some (quiet_plan\<lparr>blast_radius := [] @ (''sessionToken'', VStr ''FwoGZXIvYXdz'') # []\<rparr>)) ''prod'' =
   build_payload quiet_event quiet_outcome
     (Some (quiet_plan\<lparr>blast_radius := [] @ (''sessionToken'', VNone) # []\<rparr>)) ''prod''"
  by (rule payload_hides_sensitive) code_simp

text \<open>The webhook a container keeps is always an https URL.\<close>

definition wf_cache :: "'w st \<Rightarrow> bool" where
  "wf_cache s \<longleftrightarrow> (\<forall>url. webhook_cache s = Some url \<longrightarrow> startswith url https)"

lemma resolve_webhook_https:
  assumes "resolve_webhook env secret_arn s = (r, t, s')" and "wf_cache s"
  shows "wf_cache s'" and "r = Inr (Some url) \<Longrightarrow> startswith url https"
    and "\<forall>e\<in>set t. \<exists>a. e = (GetSecretValue secret_arn, a)"
  using assms by (cases rule: resolve_webhookE; auto simp: wf_cache_def)+

text \<open>
  C38: an alert is posted at most once per notification, only after its claim was granted, only to
  an https URL, and its body is the redacted payload; the container's webhook stays an https URL.
\<close>

theorem alert_posted_safely:
  assumes "slack_notify env secret_arn tb env_name window ev out p s = (r, t, s')" and "wf_cache s"
  shows "wf_cache s' \<and>
         (\<forall>url body a. (UrlOpen url body, a) \<in> set t \<longrightarrow>
            startswith url https \<and> body = json_dumps False (VDict (build_payload ev out p env_name)) \<and>
            (\<exists>k now stamp v. hd t = (claim_call tb k now window stamp, Inr v))) \<and>
         length (filter (\<lambda>e. \<exists>url body. fst e = UrlOpen url body) t) \<le> 1"
proof -
  let ?k = "fingerprint (detection_id out) (outcome_resource out) (status_value (status out))
              (severity_value (severity out))"
  let ?post = "slack_post env secret_arn (build_payload ev out p env_name)"
  have same: "wf_cache s1" if "webhook_cache s1 = webhook_cache s" for s1
    using assms(2) that by (simp add: wf_cache_def)
  from assms(1) consider now stamp e where "t = [(claim_call tb ?k now window stamp, Inl e)]"
      "webhook_cache s' = webhook_cache s"
    | now stamp v s1 r2 t2 where "t = (claim_call tb ?k now window stamp, Inr v) # t2" "?post s1 = (r2, t2, s')"
      "webhook_cache s1 = webhook_cache s"
    unfolding slack_notify_def by (auto elim!: bindE dedup_claimE simp: ret_def)
  then show ?thesis
  proof cases
    case 1
    then show ?thesis using same by (simp add: claim_call_def)
  next
    case 2
    from 2(2) show ?thesis
    proof (cases rule: slack_postE)
      case (undeliverable t1)
      note h = resolve_webhook_https [OF undeliverable(1) same [OF 2(3)]]
      have "filter (\<lambda>e. \<exists>url body. fst e = UrlOpen url body) t1 = []"
        using h(3) by (auto simp: filter_empty_conv)
      then show ?thesis using 2(1) undeliverable(3) h by (auto simp: claim_call_def)
    next
      case (posted url t1 s2 a)
      note h = resolve_webhook_https [OF posted(1) same [OF 2(3)]]
      have "filter (\<lambda>e. \<exists>url body. fst e = UrlOpen url body) t1 = []"
        using h(3) by (auto simp: filter_empty_conv)
      moreover have "wf_cache s'" using h(1) posted(3) by (simp add: wf_cache_def)
      ultimately show ?thesis using 2(1) posted(2) h by (auto simp: claim_call_def)
    qed
  qed
qed

theorem alert_posted_safely_witness:
  "wf_cache (snd (snd (slack_notify (dedup_env (Inr (VDict []))) ''secret'' ''pac'' ''prod'' 900
     quiet_event quiet_outcome None \<lparr>ext = (), webhook_cache = Some ''https://x''\<rparr>)))"
proof -
  obtain r t s' where run: "slack_notify (dedup_env (Inr (VDict []))) ''secret'' ''pac'' ''prod'' 900
     quiet_event quiet_outcome None \<lparr>ext = (), webhook_cache = Some ''https://x''\<rparr> = (r, t, s')"
    using prod_cases3 by blast
  have "wf_cache \<lparr>ext = (), webhook_cache = Some ''https://x''\<rparr>"
    by (simp add: wf_cache_def https_def startswith_def)
  from alert_posted_safely [OF run this] show ?thesis by (simp add: run)
qed

text \<open>
  C39: a post that fails with \<open>URLError\<close> or one of its subclasses is swallowed; any other exception of
  \<open>urlopen\<close>, such as a connection the peer closed or a read that timed out, is raised to the caller.
\<close>

theorem delivery_failure:
  assumes "webhook_cache s = Some url"
    and "perform env (UrlOpen url (json_dumps False (VDict payload))) (ext s) = (Inl e, w)"
  shows "result (slack_post env secret_arn payload s) =
     (if exn_name e \<in> {''URLError'', ''HTTPError'', ''ContentTooShortError''} then Inr () else Inl e)"
  using assms
  by (simp add: slack_post_def resolve_webhook_def get_webhook_def bind_def ret_def throw_def try_except_def
      do_call_def url_errors_def)

theorem delivery_failure_witness:
  "result (slack_post (dedup_env (Inl (External ''RemoteDisconnected'' ''closed'' None))) ''secret'' []
     \<lparr>ext = (), webhook_cache = Some ''https://x''\<rparr>) = Inl (External ''RemoteDisconnected'' ''closed'' None)"
  by (subst delivery_failure [of _ "''https://x''" _ _ "External ''RemoteDisconnected'' ''closed'' None" "()"])
     (simp_all add: dedup_env_def)

end
