(* ===== verification/Entrypoint.thy ===== *)
theory Entrypoint
  imports Runtime SgOpen S3Public IamKeyLeak Slack
begin

text \<open>
  \<open>remediations/common/entrypoint.py\<close>: the Lambda handler of each detection, with the state its
  container keeps between invocations. \<open>AwsClients\<close> is its own theory; here a container only
  knows whether it has been made, and making it (a boto3 session) may raise.
\<close>

text \<open>The three modules that end in \<open>lambda_handler = build(...)\<close>.\<close>

datatype handler = SG_OPEN | S3_PUBLIC | IAM_KEY_LEAK

fun detector :: "'w env \<Rightarrow> handler \<Rightarrow> 'w detection" where
  "detector env SG_OPEN = sg_open env"
| "detector env S3_PUBLIC = s3_public env"
| "detector env IAM_KEY_LEAK = iam_key_leak env"

definition build_notifier :: "'w env \<Rightarrow> config \<Rightarrow> 'w notifier" where
  "build_notifier env cfg =
     (case slack_secret_arn cfg of
        None \<Rightarrow> null_notify
      | Some secret \<Rightarrow>
          (if secret = [] then null_notify
           else notifier_of env
                  (new_slack_notifier secret (table_name cfg) (environment cfg) (dedup_window_seconds cfg))))"

text \<open>
  What \<open>_Container\<close> holds. The notifier is built from the configuration the container already
  holds, so its field is the configuration it was built with.
\<close>

record container =
  c_config :: "config option"
  c_aws :: "unit option"
  c_notifier :: "config option"

definition new_container :: container where
  "new_container = \<lparr>c_config = None, c_aws = None, c_notifier = None\<rparr>"

text \<open>
  \<open>resolve\<close>: \<open>session\<close> is the outcome of \<open>AwsClients()\<close> and \<open>table_ok\<close> that of
  \<open>aws.table(...)\<close>, both boto3's.
\<close>

definition get_config :: "(string \<rightharpoonup> string) \<Rightarrow> container \<Rightarrow> config res \<times> container" where
  "get_config vars c =
     (case c_config c of
        Some cfg \<Rightarrow> (Inr cfg, c)
      | None \<Rightarrow>
          (case from_env vars of
             Inl e \<Rightarrow> (Inl e, c)
           | Inr cfg \<Rightarrow> (Inr cfg, c\<lparr>c_config := Some cfg\<rparr>)))"

definition get_aws :: "unit res \<Rightarrow> container \<Rightarrow> unit res \<times> container" where
  "get_aws session c =
     (case c_aws c of
        Some a \<Rightarrow> (Inr a, c)
      | None \<Rightarrow>
          (case session of
             Inl e \<Rightarrow> (Inl e, c)
           | Inr a \<Rightarrow> (Inr a, c\<lparr>c_aws := Some a\<rparr>)))"

definition get_notifier :: "unit res \<Rightarrow> config \<Rightarrow> container \<Rightarrow> config res \<times> container" where
  "get_notifier table_ok cfg c =
     (case c_notifier c of
        Some n \<Rightarrow> (Inr n, c)
      | None \<Rightarrow>
          (case (if slack_secret_arn cfg \<in> {None, Some []} then Inr () else table_ok) of
             Inl e \<Rightarrow> (Inl e, c)
           | Inr _ \<Rightarrow> (Inr cfg, c\<lparr>c_notifier := Some cfg\<rparr>)))"

definition resolve ::
  "(string \<rightharpoonup> string) \<Rightarrow> unit res \<Rightarrow> unit res \<Rightarrow> container \<Rightarrow> (config \<times> config) res \<times> container"
where
  "resolve vars session table_ok c =
     (case get_config vars c of
        (Inl e, c1) \<Rightarrow> (Inl e, c1)
      | (Inr cfg, c1) \<Rightarrow>
          (case get_aws session c1 of
             (Inl e, c2) \<Rightarrow> (Inl e, c2)
           | (Inr _, c2) \<Rightarrow>
               (case get_notifier table_ok cfg c2 of
                  (Inl e, c3) \<Rightarrow> (Inl e, c3)
                | (Inr n, c3) \<Rightarrow> (Inr (cfg, n), c3))))"

definition summary :: "outcome \<Rightarrow> pydict" where
  "summary out =
     [(''detection'', VStr (detection_id out)),
      (''status'', VStr (status_value (status out))),
      (''severity'', VStr (severity_value (severity out))),
      (''resource'', VStr (outcome_resource out)),
      (''reason'', VStr (outcome_reason out)),
      (''actions'', strs (actions out)),
      (''error'', opt_str (error out))]"

text \<open>One invocation, with what the process environment and boto3 are at that moment.\<close>

definition lambda_handler ::
  "'w env \<Rightarrow> handler \<Rightarrow> (string \<rightharpoonup> string) \<Rightarrow> unit res \<Rightarrow> unit res \<Rightarrow> container \<Rightarrow> pydict
   \<Rightarrow> container \<times> ('w, pydict) run"
where
  "lambda_handler env h vars session table_ok c raw =
     (case resolve vars session table_ok c of
        (Inl e, c') \<Rightarrow> (c', throw e)
      | (Inr (cfg, n), c') \<Rightarrow>
          (c', bind (execute env (detector env h) raw cfg (build_notifier env n)) (\<lambda>out.
               ret (summary out))))"

subsection \<open>The deployed pipelines\<close>

lemma detector_reads: "emits is_read (plan_of (detector env h) ev)"
  using sg.plan_reads s3.plan_reads iam.plan_reads by (cases h) auto

lemma detector_remediates: "emits is_remediation (apply_of (detector env h) p)"
  using sg.apply_remediates s3.apply_remediates iam.apply_remediates by (cases h) auto

lemma notifier_alerts: "emits is_alert (build_notifier env cfg ev out p)"
  using null.notify_alerts slack.notify_alerts by (auto simp: build_notifier_def split: option.splits)

interpretation deployed: pipeline "detector env h" "build_notifier env cfg" for env h cfg
  by unfold_locales (rule detector_reads detector_remediates notifier_alerts)+

subsection \<open>Containers\<close>

text \<open>A notifier is only ever built from the configuration beside it.\<close>

definition wf_container :: "container \<Rightarrow> bool" where
  "wf_container c \<longleftrightarrow>
     (\<forall>cfg. c_config c = Some cfg \<longrightarrow> wf_config cfg) \<and>
     (\<forall>n. c_notifier c = Some n \<longrightarrow> c_config c = Some n)"

lemma wf_new_container: "wf_container new_container"
  by (simp add: wf_container_def new_container_def)

lemma get_configE [consumes 1, case_names failed found]:
  assumes "get_config vars c = (r, c')"
  obtains (failed) e where "r = Inl e" and "c' = c" and "c_config c = None" and "from_env vars = Inl e"
  | (found) cfg where "r = Inr cfg" and "c_config c' = Some cfg"
      and "c_aws c' = c_aws c" and "c_notifier c' = c_notifier c"
      and "c_config c = Some cfg \<or> c_config c = None \<and> from_env vars = Inr cfg"
proof (cases "c_config c")
  case None
  show ?thesis
  proof (cases "from_env vars")
    case (Inl e)
    with None assms show ?thesis by (intro failed [of e]) (auto simp: get_config_def)
  next
    case (Inr cfg)
    with None assms show ?thesis by (intro found [of cfg]) (auto simp: get_config_def)
  qed
next
  case (Some cfg)
  with assms show ?thesis by (intro found [of cfg]) (auto simp: get_config_def)
qed

lemma get_awsE [consumes 1, case_names failed found]:
  assumes "get_aws session c = (r, c')"
  obtains (failed) e where "r = Inl e" and "c' = c" and "c_aws c = None" and "session = Inl e"
  | (found) "r = Inr ()" and "c_aws c' = Some ()"
      and "c_config c' = c_config c" and "c_notifier c' = c_notifier c"
  using assms by (auto simp: get_aws_def split: option.splits sum.splits)

lemma get_notifierE [consumes 1, case_names failed found]:
  assumes "get_notifier table_ok cfg c = (r, c')"
  obtains (failed) e where "r = Inl e" and "c' = c" and "table_ok = Inl e"
  | (found) n where "r = Inr n" and "c_notifier c' = Some n" and "c_config c' = c_config c"
      and "c_aws c' = c_aws c" and "n = cfg \<or> c_notifier c = Some n"
  using assms by (auto simp: get_notifier_def split: option.splits sum.splits if_splits)

lemma wf_container_intro:
  "(\<And>cfg. c_config c = Some cfg \<Longrightarrow> wf_config cfg) \<Longrightarrow>
   (\<And>n. c_notifier c = Some n \<Longrightarrow> c_config c = Some n) \<Longrightarrow> wf_container c"
  by (simp add: wf_container_def)

lemma wf_containerD:
  "wf_container c \<Longrightarrow> c_config c = Some cfg \<Longrightarrow> wf_config cfg"
  "wf_container c \<Longrightarrow> c_notifier c = Some n \<Longrightarrow> c_config c = Some n"
  by (simp_all add: wf_container_def)

lemma wf_container_built:
  assumes "wf_container c" and "c_config c = Some cfg \<or> c_config c = None \<and> from_env vars = Inr cfg"
    and "c_config c' = Some cfg" and "c_notifier c' = c_notifier c"
  shows "wf_container c'"
proof (rule wf_container_intro)
  show "wf_config k" if "c_config c' = Some k" for k
    using that assms(2,3) wf_containerD(1) [OF assms(1)] from_env_wf by fastforce
  show "c_config c' = Some n" if "c_notifier c' = Some n" for n
    using wf_containerD(2) [OF assms(1), of n] that assms(2,3,4) by auto
qed

lemma get_config_found:
  assumes "get_config vars c = (Inr cfg, c1)"
  shows "c_config c1 = Some cfg" and "c_notifier c1 = c_notifier c"
    and "c_config c = Some cfg \<or> c_config c = None \<and> from_env vars = Inr cfg"
  using assms by (cases rule: get_configE; blast)+

lemma get_aws_keeps:
  assumes "get_aws session c = (r, c1)"
  shows "c_config c1 = c_config c" and "c_notifier c1 = c_notifier c"
  using assms by (cases rule: get_awsE; simp)+

lemma resolve_steps:
  assumes "resolve vars session table_ok c = (r, c')"
  obtains (config) e where "get_config vars c = (Inl e, c')" and "r = Inl e"
  | (aws) cfg c1 e where "get_config vars c = (Inr cfg, c1)" and "get_aws session c1 = (Inl e, c')"
      and "r = Inl e"
  | (notifier) cfg c1 c2 a e where "get_config vars c = (Inr cfg, c1)" and "get_aws session c1 = (Inr a, c2)"
      and "get_notifier table_ok cfg c2 = (Inl e, c')" and "r = Inl e"
  | (built) cfg c1 c2 a n where "get_config vars c = (Inr cfg, c1)" and "get_aws session c1 = (Inr a, c2)"
      and "get_notifier table_ok cfg c2 = (Inr n, c')" and "r = Inr (cfg, n)"
  using assms unfolding resolve_def by (auto split: prod.splits sum.splits)

text \<open>A container that resolves holds one valid configuration, for itself and for its notifier.\<close>

lemma resolve_built:
  assumes "resolve vars session table_ok c = (Inr (cfg, n), c')" and "wf_container c"
  shows "n = cfg \<and> wf_config cfg \<and> wf_container c' \<and> c_config c' = Some cfg \<and>
         (c_config c = Some cfg \<or> c_config c = None \<and> from_env vars = Inr cfg)"
  using assms(1)
proof (cases rule: resolve_steps)
  case (built k c1 c2 a m)
  have km: "k = cfg" "m = n" using built(4) by simp_all
  note c1 = get_config_found [OF built(1) [unfolded km]]
  have c2: "c_config c2 = Some cfg" "c_notifier c2 = c_notifier c"
    by (simp_all add: get_aws_keeps [OF built(2)] c1(1,2))
  from built(3) have c3: "c_notifier c' = Some n" "c_config c' = Some cfg" "n = cfg \<or> c_notifier c = Some n"
    by (cases rule: get_notifierE; simp add: c2 km)+
  have wf: "wf_config cfg" using c1(3) wf_containerD(1) [OF assms(2)] from_env_wf by blast
  have n: "n = cfg" using c3(3) c1(3) wf_containerD(2) [OF assms(2)] by auto
  show ?thesis using c1(3) c3 wf n by (auto intro: wf_container_intro)
qed simp_all

lemma resolve_failed:
  assumes "resolve vars session table_ok c = (Inl e, c')" and "wf_container c"
  shows "wf_container c' \<and> (c_config c = None \<or> c_config c' = c_config c)"
  using assms(1)
proof (cases rule: resolve_steps)
  case (config x)
  from config(1) show ?thesis using assms(2) by (cases rule: get_configE) simp_all
next
  case (aws cfg c1 x)
  note c1 = get_config_found [OF aws(1)]
  have "wf_container c'"
    by (rule wf_container_built [OF assms(2) c1(3)]) (simp_all add: get_aws_keeps [OF aws(2)] c1(1,2))
  moreover have "c_config c' = Some cfg" by (simp add: get_aws_keeps [OF aws(2)] c1(1))
  ultimately show ?thesis using c1(3) by metis
next
  case (notifier cfg c1 c2 a x)
  note c1 = get_config_found [OF notifier(1)]
  have c': "c' = c2" using notifier(3) by (cases rule: get_notifierE) simp_all
  have "wf_container c'"
    by (rule wf_container_built [OF assms(2) c1(3)]) (simp_all add: c' get_aws_keeps [OF notifier(2)] c1(1,2))
  moreover have "c_config c' = Some cfg" by (simp add: c' get_aws_keeps [OF notifier(2)] c1(1))
  ultimately show ?thesis using c1(3) by metis
qed simp

subsection \<open>What the handler promises\<close>

text \<open>
  C30: an invocation that returns ran the pipeline of its detection under one valid configuration,
  the one the container keeps, with the notifier built from that configuration, and returns the
  summary of the outcome.
\<close>

theorem handler_runs_pipeline:
  assumes "lambda_handler env h vars session table_ok c raw = (c', m)" and "wf_container c"
    and "m s = (Inr sm, t, s')"
  shows "\<exists>cfg out. wf_config cfg \<and> c_config c' = Some cfg \<and> wf_container c' \<and>
           (c_config c = Some cfg \<or> c_config c = None \<and> from_env vars = Inr cfg) \<and>
           execute env (detector env h) raw cfg (build_notifier env cfg) s = (Inr out, t, s') \<and>
           sm = summary out"
proof -
  obtain r c1 where res: "resolve vars session table_ok c = (r, c1)" by force
  show ?thesis
  proof (cases r)
    case (Inl e)
    with assms(1,3) res show ?thesis by (auto simp: lambda_handler_def throw_def)
  next
    case (Inr x)
    obtain cfg n where x: "x = (cfg, n)" by force
    from res Inr x have res': "resolve vars session table_ok c = (Inr (cfg, n), c1)" by simp
    note b = resolve_built [OF res' assms(2)]
    have c': "c' = c1"
      and m: "m = bind (execute env (detector env h) raw cfg (build_notifier env n)) (\<lambda>out. ret (summary out))"
      using assms(1) by (simp_all add: lambda_handler_def res')
    from assms(3) [unfolded m] obtain out where
      "execute env (detector env h) raw cfg (build_notifier env cfg) s = (Inr out, t, s')" "sm = summary out"
      using b by (auto elim!: bindE simp: ret_def)
    with b c' show ?thesis by blast
  qed
qed

text \<open>
  A container without a configuration whose variables are refused raises before any call is
  made, and stays without one, so the next invocation raises again: a misconfiguration is never half applied.
\<close>

lemma handler_misconfigured:
  assumes "c_config c = None" and "from_env vars = Inl e"
  shows "lambda_handler env h vars session table_ok c raw = (c, throw e)"
  using assms by (simp add: lambda_handler_def resolve_def get_config_def)

lemma handler_misconfigured_witness:
  "lambda_handler (dedup_env (Inr VNone)) SG_OPEN Map.empty (Inr ()) (Inr ()) new_container [] =
     (new_container, throw (ConfigError ''PAC_DETECTION_ID is required''))"
  by (rule handler_misconfigured) (simp_all add: new_container_def from_env_def env_text_def)

end
