(* ===== verification/History.thy ===== *)
theory History
  imports Entrypoint
begin

text \<open>
  Several invocations at once. A history is the order in which the external calls of all
  invocations took effect, each tagged with its invocation. What the code relies on in DynamoDB
  is stated here as predicates on histories: an \<open>ADD\<close> is atomic, and a conditional write is
  checked against the item that is stored when it takes effect.
\<close>

type_synonym history = "(nat \<times> event) list"

definition of_run :: "nat \<Rightarrow> history \<Rightarrow> event list" where
  "of_run i h = map snd (filter (\<lambda>e. fst e = i) h)"

text \<open>Every invocation of the history is a run of \<open>execute\<close> for one of the detections.\<close>

definition runs_of :: "'w itself \<Rightarrow> config \<Rightarrow> history \<Rightarrow> bool" where
  "runs_of w cfg h \<longleftrightarrow>
     (\<forall>i\<in>fst ` set h. \<exists>(env :: 'w env) d raw s r s'.
        execute env (detector env d) raw cfg (build_notifier env cfg) s = (r, of_run i h, s'))"

lemma of_run_mem: "e \<in> set (of_run i h) \<longleftrightarrow> (i, e) \<in> set h"
  by (force simp: of_run_def)

subsection \<open>The circuit breaker\<close>

text \<open>
  A counted attempt on the counter of window \<open>ws\<close>. The counter is atomic: an attempt reads at
  least one more than the number of attempts counted before it.
\<close>

definition counted :: "config \<Rightarrow> int \<Rightarrow> event \<Rightarrow> bool" where
  "counted cfg ws e \<longleftrightarrow> (\<exists>n. breaker_event cfg ws n e)"

definition atomic_counter :: "config \<Rightarrow> history \<Rightarrow> bool" where
  "atomic_counter cfg h \<longleftrightarrow>
     (\<forall>pre i e post ws n. h = pre @ (i, e) # post \<longrightarrow> breaker_event cfg ws n e \<longrightarrow>
        int (length (filter (\<lambda>x. counted cfg ws (snd x)) pre)) < n)"

text \<open>The events of a history that were admitted: counted, at or under the limit.\<close>

definition admitted :: "config \<Rightarrow> int \<Rightarrow> event \<Rightarrow> bool" where
  "admitted cfg ws e \<longleftrightarrow> (\<exists>n. breaker_event cfg ws n e \<and> n \<le> circuit_breaker_max_actions cfg)"

lemma admitted_counted: "admitted cfg ws e \<Longrightarrow> counted cfg ws e"
  by (auto simp: admitted_def counted_def)

lemma breaker_event_inj: "breaker_event cfg ws n e \<Longrightarrow> breaker_event cfg ws m e \<Longrightarrow> n = m"
  by (auto simp: breaker_event_def)

lemma atomic_prefix: "atomic_counter cfg (pre @ post) \<Longrightarrow> atomic_counter cfg pre"
  by (auto simp: atomic_counter_def)

lemma admitted_bound:
  assumes "atomic_counter cfg h" and "0 \<le> circuit_breaker_max_actions cfg"
  shows "int (length (filter (\<lambda>x. admitted cfg ws (snd x)) h)) \<le> circuit_breaker_max_actions cfg"
  using assms(1)
proof (induction h rule: rev_induct)
  case Nil
  then show ?case using assms(2) by simp
next
  case (snoc x h)
  show ?case
  proof (cases "admitted cfg ws (snd x)")
    case False
    with snoc atomic_prefix show ?thesis by fastforce
  next
    case True
    then obtain n where n: "breaker_event cfg ws n (snd x)" "n \<le> circuit_breaker_max_actions cfg"
      by (auto simp: admitted_def)
    have "int (length (filter (\<lambda>x. counted cfg ws (snd x)) h)) < n"
      using snoc.prems n(1) by (cases x) (auto simp: atomic_counter_def)
    moreover have "length (filter (\<lambda>x. admitted cfg ws (snd x)) h) \<le>
        length (filter (\<lambda>x. counted cfg ws (snd x)) h)"
      by (induction h) (auto dest: admitted_counted)
    ultimately show ?thesis using True n(2) by simp
  qed
qed

text \<open>An invocation that changed a resource, counted in window \<open>ws\<close>.\<close>

definition acted_in :: "config \<Rightarrow> int \<Rightarrow> event list \<Rightarrow> bool" where
  "acted_in cfg ws t \<longleftrightarrow> (\<exists>e\<in>set t. is_remediation (fst e)) \<and> (\<exists>e\<in>set t. counted cfg ws e)"

lemma counted_fst: "counted cfg ws e \<Longrightarrow> write_pk (fst e) = Some (''CB#'' @ cfg_detection_id cfg)"
  by (auto simp: counted_def breaker_event_def breaker_update_def pk_breaker_key)

lemma not_counted:
  "is_read (fst e) \<Longrightarrow> \<not> counted cfg ws e"
  "is_remediation (fst e) \<Longrightarrow> \<not> counted cfg ws e"
  "tail_call (fst e) \<Longrightarrow> \<not> counted cfg ws e"
proof -
  show "is_read (fst e) \<Longrightarrow> \<not> counted cfg ws e"
    using counted_fst by (cases "fst e") fastforce+
  show "is_remediation (fst e) \<Longrightarrow> \<not> counted cfg ws e"
    using counted_fst by (cases "fst e") fastforce+
  show "tail_call (fst e) \<Longrightarrow> \<not> counted cfg ws e"
    using counted_fst [of cfg ws e]
    by (cases "fst e") (auto simp: tail_call_def is_alert_def writes_under_def startswith_def)
qed

text \<open>A run that changed a resource was admitted in the one window it was counted in.\<close>

lemma acted_admitted:
  assumes "execute env (detector env d) raw cfg (build_notifier env cfg) s = (r, t, s')"
    and "acted_in cfg ws t"
  obtains e where "e \<in> set t" and "admitted cfg ws e"
proof -
  obtain a c where a: "a \<in> set t" "is_remediation (fst a)" and c: "c \<in> set t" "counted cfg ws c"
    using assms(2) by (auto simp: acted_in_def)
  obtain ev p t1 s1 eo ws' n eb s2 r2 t2 s3 t3 where
      run: "opened cfg ev p eo" "breaker_event cfg ws' n eb" "n \<le> circuit_breaker_max_actions cfg"
        "apply_of (detector env d) p s2 = (r2, t2, s3)" "t = t1 @ [eo, eb] @ t2 @ t3"
        "list_all (\<lambda>e. is_read (fst e)) t1" "list_all (\<lambda>e. tail_call (fst e)) t3"
    using deployed.acting_run [OF assms(1) a] by metis
  have "list_all (\<lambda>e. is_remediation (fst e)) t2" by (rule emitsD [OF detector_remediates run(4)])
  moreover have "\<not> counted cfg ws eo"
    using run(1) counted_fst [of cfg ws eo]
    by (auto simp: opened_def pk_open_item)
  ultimately have "c = eb"
    using c run(5,6,7) not_counted [of c cfg ws] by (auto simp: list_all_iff)
  with c(2) run(2) have "ws' = ws"
    by (auto simp: counted_def breaker_event_def breaker_update_def breaker_key_def)
  with run show ?thesis by (intro that [of eb]) (auto simp: admitted_def)
qed

lemma card_tags_le: "card {i. \<exists>e. (i, e) \<in> set h \<and> P e} \<le> length (filter (\<lambda>x. P (snd x)) h)"
proof -
  have "{i. \<exists>e. (i, e) \<in> set h \<and> P e} = fst ` set (filter (\<lambda>x. P (snd x)) h)" by force
  then show ?thesis by (metis card_image_le card_length finite_set le_trans)
qed

subsection \<open>The alert window\<close>

text \<open>A claim on a fingerprint that was granted: its moment and the expiry it stored.\<close>

definition granted :: "string \<Rightarrow> string \<Rightarrow> int \<Rightarrow> int \<Rightarrow> event \<Rightarrow> bool" where
  "granted tb k now window e \<longleftrightarrow> (\<exists>stamp v. e = (claim_call tb k now window stamp, Inr v))"

text \<open>
  A granted claim met no stored claim that had not expired; a claim stays stored at least until it
  expires.
\<close>

definition conditional_claims :: "string \<Rightarrow> history \<Rightarrow> bool" where
  "conditional_claims tb h \<longleftrightarrow>
     (\<forall>pre i e mid j f post k n1 w1 n2 w2. h = pre @ (i, e) # mid @ (j, f) # post \<longrightarrow>
        granted tb k n1 w1 e \<longrightarrow> granted tb k n2 w2 f \<longrightarrow>
        (\<forall>x\<in>set mid. \<forall>n w. \<not> granted tb k n w (snd x)) \<longrightarrow> n1 + w1 < n2)"

lemma acted_subset:
  fixes w :: "'w itself"
  assumes "runs_of w cfg h"
  shows "{i. acted_in cfg ws (of_run i h)} \<subseteq> {i. \<exists>e. (i, e) \<in> set h \<and> admitted cfg ws e}"
proof
  fix i
  assume "i \<in> {i. acted_in cfg ws (of_run i h)}"
  then have acted: "acted_in cfg ws (of_run i h)" by simp
  then obtain e where "(i, e) \<in> set h" by (auto simp: acted_in_def of_run_mem)
  then have "i \<in> fst ` set h" by force
  with assms obtain env :: "'w env" and d raw s r s' where
    "execute env (detector env d) raw cfg (build_notifier env cfg) s = (r, of_run i h, s')"
    unfolding runs_of_def by blast
  from acted_admitted [OF this acted] obtain e where "e \<in> set (of_run i h)" and "admitted cfg ws e" .
  then show "i \<in> {i. \<exists>e. (i, e) \<in> set h \<and> admitted cfg ws e}" unfolding of_run_mem by blast
qed

text \<open>The granted claims on one fingerprint, as the pairs of their moments and windows.\<close>

lemma granted_inj: "granted tb k n w e \<Longrightarrow> granted tb k n' w' e \<Longrightarrow> n = n' \<and> w = w'"
  by (auto simp: granted_def claim_call_def claim_item_def)

lemma first_after:
  assumes "\<exists>x\<in>set ys. P x"
  obtains us x vs where "ys = us @ x # vs" and "P x" and "\<forall>u\<in>set us. \<not> P u"
  using assms by (auto dest!: split_list_first_prop)

text \<open>Claims that were granted are further apart than the window, whatever came between them.\<close>

lemma claims_apart:
  assumes "conditional_claims tb h"
    and "\<forall>x\<in>set h. \<forall>n w. granted tb k n w (snd x) \<longrightarrow> w = window" and "0 < window"
    and "h = pre @ (i, e) # mid @ (j, f) # post" and "granted tb k n1 w1 e" and "granted tb k n2 w2 f"
  shows "n1 + window < n2"
  using assms(4-6)
proof (induction "length mid" arbitrary: pre i e mid n1 w1 rule: less_induct)
  case less
  have w1: "w1 = window" using assms(2) less.prems(1,2) by auto
  show ?case
  proof (cases "\<exists>x\<in>set mid. \<exists>n w. granted tb k n w (snd x)")
    case False
    with assms(1) less.prems have "n1 + w1 < n2" unfolding conditional_claims_def by blast
    with w1 show ?thesis by simp
  next
    case True
    then obtain us x vs n w where split: "mid = us @ x # vs" "granted tb k n w (snd x)"
        and none: "\<forall>u\<in>set us. \<not> (\<exists>n w. granted tb k n w (snd u))"
      by (elim first_after) auto
    have h: "h = pre @ (i, e) # us @ (fst x, snd x) # (vs @ (j, f) # post)"
      using less.prems(1) split(1) by simp
    have "n1 + w1 < n"
      using assms(1) h less.prems(2) split(2) none unfolding conditional_claims_def by blast
    moreover have "n + window < n2"
      by (rule less.hyps [of vs "pre @ (i, e) # us" "fst x" "snd x"])
         (use split less.prems h in auto)
    ultimately show ?thesis using w1 assms(3) by simp
  qed
qed

end
