(* ===== verification/Delivery.thy ===== *)
theory Delivery
  imports Entrypoint
begin

text \<open>
  No decision goes unreported: every outcome that came from a plan reaches the notifier as the last
  step of its run, and with Slack configured the alert is claimed and then posted, unless it is a
  duplicate or the webhook secret is unusable.
\<close>

subsection \<open>Every branch ends at the notifier\<close>

definition ends_notified ::
  "'w notifier \<Rightarrow> detection_event \<Rightarrow> plan \<Rightarrow> outcome \<Rightarrow> event list \<Rightarrow> 'w st \<Rightarrow> bool"
where
  "ends_notified notify ev p out t s' \<longleftrightarrow>
     (\<exists>t0 s b t2. t = t0 @ t2 \<and> notify ev out (Some p) s = (Inr b, t2, s'))"

lemma ends_notified_later: "ends_notified notify ev p out t s' \<Longrightarrow> ends_notified notify ev p out (t0 @ t) s'"
  unfolding ends_notified_def by (metis append.assoc)

lemma conclude_notified:
  assumes "conclude env cfg notify ev p k o' s = (Inr out, t, s')"
  shows "ends_notified notify ev p out t s'"
  using assms
proof (cases rule: concludeE)
  case (notified now v s1 r2 t2)
  then obtain b where "r2 = Inr b" and "out = o'" by (auto split: sum.splits)
  with notified show ?thesis
    unfolding ends_notified_def
    by (intro exI [of _ "[(close_call (table_name cfg) k o' now, Inr v)]"] exI [of _ s1] exI [of _ b] exI [of _ t2]) simp
qed simp

lemma gates_notified:
  assumes "run_gates env det cfg notify ev p k s = (Inr out, t, s')"
  shows "ends_notified notify ev p out t s'"
  using assms
proof (cases rule: run_gatesE)
  case escalated
  from conclude_notified [OF escalated(2)] show ?thesis .
next
  case (blocked ws n eb s1 t2)
  from ends_notified_later [OF conclude_notified [OF blocked(5)], of "[eb]"] blocked(4) show ?thesis by simp
next
  case (dry ws n eb s1 t2)
  from ends_notified_later [OF conclude_notified [OF dry(6)], of "[eb]"] dry(5) show ?thesis by simp
next
  case (applying ws n eb s1 t2)
  from applying(6) have "ends_notified notify ev p out t2 s'"
    by (cases rule: run_applyE) (auto dest!: conclude_notified intro: ends_notified_later)
  from ends_notified_later [OF this, of "[eb]"] applying(5) show ?thesis by simp
qed simp_all

lemma run_plan_notified:
  assumes "run_plan env det cfg notify ev p s = (Inr out, t, s')"
  shows "ends_notified notify ev p out t s'"
  using assms
proof (cases rule: run_planE)
  case (excluded v now a s1 r2 t2)
  then obtain b where "r2 = Inr b" and "out = excluded_outcome cfg p v" by (auto split: sum.splits)
  with excluded have "ends_notified notify ev p out t2 s'"
    unfolding ends_notified_def by (metis append_Nil)
  from ends_notified_later [OF this] show ?thesis
    unfolding excluded(3) by (metis append_Cons append_Nil)
next
  case (gated now v s1 t2)
  from ends_notified_later [OF gates_notified [OF gated(3)]] show ?thesis
    unfolding gated(2) by (metis append_Cons append_Nil)
qed simp_all

subsection \<open>From the notifier to Slack\<close>

definition alert_key :: "outcome \<Rightarrow> string" where
  "alert_key out = fingerprint (detection_id out) (outcome_resource out) (status_value (status out))
     (severity_value (severity out))"

text \<open>After a granted claim: the alert was posted, or the secret was read and gave no usable webhook.\<close>

definition delivered :: "string \<Rightarrow> string \<Rightarrow> event list \<Rightarrow> bool" where
  "delivered secret body t \<longleftrightarrow>
     (\<exists>y. t = [(GetSecretValue secret, y)]) \<or> (\<exists>pre url x. t = pre @ [(UrlOpen url body, x)])"

lemma slack_delivers:
  assumes "slack_notify env secret tb env_name window ev out p s = (Inr b, t, s')"
  obtains now stamp a t2 where "t = (claim_call tb (alert_key out) now window stamp, a) # t2"
    and "case a of Inl e \<Rightarrow> exn_name e = ''ConditionalCheckFailedException'' \<and> t2 = []
         | Inr _ \<Rightarrow> delivered secret (json_dumps False (VDict (build_payload ev out p env_name))) t2"
proof -
  have post: "delivered secret (json_dumps False (VDict payload)) t2"
    if "slack_post env secret payload s1 = (r, t2, s2)" for payload s1 r t2 s2
    using that
  proof (cases rule: slack_postE)
    case (undeliverable t1)
    from undeliverable(1) undeliverable(3) show ?thesis
      by (cases rule: resolve_webhookE) (auto simp: delivered_def)
  next
    case (posted url t1 s3 x)
    then show ?thesis by (auto simp: delivered_def)
  qed
  from assms obtain c t1 s1 t2 where claim: "dedup_claim env tb window (alert_key out) None s = (Inr c, t1, s1)"
    and rest: "(if \<not> c then ret False
      else bind (slack_post env secret (build_payload ev out p env_name)) (\<lambda>_. ret True)) s1 = (Inr b, t2, s')"
    and t: "t = t1 @ t2"
    unfolding slack_notify_def alert_key_def [symmetric] by (auto elim!: bindE)
  from claim show thesis
  proof (cases rule: dedup_claimE)
    case (won now stamp v)
    from won(1) rest obtain r s2 where "slack_post env secret (build_payload ev out p env_name) s1 = (r, t2, s2)"
      by (auto elim!: bindE simp: ret_def)
    from post [OF this] won(2) t show thesis by (intro that [of now stamp "Inr v" t2]) simp_all
  next
    case (lost now stamp e)
    with rest t show thesis by (intro that [of now stamp "Inl e" "[]"]) (simp_all add: ret_def)
  qed simp
qed


end
