(* ===== verification/Scenario.thy ===== *)
theory Scenario
  imports History Delivery
begin

text \<open>
  One concrete account, against which the properties that span components are tried: a security
  group with SSH and HTTPS open to the world, a configuration with dry-run off, and an AWS whose
  answers are fixed, up to the answer \<open>cl\<close> to the update that closes an audit item. The world is
  a unit; the clock stands still.
\<close>

definition midnight :: datetime where
  "midnight = \<lparr>year = 1970, month = 1, day = 1, hour = 0, minute = 0, second = 0, microsecond = 0\<rparr>"

definition ssh_rule :: pyval where
  "ssh_rule = VDict [(''IpProtocol'', VStr ''tcp''), (''FromPort'', VInt 22), (''ToPort'', VInt 22),
     (''IpRanges'', VList [VDict [(''CidrIp'', VStr ''0.0.0.0/0'')], VDict [(''CidrIp'', VStr ''10.0.0.0/8'')]])]"

definition https_rule :: pyval where
  "https_rule = VDict [(''IpProtocol'', VStr ''tcp''), (''FromPort'', VInt 443), (''ToPort'', VInt 443),
     (''IpRanges'', VList [VDict [(''CidrIp'', VStr ''0.0.0.0/0'')]])]"

definition demo_group :: pyval where
  "demo_group = VDict [(''GroupName'', VStr ''web''), (''VpcId'', VStr ''vpc-1''),
     (''Description'', VStr ''web tier''), (''IpPermissions'', VList [ssh_rule, https_rule])]"

fun demo_answer :: "pyval res \<Rightarrow> call \<Rightarrow> pyval res" where
  "demo_answer cl (DescribeSecurityGroups _) = Inr (VDict [(''SecurityGroups'', VList [demo_group])])"
| "demo_answer cl (DescribeNetworkInterfaces _ _) = Inr (VDict [(''NetworkInterfaces'', VList [])])"
| "demo_answer cl (UpdateItem _ _ _ names _ _) =
     (if names = [] then Inr (VDict [(''Attributes'', VDict [(''attempts'', VInt 1)])]) else cl)"
| "demo_answer cl (GetSecretValue _) = Inr (VDict [(''SecretString'', VStr ''https://hooks.test/x'')])"
| "demo_answer cl _ = Inr (VDict [])"

definition demo_env :: "pyval res \<Rightarrow> unit env" where
  "demo_env cl = \<lparr>perform = (\<lambda>c w. (demo_answer cl c, w)), clock_now = (\<lambda>w. (midnight, w))\<rparr>"

definition demo_cfg :: config where
  "demo_cfg = \<lparr>
     cfg_detection_id = ''sg-open'', table_name = ''pac'', environment = ''test'', dry_run = False,
     exclusion_tag = ''pac:exclude'', circuit_breaker_max_actions = 5,
     circuit_breaker_window_seconds = 300, dedup_window_seconds = 900, slack_secret_arn = None\<rparr>"

definition demo_raw :: pydict where
  "demo_raw =
     [(''id'', VStr ''e-1''), (''source'', VStr ''aws.ec2''),
      (''detail-type'', VStr ''AWS API Call via CloudTrail''), (''account'', VStr ''111122223333''),
      (''detail'', VDict
        [(''eventTime'', VStr ''1970-01-01T00:00:00Z''), (''awsRegion'', VStr ''eu-west-1''),
         (''userIdentity'', VDict
           [(''type'', VStr ''IAMUser''), (''userName'', VStr ''mallory''),
            (''arn'', VStr ''arn:aws:iam::111122223333:user/mallory'')]),
         (''requestParameters'', VDict [(''groupId'', VStr ''sg-1'')])])]"

definition demo_state :: "unit st" where
  "demo_state = \<lparr>ext = (), webhook_cache = None\<rparr>"

definition demo_run :: "pyval res \<Rightarrow> outcome res \<times> event list \<times> unit st" where
  "demo_run cl =
     execute (demo_env cl) (detector (demo_env cl) SG_OPEN) demo_raw demo_cfg
       (build_notifier (demo_env cl) demo_cfg) demo_state"

subsection \<open>The run, step by step\<close>

definition demo_event :: detection_event where
  "demo_event = projr (parse demo_raw)"

definition demo_plan :: plan where
  "demo_plan = the (projr (result (sg_plan (demo_env (Inr VNone)) demo_event demo_state)))"

definition demo_reads :: "event list" where
  "demo_reads = events (sg_plan (demo_env (Inr VNone)) demo_event demo_state)"

definition demo_acts :: "string list" where
  "demo_acts = projr (result (sg_apply (demo_env (Inr VNone)) demo_plan demo_state))"

definition demo_revoke :: event where
  "demo_revoke = hd (events (sg_apply (demo_env (Inr VNone)) demo_plan demo_state))"

lemma demo_call [simp]: "do_call (demo_env cl) c demo_state = (demo_answer cl c, [(c, demo_answer cl c)], demo_state)"
  by (simp add: do_call_def demo_env_def demo_state_def)

lemma demo_clock [simp]: "read_clock (demo_env cl) demo_state = (Inr midnight, [], demo_state)"
  by (simp add: read_clock_def demo_env_def demo_state_def)

lemma demo_parse:
  "\<not> isl (parse demo_raw) \<and> arn (principal demo_event) = ''arn:aws:iam::111122223333:user/mallory'' \<and>
   \<not> is_pac_automation (principal demo_event) \<and> event_id demo_event = ''e-1''"
  by code_simp

lemma demo_plan_checks:
  "\<not> isl (result (sg_plan (demo_env (Inr VNone)) demo_event demo_state)) \<and>
   projr (result (sg_plan (demo_env (Inr VNone)) demo_event demo_state)) \<noteq> None \<and>
   map (is_read \<circ> fst) demo_reads = [True, True]"
  by code_simp

lemma demo_plan_same:
  "sg_plan (demo_env cl) demo_event demo_state = sg_plan (demo_env (Inr VNone)) demo_event demo_state"
  by code_simp

lemma demo_plan_fields:
  "tags demo_plan = [] \<and> length (intended_actions demo_plan) = 1 \<and> resource_id demo_plan = ''sg-1''"
  by code_simp

lemma demo_apply_checks:
  "\<not> isl (result (sg_apply (demo_env (Inr VNone)) demo_plan demo_state)) \<and>
   length (events (sg_apply (demo_env (Inr VNone)) demo_plan demo_state)) = 1 \<and>
   is_remediation (fst demo_revoke)"
  by code_simp

lemma demo_apply_same:
  "sg_apply (demo_env cl) demo_plan demo_state = sg_apply (demo_env (Inr VNone)) demo_plan demo_state"
  by code_simp

lemma demo_epoch: "epoch_of midnight = 0"
  by code_simp

text \<open>Nothing the handler does moves this world.\<close>

lemma demo_unit: "webhook_cache s = None \<Longrightarrow> (s :: unit st) = demo_state"
  by (simp add: demo_state_def)

lemma demo_plan_run: "sg_plan (demo_env cl) demo_event demo_state = (Inr (Some demo_plan), demo_reads, demo_state)"
proof -
  let ?run = "sg_plan (demo_env (Inr VNone)) demo_event demo_state"
  have "webhook_cache (snd (snd ?run)) = None" by code_simp
  then have "snd (snd ?run) = demo_state" by (rule demo_unit)
  with demo_plan_checks show ?thesis
    unfolding demo_plan_same [of cl]
    by (simp add: demo_plan_def demo_reads_def prod_eq_iff sum.expand option.expand)
qed

lemma demo_apply_run: "sg_apply (demo_env cl) demo_plan demo_state = (Inr demo_acts, [demo_revoke], demo_state)"
proof -
  let ?run = "sg_apply (demo_env (Inr VNone)) demo_plan demo_state"
  have "webhook_cache (snd (snd ?run)) = None" by code_simp
  then have "snd (snd ?run) = demo_state" by (rule demo_unit)
  moreover have "events ?run = [demo_revoke]"
    using demo_apply_checks unfolding demo_revoke_def by (cases "events ?run") auto
  moreover have "result ?run = Inr demo_acts"
    using demo_apply_checks unfolding demo_acts_def by simp
  ultimately show ?thesis unfolding demo_apply_same [of cl] by (simp add: prod_eq_iff)
qed

definition demo_opening :: event where
  "demo_opening = (PutItem ''pac'' (open_item (iso_of midnight) ''sg-open'' demo_event demo_plan False) None [],
     Inr (VDict []))"

definition demo_counting :: event where
  "demo_counting = (breaker_update ''pac'' ''sg-open'' 300 0,
     Inr (VDict [(''Attributes'', VDict [(''attempts'', VInt 1)])]))"

definition demo_outcome :: outcome where
  "demo_outcome = planned_outcome demo_cfg demo_plan APPLIED demo_acts"

definition demo_closing :: "pyval res \<Rightarrow> event" where
  "demo_closing cl =
     (close_call ''pac'' (plan_key ''sg-open'' demo_event demo_plan) demo_outcome (iso_of midnight), cl)"

lemma demo_cfg_fields [simp]:
  "cfg_detection_id demo_cfg = ''sg-open''" "table_name demo_cfg = ''pac''" "\<not> dry_run demo_cfg"
  "circuit_breaker_max_actions demo_cfg = 5" "circuit_breaker_window_seconds demo_cfg = 300"
  "slack_secret_arn demo_cfg = None"
  by (simp_all add: demo_cfg_def)

lemma demo_notify: "build_notifier env demo_cfg ev out p = ret False"
  by (simp add: build_notifier_def null_notify_def)

text \<open>The run returns what closing the record allows.\<close>

definition demo_result :: "pyval res \<Rightarrow> outcome res" where
  "demo_result cl = (case cl of Inl e \<Rightarrow> Inl e | Inr _ \<Rightarrow> Inr demo_outcome)"

lemma demo_trace:
  "demo_run cl = (demo_result cl,
     demo_reads @ [demo_opening, demo_counting, demo_revoke, demo_closing cl], demo_state)"
proof -
  let ?env = "demo_env cl" and ?key = "plan_key ''sg-open'' demo_event demo_plan"
  let ?notify = "build_notifier (demo_env cl) demo_cfg"
  have parsed: "parse demo_raw = Inr demo_event" using demo_parse by (simp add: demo_event_def)
  have own: "\<not> is_pac_automation (principal demo_event)" using demo_parse by blast
  have conc: "conclude ?env demo_cfg ?notify demo_event demo_plan ?key demo_outcome demo_state =
      (demo_result cl, [demo_closing cl], demo_state)"
    by (cases cl)
       (simp_all add: conclude_def audit_close_def iso_def bind_def ret_def demo_notify demo_closing_def close_call_def
         demo_result_def)
  have applied: "run_apply ?env (sg_open ?env) demo_cfg ?notify demo_event demo_plan ?key demo_state =
      (demo_result cl, [demo_revoke, demo_closing cl], demo_state)"
    using conc unfolding demo_outcome_def planned_outcome_def
    by (simp add: run_apply_def bind_def try_except_def ret_def sg_open_def demo_apply_run)
  have gates: "run_gates ?env (sg_open ?env) demo_cfg ?notify demo_event demo_plan ?key demo_state =
      (demo_result cl, [demo_counting, demo_revoke, demo_closing cl], demo_state)"
    using applied demo_plan_fields
    by (auto simp: run_gates_def check_and_increment_def epoch_def bind_def ret_def lift_def demo_epoch
        window_start_def attempts_of_def dict_get_def breaker_update_def demo_counting_def)
  have "run_plan ?env (sg_open ?env) demo_cfg ?notify demo_event demo_plan demo_state =
      (demo_result cl, [demo_opening, demo_counting, demo_revoke, demo_closing cl], demo_state)"
    using gates demo_plan_fields
    by (simp add: run_plan_def audit_open_def iso_def bind_def ret_def demo_opening_def)
  then show ?thesis
    by (simp add: demo_run_def execute_def parsed own sg_open_def bind_def lift_def demo_plan_run)
qed

lemma demo_opened: "opened demo_cfg demo_event demo_plan demo_opening"
  by (auto simp: opened_def demo_opening_def)

lemma demo_counted: "breaker_event demo_cfg 0 1 demo_counting"
  by (simp add: breaker_event_def demo_counting_def attempts_of_def dict_get_def)

lemma demo_revoked: "is_remediation (fst demo_revoke)"
  using demo_apply_checks by blast

subsection \<open>A dry run with an alert\<close>

text \<open>The same account with dry-run on and Slack configured.\<close>

definition demo_slack :: config where
  "demo_slack = demo_cfg\<lparr>dry_run := True, slack_secret_arn := Some ''secret''\<rparr>"

definition demo_sent :: "unit st" where
  "demo_sent = demo_state\<lparr>webhook_cache := Some ''https://hooks.test/x''\<rparr>"

lemma demo_webhook: "extract_webhook (VStr ''https://hooks.test/x'') = Inr ''https://hooks.test/x''"
  by code_simp

lemma demo_slack_runs:
  "\<exists>t b a. slack_notify (demo_env cl) ''secret'' ''pac'' ''test'' 900 ev out p demo_state =
     (Inr True, t @ [(UrlOpen ''https://hooks.test/x'' b, a)], demo_sent)"
proof -
  have post: "do_call (demo_env cl) (UrlOpen url body) demo_sent =
      (Inr (VDict []), [(UrlOpen url body, Inr (VDict []))], demo_sent)" for url body
    by (simp add: do_call_def demo_env_def demo_sent_def)
  have https: "startswith ''https://hooks.test/x'' https" by (simp add: https_def startswith_def)
  have cached: "webhook_cache demo_state = None" by (simp add: demo_state_def)
  have hook: "resolve_webhook (demo_env cl) ''secret'' demo_state = (Inr (Some ''https://hooks.test/x''),
      [(GetSecretValue ''secret'', Inr (VDict [(''SecretString'', VStr ''https://hooks.test/x'')]))], demo_sent)"
    by (simp add: resolve_webhook_def get_webhook_def set_webhook_def bind_def ret_def lift_def try_except_def
        cached dict_get_def demo_webhook https demo_sent_def)
  have claim: "\<exists>t. dedup_claim (demo_env cl) ''pac'' 900 k None demo_state = (Inr True, t, demo_state)" for k
    by (simp add: dedup_claim_def epoch_def iso_def bind_def ret_def try_except_def claim_call_def)
  then obtain t where "dedup_claim (demo_env cl) ''pac'' 900 (alert_key out) None demo_state = (Inr True, t, demo_state)"
    by blast
  then show ?thesis
    by (simp add: slack_notify_def alert_key_def [symmetric] bind_def slack_post_def hook post try_except_def ret_def
        del: json_dumps.simps)
qed

lemma demo_slack_fields [simp]:
  "cfg_detection_id demo_slack = ''sg-open''" "table_name demo_slack = ''pac''" "dry_run demo_slack"
  "circuit_breaker_max_actions demo_slack = 5" "circuit_breaker_window_seconds demo_slack = 300"
  "exclusion_tag demo_slack = ''pac:exclude''" "slack_secret_arn demo_slack = Some ''secret''"
  by (simp_all add: demo_slack_def demo_cfg_def)

lemma demo_slack_notifier: "build_notifier env demo_slack = slack_notify env ''secret'' ''pac'' ''test'' 900"
  by (simp add: build_notifier_def demo_slack_def demo_cfg_def)

lemma demo_slack_executes:
  "\<exists>out t b a. execute (demo_env (Inr VNone)) (detector (demo_env (Inr VNone)) SG_OPEN) demo_raw demo_slack
     (build_notifier (demo_env (Inr VNone)) demo_slack) demo_state =
       (Inr out, t @ [(UrlOpen ''https://hooks.test/x'' b, a)], demo_sent)"
proof -
  let ?env = "demo_env (Inr VNone)" and ?key = "plan_key ''sg-open'' demo_event demo_plan"
  let ?notify = "build_notifier ?env demo_slack"
  let ?ends = "\<lambda>m. \<exists>out t b a. m demo_state =
      (Inr (out :: outcome), t @ [(UrlOpen ''https://hooks.test/x'' b, a)], demo_sent)"
  have conc: "?ends (conclude ?env demo_slack ?notify demo_event demo_plan ?key out)" for out
    using demo_slack_runs [of "Inr VNone" demo_event out "Some demo_plan"]
    by (auto simp: conclude_def audit_close_def iso_def bind_def ret_def close_call_def demo_slack_notifier)
  have "\<exists>b t. check_and_increment ?env ''pac'' ''sg-open'' 5 300 None demo_state = (Inr b, t, demo_state) \<and> \<not> is_open b"
    by (simp add: check_and_increment_def epoch_def bind_def ret_def lift_def demo_epoch
        window_start_def attempts_of_def dict_get_def breaker_update_def)
  then obtain b t where check: "check_and_increment ?env ''pac'' ''sg-open'' 5 300 None demo_state = (Inr b, t, demo_state)"
    and shut: "\<not> is_open b"
    by blast
  have acts: "intended_actions demo_plan \<noteq> []" using demo_plan_fields by auto
  have gates: "?ends (run_gates ?env (sg_open ?env) demo_slack ?notify demo_event demo_plan ?key)"
    using conc [of "planned_outcome demo_slack demo_plan DRY_RUN (intended_actions demo_plan)"]
    by (auto simp: run_gates_def bind_def check shut acts planned_outcome_def)
  have "?ends (run_plan ?env (sg_open ?env) demo_slack ?notify demo_event demo_plan)"
    using gates demo_plan_fields by (auto simp: run_plan_def audit_open_def iso_def bind_def ret_def)
  moreover have "parse demo_raw = Inr demo_event" and "\<not> is_pac_automation (principal demo_event)"
    using demo_parse by (simp_all add: demo_event_def)
  ultimately show ?thesis
    by (auto simp: execute_def sg_open_def bind_def lift_def demo_plan_run)
qed

end
