(* ===== verification/Lifecycle.thy ===== *)
theory Lifecycle
  imports Scenario
begin

text \<open>
  The life of a Lambda container: the invocations it serves one after the other, with the world
  moving arbitrarily between them. What a container keeps is its configuration and the webhook of
  its notifier; both are fixed once they are set. The reachable states are an inductive relation,
  and what holds of every container is proved by induction over it.
\<close>

subsection \<open>Relations between the start, the trace and the end of a run\<close>

text \<open>The calls that depend on the webhook: reading the secret and posting.\<close>

fun webhook_call :: "call \<Rightarrow> bool" where
  "webhook_call (GetSecretValue _) = True"
| "webhook_call (UrlOpen _ _) = True"
| "webhook_call _ = False"

definition obeys :: "('w st \<Rightarrow> event list \<Rightarrow> 'w st \<Rightarrow> bool) \<Rightarrow> ('w, 'a) run \<Rightarrow> bool" where
  "obeys R m \<longleftrightarrow> (\<forall>s r t s'. m s = (r, t, s') \<longrightarrow> R s t s')"

lemma obeysI: "(\<And>s r t s'. m s = (r, t, s') \<Longrightarrow> R s t s') \<Longrightarrow> obeys R m"
  by (simp add: obeys_def)

lemma obeysD: "obeys R m \<Longrightarrow> m s = (r, t, s') \<Longrightarrow> R s t s'"
  by (simp add: obeys_def)

text \<open>
  A relation that is closed under sequences and holds of whatever leaves the webhook alone holds of
  the whole program as soon as it holds of the notifier.
\<close>

locale run_relation =
  fixes R :: "'w st \<Rightarrow> event list \<Rightarrow> 'w st \<Rightarrow> bool"
  assumes still: "webhook_cache s' = webhook_cache s \<Longrightarrow> list_all (\<lambda>e. \<not> webhook_call (fst e)) t \<Longrightarrow> R s t s'"
    and chain: "R s t s1 \<Longrightarrow> R s1 t' s' \<Longrightarrow> R s (t @ t') s'"
begin

lemma atoms: "obeys R (ret x)" "obeys R (throw e)" "obeys R (lift r)" "obeys R (read_clock env)"
  by (rule obeysI, rule still;
      auto simp: ret_def throw_def lift_def read_clock_def split: prod.splits)+

lemma call: "\<not> webhook_call c \<Longrightarrow> obeys R (do_call env c)"
  by (rule obeysI, erule do_callE) (auto intro: still)

lemma seq: "obeys R m \<Longrightarrow> (\<And>x. obeys R (f x)) \<Longrightarrow> obeys R (bind m f)"
  by (rule obeysI, erule bindE) (auto dest: obeysD intro: chain)

lemma handle: "obeys R m \<Longrightarrow> (\<And>e. obeys R (h e)) \<Longrightarrow> obeys R (try_except m h)"
  by (rule obeysI, erule try_exceptE) (auto dest: obeysD intro: chain)

lemma branch:
  "obeys R m \<Longrightarrow> obeys R n \<Longrightarrow> obeys R (if c then m else n)"
  "obeys R n \<Longrightarrow> (\<And>x. obeys R (f x)) \<Longrightarrow> obeys R (case v of None \<Rightarrow> n | Some x \<Rightarrow> f x)"
  "(\<And>e. obeys R (g e)) \<Longrightarrow> (\<And>x. obeys R (f' x)) \<Longrightarrow> obeys R (case w of Inl e \<Rightarrow> g e | Inr x \<Rightarrow> f' x)"
  by (auto split: option.splits sum.splits)

lemmas rules = atoms seq handle branch

lemma clocks: "obeys R (iso env)" "obeys R (epoch env)"
  by (unfold iso_def epoch_def) (rule rules)+

lemma writes:
  "obeys R (audit_open env tb did ev p dry)"
  "obeys R (audit_close env tb k out)"
  "obeys R (record_unplanned env tb did ev out)"
  "obeys R (check_and_increment env tb did lim window at)"
  "obeys R (dedup_claim env tb window fp at)"
  unfolding audit_open_def audit_close_def close_call_def record_unplanned_def check_and_increment_def
    breaker_update_def dedup_claim_def claim_call_def
  by (intro rules clocks call; simp)+

lemma sg: "obeys R (sg_plan env ev)" "obeys R (sg_apply env p)"
  unfolding sg_plan_def sg_build_plan_def sg_apply_def attached_interface_count_def Let_def
  by (intro rules call; simp)+

lemma reads:
  "obeys R m \<Longrightarrow> obeys R (safe m d)"
  "\<not> webhook_call c \<Longrightarrow> obeys R (call_get env c k d)"
  unfolding safe_def call_get_def by (intro rules call; simp)+

lemma policy: "obeys R (load_policy env b)"
  unfolding load_policy_def
  by (rule seq, intro reads) (auto intro!: atoms split: pyval.splits sum.splits)

lemma s3: "obeys R (s3_plan env ev)" "obeys R (s3_apply env p)"
  unfolding s3_plan_def s3_apply_def load_tags_def Let_def
  by (intro rules reads policy call; simp)+

lemma iam: "obeys R (iam_plan env ev)" "obeys R (iam_apply env p)"
  unfolding iam_plan_def iam_apply_def last_used_def key_metadata_def user_tags_def Let_def
  by (intro rules call; simp)+

lemma detector: "obeys R (plan_of (detector env h) ev)" "obeys R (apply_of (detector env h) p)"
  using sg s3 iam by (cases h; simp add: sg_open_def s3_public_def iam_key_leak_def)+

lemma pipeline:
  assumes "\<And>ev out p. obeys R (notify ev out p)"
  shows "obeys R (execute env (detector env h) raw cfg notify)"
  unfolding execute_def run_plan_def run_gates_def run_apply_def conclude_def Let_def
  by (rule rules writes detector assms)+

end

subsection \<open>One webhook per container\<close>

definition posts :: "event \<Rightarrow> bool" where
  "posts e \<longleftrightarrow> (\<exists>url body. fst e = UrlOpen url body)"

definition posts_to :: "string \<Rightarrow> event \<Rightarrow> bool" where
  "posts_to url e \<longleftrightarrow> (\<exists>body. fst e = UrlOpen url body)"

definition reads_secret :: "event \<Rightarrow> bool" where
  "reads_secret e \<longleftrightarrow> (\<exists>secret. fst e = GetSecretValue secret)"

text \<open>
  Nothing is posted before the webhook is known; from then on it stays, everything goes to it,
  and the secret is not read again.
\<close>

definition webhook_kept :: "'w st \<Rightarrow> event list \<Rightarrow> 'w st \<Rightarrow> bool" where
  "webhook_kept s t s' \<longleftrightarrow>
     (\<forall>url. webhook_cache s = Some url \<longrightarrow> webhook_cache s' = Some url \<and> list_all (\<lambda>e. \<not> reads_secret e) t) \<and>
     (\<forall>e\<in>set t. posts e \<longrightarrow> (\<exists>url. webhook_cache s' = Some url \<and> posts_to url e)) \<and>
     (\<forall>pre e post. t = pre @ e # post \<longrightarrow> posts e \<longrightarrow> list_all (\<lambda>e. \<not> reads_secret e) post)"

lemma webhook_kept_append:
  assumes "webhook_kept s t s1" and "webhook_kept s1 t' s'"
  shows "webhook_kept s (t @ t') s'"
proof -
  have quiet: "list_all (\<lambda>e. \<not> reads_secret e) t'" if "e \<in> set t" "posts e" for e
    using that assms unfolding webhook_kept_def by blast
  have "list_all (\<lambda>e. \<not> reads_secret e) post" if eq: "t @ t' = pre @ e # post" and "posts e" for pre e post
    using append_eq_split [OF eq]
  proof (elim disjE exE conjE)
    fix zs assume t: "t = pre @ e # zs" and "post = zs @ t'"
    moreover have "list_all (\<lambda>e. \<not> reads_secret e) zs"
      using assms(1) t \<open>posts e\<close> unfolding webhook_kept_def by blast
    ultimately show ?thesis using quiet [of e] \<open>posts e\<close> by simp
  next
    fix zs assume "t' = zs @ e # post"
    with assms(2) \<open>posts e\<close> show ?thesis unfolding webhook_kept_def by blast
  qed
  moreover have "\<exists>url. webhook_cache s' = Some url \<and> posts_to url e" if "e \<in> set (t @ t')" "posts e" for e
    using that assms unfolding webhook_kept_def by (metis Un_iff set_append)
  moreover have "webhook_cache s' = Some url \<and> list_all (\<lambda>e. \<not> reads_secret e) (t @ t')"
    if "webhook_cache s = Some url" for url
    using that assms unfolding webhook_kept_def by simp
  ultimately show ?thesis unfolding webhook_kept_def by blast
qed

lemma webhook_kept_still:
  assumes "webhook_cache s' = webhook_cache s" and "list_all (\<lambda>e. \<not> webhook_call (fst e)) t"
  shows "webhook_kept s t s'"
  using assms by (fastforce simp: webhook_kept_def posts_def reads_secret_def list_all_iff)

interpretation kept: run_relation webhook_kept
  by unfold_locales (rule webhook_kept_still webhook_kept_append; assumption)+

lemma slack_post_kept: "obeys webhook_kept (slack_post env secret_arn payload)"
proof (rule obeysI)
  fix s r t s'
  assume "slack_post env secret_arn payload s = (r, t, s' :: 'a st)"
  then show "webhook_kept s t s'"
  proof (cases rule: slack_postE)
    case (undeliverable t1)
    from undeliverable(1,3) show ?thesis
      by (cases rule: resolve_webhookE)
         (auto simp: webhook_kept_def posts_def reads_secret_def Cons_eq_append_conv)
  next
    case (posted url t1 s1 a)
    have "webhook_kept s t1 s1 \<and> webhook_cache s1 = Some url" using posted(1)
      by (cases rule: resolve_webhookE)
         (auto simp: webhook_kept_def posts_def reads_secret_def Cons_eq_append_conv)
    moreover have "webhook_kept s1 [(UrlOpen url (json_dumps False (VDict payload)), a)] s'"
      if "webhook_cache s1 = Some url"
      using that posted(3) by (auto simp: webhook_kept_def posts_def posts_to_def reads_secret_def Cons_eq_append_conv)
    ultimately show ?thesis unfolding posted(2) by (blast intro: webhook_kept_append)
  qed
qed

lemma notifier_kept: "obeys webhook_kept (build_notifier env cfg ev out p)"
  unfolding build_notifier_def notifier_of_new null_notify_def slack_notify_def
  by (auto intro!: kept.rules kept.writes slack_post_kept split: option.splits)

lemma handler_kept:
  assumes "lambda_handler env h vars session table_ok c raw = (c', m)" and "m s = (r, t, s')"
  shows "webhook_kept s t s'"
proof -
  have "obeys webhook_kept (snd (lambda_handler env h vars session table_ok c raw))"
    unfolding lambda_handler_def
    by (auto intro!: kept.rules kept.pipeline notifier_kept split: prod.splits sum.splits)
  with assms show ?thesis by (auto dest: obeysD)
qed

text \<open>The webhook a container keeps is an https URL.\<close>

definition https_kept :: "'w st \<Rightarrow> event list \<Rightarrow> 'w st \<Rightarrow> bool" where
  "https_kept s t s' \<longleftrightarrow> (wf_cache s \<longrightarrow> wf_cache s')"

lemma https_kept_still: "webhook_cache s' = webhook_cache s \<Longrightarrow> https_kept s t s'"
  by (simp add: https_kept_def wf_cache_def)

lemma https_kept_append: "https_kept s t s1 \<Longrightarrow> https_kept s1 t' s' \<Longrightarrow> https_kept s (t @ t') s'"
  unfolding https_kept_def by blast

interpretation https: run_relation https_kept
  by unfold_locales (erule https_kept_still, rule https_kept_append)

lemma slack_post_https: "obeys https_kept (slack_post env secret_arn payload)"
proof (rule obeysI)
  fix s r t s'
  assume "slack_post env secret_arn payload s = (r, t, s' :: 'a st)"
  then show "https_kept s t s'"
  proof (cases rule: slack_postE)
    case (undeliverable t1)
    then show ?thesis by (simp add: https_kept_def resolve_webhook_https(1))
  next
    case (posted url t1 s1 a)
    have "https_kept s t1 s1"
      unfolding https_kept_def using resolve_webhook_https(1) [OF posted(1)] by blast
    moreover have "https_kept s1 [(UrlOpen url (json_dumps False (VDict payload)), a)] s'"
      by (rule https_kept_still) (rule posted(3))
    ultimately show ?thesis unfolding posted(2) by (rule https_kept_append)
  qed
qed

lemma handler_https:
  assumes "lambda_handler env h vars session table_ok c raw = (c', m)" and "m s = (r, t, s')" and "wf_cache s"
  shows "wf_cache s'"
proof -
  have "obeys https_kept (build_notifier env cfg ev out p)" for cfg ev out p
    unfolding build_notifier_def notifier_of_new null_notify_def slack_notify_def
    by (auto intro!: https.rules https.writes slack_post_https split: option.splits)
  then have "obeys https_kept (snd (lambda_handler env h vars session table_ok c raw))"
    unfolding lambda_handler_def
    by (auto intro!: https.rules https.pipeline split: prod.splits sum.splits)
  with assms show ?thesis by (auto dest: obeysD simp: https_kept_def)
qed

subsection \<open>The life of a container\<close>

text \<open>
  A container is created empty and serves invocations; an exception leaves it in place. The last
  index is the trace of all external calls it has made.
\<close>

inductive lifetime :: "'w env \<Rightarrow> handler \<Rightarrow> container \<Rightarrow> 'w st \<Rightarrow> event list \<Rightarrow> bool"
  for env :: "'w env" and h :: handler
where
  created: "lifetime env h new_container \<lparr>ext = w, webhook_cache = None\<rparr> []"
| invoked: "lifetime env h c s t \<Longrightarrow> lambda_handler env h vars session table_ok c raw = (c', m) \<Longrightarrow>
     m (s\<lparr>ext := w\<rparr>) = (r, t', s') \<Longrightarrow> lifetime env h c' s' (t @ t')"

lemma handler_container:
  assumes "lambda_handler env h vars session table_ok c raw = (c', m)" and "wf_container c"
  shows "wf_container c'" and "c_config c = Some cfg \<Longrightarrow> c_config c' = Some cfg"
proof -
  obtain x c1 where res: "resolve vars session table_ok c = (x, c1)" by force
  have "wf_container c' \<and> (c_config c = Some cfg \<longrightarrow> c_config c' = Some cfg)"
  proof (cases x)
    case (Inl e)
    with assms(1) res resolve_failed [of vars session table_ok c e c1] assms(2)
    show ?thesis by (auto simp: lambda_handler_def)
  next
    case (Inr y)
    obtain k n where "y = (k, n)" by force
    with assms(1) res Inr resolve_built [of vars session table_ok c k n c1] assms(2)
    show ?thesis by (auto simp: lambda_handler_def)
  qed
  then show "wf_container c'" and "c_config c = Some cfg \<Longrightarrow> c_config c' = Some cfg" by simp_all
qed

lemma unconfigured_handler:
  assumes "lambda_handler env h vars session table_ok c raw = (c', m)" and "wf_container c"
    and "m s = (r, t, s')" and "c_config c' = None"
  shows "c_config c = None \<and> t = []"
proof -
  obtain x c1 where res: "resolve vars session table_ok c = (x, c1)" by force
  show ?thesis
  proof (cases x)
    case (Inl e)
    with assms res resolve_failed [of vars session table_ok c e c1]
    show ?thesis by (auto simp: lambda_handler_def throw_def)
  next
    case (Inr y)
    obtain k n where "y = (k, n)" by force
    with assms res Inr resolve_built [of vars session table_ok c k n c1]
    show ?thesis by (auto simp: lambda_handler_def)
  qed
qed

text \<open>A container that has no configuration has made no call yet.\<close>

lemma lifetime_unconfigured:
  "lifetime env h c s t \<Longrightarrow> wf_container c \<and> (c_config c = None \<longrightarrow> t = [])"
proof (induction rule: lifetime.induct)
  case (invoked c s t vars session table_ok raw c' m w r t' s')
  with unconfigured_handler [OF invoked.hyps(2) _ invoked.hyps(3)] handler_container(1) [OF invoked.hyps(2)]
  show ?case by simp
qed (simp add: wf_new_container)

lemma lifetime_invariant:
  "lifetime env h c s t \<Longrightarrow>
     wf_container c \<and> wf_cache s \<and> webhook_kept \<lparr>ext = w0, webhook_cache = None\<rparr> t s"
proof (induction rule: lifetime.induct)
  case (created w)
  then show ?case by (simp add: wf_new_container wf_cache_def webhook_kept_def)
next
  case (invoked c s t vars session table_ok raw c' m w r t' s')
  have "wf_cache (s\<lparr>ext := w\<rparr>)" using invoked.IH by (simp add: wf_cache_def)
  then have "wf_cache s'" by (rule handler_https [OF invoked.hyps(2,3)])
  moreover have "webhook_kept s t' s'"
    using handler_kept [OF invoked.hyps(2,3)] by (simp add: webhook_kept_def)
  ultimately show ?case
    using invoked.IH handler_container(1) [OF invoked.hyps(2)] by (blast intro: webhook_kept_append)
qed

text \<open>
  C21: over the whole life of a container, whatever events it serves and however AWS answers, all its
  alerts go to one https URL, the secret is not read again once something was posted, and the
  container holds a valid configuration that its notifier shares; as long as it has none, because
  every attempt to read one was refused, it has made no call at all.
\<close>

theorem one_webhook:
  assumes "lifetime env h c s t"
  shows "wf_container c \<and> (c_config c = None \<longrightarrow> t = []) \<and>
         (\<exists>url. \<forall>e\<in>set t. posts e \<longrightarrow> posts_to url e \<and> startswith url https) \<and>
         (\<forall>pre e post. t = pre @ e # post \<longrightarrow> posts e \<longrightarrow> (\<forall>e'\<in>set post. \<not> reads_secret e'))"
proof -
  note inv = lifetime_invariant [OF assms, of undefined]
  have "\<exists>url. \<forall>e\<in>set t. posts e \<longrightarrow> posts_to url e \<and> startswith url https"
  proof (cases "webhook_cache s")
    case None
    with inv show ?thesis by (auto simp: webhook_kept_def)
  next
    case (Some url)
    with inv have "\<forall>e\<in>set t. posts e \<longrightarrow> posts_to url e" and "startswith url https"
      by (auto simp: webhook_kept_def wf_cache_def)
    then show ?thesis by blast
  qed
  with inv lifetime_unconfigured [OF assms] show ?thesis by (auto simp: webhook_kept_def list_all_iff)
qed

definition demo_vars :: "string \<rightharpoonup> string" where
  "demo_vars =
     [''PAC_DETECTION_ID'' \<mapsto> ''sg-open'', ''PAC_TABLE_NAME'' \<mapsto> ''pac'', ''PAC_ENVIRONMENT'' \<mapsto> ''test'',
      ''PAC_SLACK_SECRET_ARN'' \<mapsto> ''secret'']"

lemma demo_vars_config: "from_env demo_vars = Inr demo_slack"
  by code_simp

lemma demo_posting_life:
  "\<exists>c s t. lifetime (demo_env (Inr VNone)) SG_OPEN c s t \<and> (\<exists>e\<in>set t. posts e)"
proof -
  let ?env = "demo_env (Inr VNone)"
  obtain out t b a where run:
    "execute ?env (detector ?env SG_OPEN) demo_raw demo_slack (build_notifier ?env demo_slack) demo_state =
       (Inr out, t @ [(UrlOpen ''https://hooks.test/x'' b, a)], demo_sent)"
    using demo_slack_executes by blast
  obtain c m where h: "lambda_handler ?env SG_OPEN demo_vars (Inr ()) (Inr ()) new_container demo_raw = (c, m)"
    and m: "m = bind (execute ?env (detector ?env SG_OPEN) demo_raw demo_slack (build_notifier ?env demo_slack))
                 (\<lambda>out. ret (summary out))"
    by (simp add: lambda_handler_def resolve_def get_config_def get_aws_def get_notifier_def new_container_def
        demo_vars_config)
  have "lifetime ?env SG_OPEN c demo_sent ([] @ (t @ [(UrlOpen ''https://hooks.test/x'' b, a)]))"
  proof (rule lifetime.invoked [OF lifetime.created h])
    show "m (\<lparr>ext = (), webhook_cache = None\<rparr>\<lparr>ext := ()\<rparr>) =
        (Inr (summary out), t @ [(UrlOpen ''https://hooks.test/x'' b, a)], demo_sent)"
      using run by (simp add: m bind_def ret_def demo_state_def)
  qed
  then show ?thesis by (force simp: posts_def)
qed

theorem one_webhook_witness:
  "\<exists>c s t url e. lifetime (demo_env (Inr VNone)) SG_OPEN c s t \<and> e \<in> set t \<and> posts e \<and> posts_to url e \<and>
     startswith url https"
proof -
  obtain c s t e where "lifetime (demo_env (Inr VNone)) SG_OPEN c s t" "e \<in> set t" "posts e"
    using demo_posting_life by blast
  with one_webhook [OF this(1)] show ?thesis by blast
qed

end
