(* ===== verification/Redelivery.thy ===== *)
theory Redelivery
  imports Lifecycle
begin

text \<open>
  Redelivery. An invocation that raises is delivered again, at most twice. Here is what a run that
  raises after it has changed a resource has done, and what is left for the run that follows it.
\<close>

subsection \<open>A run that raises after a change\<close>

text \<open>What such a run did before its last two steps: nothing that closes a record or alerts.\<close>

definition before_close :: "call \<Rightarrow> bool" where
  "before_close c \<longleftrightarrow> \<not> is_alert c \<and> (\<forall>tb k out now. c \<noteq> close_call tb k out now)"

lemma before_close_quiet: "is_read c \<Longrightarrow> before_close c" "is_remediation c \<Longrightarrow> before_close c"
  by (cases c; simp add: before_close_def is_alert_def close_call_def writes_under_def)+

lemma before_close_put: "startswith (pk_of d) ''AUDIT#'' \<Longrightarrow> before_close (PutItem tb d cnd vs)"
  by (auto simp: before_close_def is_alert_def close_call_def startswith_def prefix_def)

lemma before_close_count: "before_close (breaker_update tb did window ws)"
  by (simp add: before_close_def is_alert_def breaker_update_def breaker_key_def pk_of_def dict_get_def
      startswith_def close_call_def)

lemmas before_close_calls = before_close_quiet before_close_put before_close_count

text \<open>A run that changed a resource went through all the gates.\<close>

lemma gates_reach_apply:
  assumes "run_gates env (detector env h) cfg (build_notifier env cfg) ev p (plan_key_of cfg ev p) s = (r, t, s')"
    and "x \<in> set t" and "is_remediation (fst x)"
  obtains ws n eb s1 t1 where "breaker_event cfg ws n eb" and "t = eb # t1"
    and "run_apply env (detector env h) cfg (build_notifier env cfg) ev p (plan_key_of cfg ev p) s1 = (r, t1, s')"
  using assms(1)
proof (cases rule: run_gatesE)
  case (applying ws n eb s1 t1)
  with that show ?thesis by blast
next
  case escalated
  with emitsD [OF deployed.emits_conclude escalated(2)] assms(2,3) show ?thesis
    by (auto simp: list_all_iff dest: tail_call_quiet)
next
  case (blocked ws n eb s1 t1)
  with emitsD [OF deployed.emits_conclude blocked(5)] assms(2,3) show ?thesis
    by (auto simp: list_all_iff breaker_event_def breaker_update_def dest: tail_call_quiet)
next
  case (dry ws n eb s1 t1)
  with emitsD [OF deployed.emits_conclude dry(6)] assms(2,3) show ?thesis
    by (auto simp: list_all_iff breaker_event_def breaker_update_def dest: tail_call_quiet)
qed (use assms(2,3) in \<open>auto simp: breaker_update_def\<close>)

text \<open>The trace of a run that changed a resource, whatever came of it.\<close>

lemma change_shape:
  assumes "execute env (detector env h) raw cfg (build_notifier env cfg) s = (r, t, s')"
    and "x \<in> set t" and "is_remediation (fst x)"
  obtains ev p t1 s1 eo ws n eb s2 ra ta sa out tc where
    "parse raw = Inr ev" and "\<not> is_pac_automation (principal ev)"
    and "plan_of (detector env h) ev s = (Inr (Some p), t1, s1)"
    and "opened cfg ev p eo" and "breaker_event cfg ws n eb"
    and "apply_of (detector env h) p s2 = (ra, ta, sa)"
    and "status out = (if isl ra then FAILED else APPLIED)"
    and "conclude env cfg (build_notifier env cfg) ev p (plan_key_of cfg ev p) out sa = (r, tc, s')"
    and "t = t1 @ [eo, eb] @ ta @ tc"
  using assms(1)
proof (cases rule: executeE)
  case (own ev r1 out)
  with emitsD [OF emits_record_tail own(4)] assms(2,3) show ?thesis
    by (auto simp: list_all_iff dest: tail_call_quiet)
next
  case (plan_raised ev y)
  with emitsD [OF detector_reads plan_raised(3)] assms(2,3) show ?thesis
    by (auto simp: list_all_iff dest: quiet_calls)
next
  case (benign ev t1 s1 r1 t2 out)
  with emitsD [OF emits_record_tail benign(6)] emitsD [OF detector_reads benign(3)] assms(2,3)
  show ?thesis by (auto simp: list_all_iff dest: quiet_calls tail_call_quiet)
next
  case (planned ev p t1 s1 tb)
  have t1: "list_all (\<lambda>y. is_read (fst y)) t1" by (rule emitsD [OF detector_reads planned(3)])
  then have x: "x \<in> set tb" using planned(4) assms(2,3) by (auto simp: list_all_iff dest: quiet_calls)
  from planned(5) show ?thesis
  proof (cases rule: run_planE)
    case (excluded v now a s2 r2 t2)
    with emitsD [OF notifier_alerts excluded(2)] x assms(3) show ?thesis
      by (auto simp: list_all_iff dest: quiet_calls)
  next
    case (gated now v s2 t2)
    with x assms(3) have x2: "x \<in> set t2" by auto
    obtain ws n eb s3 t4 where eb: "breaker_event cfg ws n eb" and t2: "t2 = eb # t4"
      and ap: "run_apply env (detector env h) cfg (build_notifier env cfg) ev p (plan_key_of cfg ev p) s3 = (r, t4, s')"
      using gates_reach_apply [OF gated(3) x2 assms(3)] by metis
    let ?eo = "(PutItem (table_name cfg) (open_item now (cfg_detection_id cfg) ev p (dry_run cfg)) None [], Inr v)"
    have eo: "opened cfg ev p ?eo" by (auto simp: opened_def)
    from ap show ?thesis
    proof (cases rule: run_applyE)
      case (failed e ta sa tc)
      show ?thesis
        by (rule that [OF planned(1-3) eo eb failed(1) _ failed(3)])
           (simp_all add: failed_outcome_def planned(4) gated(2) t2 failed(2))
    next
      case (applied acts ta sa tc)
      show ?thesis
        by (rule that [OF planned(1-3) eo eb applied(1) _ applied(3)])
           (simp_all add: planned_outcome_def planned(4) gated(2) t2 applied(2))
    qed
  qed (use x assms(3) in auto)
qed (use assms in simp)

lemma raise_after_change:
  assumes "execute env (detector env h) raw cfg (build_notifier env cfg) s = (Inl e, t, s')"
    and "x \<in> set t" and "is_remediation (fst x)"
  obtains ev p out s4 t0 tc where "parse raw = Inr ev" and "\<not> is_pac_automation (principal ev)"
    and "conclude env cfg (build_notifier env cfg) ev p (plan_key_of cfg ev p) out s4 = (Inl e, tc, s')"
    and "t = t0 @ tc" and "list_all (\<lambda>y. before_close (fst y)) t0"
proof (rule change_shape [OF assms])
  fix ev p t1 s1 eo ws n eb s2 ra ta sa out tc
  assume own: "parse raw = Inr ev" "\<not> is_pac_automation (principal ev)"
    and plan: "plan_of (detector env h) ev s = (Inr (Some p), t1, s1)"
    and eo: "opened cfg ev p eo" and eb: "breaker_event cfg ws n eb"
    and ap: "apply_of (detector env h) p s2 = (ra, ta, sa)"
    and c: "conclude env cfg (build_notifier env cfg) ev p (plan_key_of cfg ev p) out sa = (Inl e, tc, s')"
    and t: "t = t1 @ [eo, eb] @ ta @ tc"
  have "list_all (\<lambda>y. before_close (fst y)) (t1 @ [eo, eb] @ ta)"
    using emitsD [OF detector_reads plan] emitsD [OF detector_remediates ap] eo eb
    by (auto simp: list_all_iff opened_def breaker_event_def pk_open_item startswith_def before_close_put
        intro: before_close_quiet before_close_count)
  then show thesis by (rule that [OF own c, rotated]) (simp add: t)
qed

lemma last_close_failed:
  assumes "conclude env cfg (build_notifier env cfg) ev p (plan_key_of cfg ev p) out s = (Inl e, t, s')"
    and "last t = (close_call (table_name cfg) (plan_key_of cfg ev' p') out' now, Inl e)"
  shows "t = [(close_call (table_name cfg) (plan_key_of cfg ev p) out now, Inl e)] \<and>
         plan_key_of cfg ev' p' = plan_key_of cfg ev p"
  using assms(1)
proof (cases rule: concludeE)
  case (notified n v s1 r2 t2)
  have "\<not> is_alert (close_call (table_name cfg) (plan_key_of cfg ev' p') out' now)"
    using pk_plan_key_audit [of cfg ev' p'] by (auto simp: is_alert_def close_call_def startswith_def prefix_def)
  moreover have "t2 \<noteq> [] \<Longrightarrow> is_alert (fst (last t2))"
    using emitsD [OF notifier_alerts notified(1)] by (simp add: list_all_iff)
  ultimately show ?thesis using notified(2) assms(2) by (cases "t2 = []") auto
next
  case (not_closed n e')
  with assms(2) show ?thesis by (auto simp: close_call_def close_values_def)
qed

text \<open>An event that tells anybody about a change: an alert, or a record that was closed.\<close>

definition reports :: "config \<Rightarrow> event \<Rightarrow> bool" where
  "reports cfg y \<longleftrightarrow> is_alert (fst y) \<or> (\<exists>k out now v. y = (close_call (table_name cfg) k out now, Inr v))"

lemma before_close_silent: "before_close (fst y) \<Longrightarrow> \<not> reports cfg y"
  unfolding before_close_def reports_def by (metis fst_conv)


text \<open>The account after the change: only the HTTPS rule is left.\<close>

definition closed_env :: "unit env" where
  "closed_env = \<lparr>
     perform = (\<lambda>c w. (case c of
        DescribeSecurityGroups _ \<Rightarrow> Inr (VDict [(''SecurityGroups'', VList [VDict
          [(''GroupName'', VStr ''web''), (''IpPermissions'', VList [https_rule])]])])
      | _ \<Rightarrow> Inr (VDict []), w)),
     clock_now = (\<lambda>w. (midnight, w))\<rparr>"

lemma closed_plan:
  "\<exists>t1. plan_of (detector closed_env SG_OPEN) demo_event demo_state = (Inr None, t1, demo_state)"
proof -
  let ?run = "sg_plan closed_env demo_event demo_state"
  have "webhook_cache (snd (snd ?run)) = None" by code_simp
  then have "snd (snd ?run) = demo_state" by (rule demo_unit)
  moreover have "\<not> isl (result ?run) \<and> projr (result ?run) = None" by code_simp
  then have "result ?run = Inr None" by (cases "result ?run") simp_all
  ultimately show ?thesis by (cases ?run) (simp add: sg_open_def)
qed


end
