(* ===== verification/Ledger.thy ===== *)
theory Ledger
  imports Redelivery
begin

text \<open>
  The audit table as a state. A run only sends writes; here is what they leave behind. DynamoDB is
  a parameter: what a write call makes of the item it addresses, with the two facts of its
  documentation the program relies on. A write that raised may have been stored or not, the
  process may be killed anywhere, and the items of others may change at any time.
\<close>

subsection \<open>The table\<close>

type_synonym stored = "string \<rightharpoonup> pyval"
type_synonym ledger = "string \<times> string \<Rightarrow> stored option"

definition item_key :: "pydict \<Rightarrow> string \<times> string" where
  "item_key d = (pk_of d, sk_of d)"

text \<open>The item of table \<open>tb\<close> a call writes.\<close>

definition target :: "string \<Rightarrow> call \<Rightarrow> (string \<times> string) option" where
  "target tb c =
     (case c of
        PutItem tb' d _ _ \<Rightarrow> if tb' = tb then Some (item_key d) else None
      | UpdateItem tb' k _ _ _ _ \<Rightarrow> if tb' = tb then Some (item_key k) else None
      | _ \<Rightarrow> None)"

definition written :: "(call \<Rightarrow> stored option \<Rightarrow> stored option) \<Rightarrow> string \<Rightarrow> call \<Rightarrow> ledger \<Rightarrow> ledger" where
  "written dyn tb c T = (case target tb c of None \<Rightarrow> T | Some k \<Rightarrow> T(k := dyn c (T k)))"

text \<open>
  The documented effects: \<open>put_item\<close> stores the item in place of the one that was there, and an
  update with the \<open>SET\<close> expression of \<open>audit_close\<close> assigns its five attributes and keeps the others.
  What stands for an attribute with \<open>#\<close> is its name among the attribute names, what stands for a
  value with \<open>:\<close> is among the attribute values.
\<close>

definition as_documented :: "(call \<Rightarrow> stored option \<Rightarrow> stored option) \<Rightarrow> bool" where
  "as_documented dyn \<longleftrightarrow>
     (\<forall>tb d cnd vs it. dyn (PutItem tb d cnd vs) it = Some (map_of d)) \<and>
     (\<forall>tb k names vals rv it s e st acts fin why err.
        map_of names ''#s'' = Some (VStr s) \<longrightarrow> map_of names ''#e'' = Some (VStr e) \<longrightarrow>
        map_of vals '':status'' = Some st \<longrightarrow> map_of vals '':actions'' = Some acts \<longrightarrow>
        map_of vals '':completed'' = Some fin \<longrightarrow> map_of vals '':reason'' = Some why \<longrightarrow>
        map_of vals '':error'' = Some err \<longrightarrow>
        dyn (UpdateItem tb k close_expression names vals rv) (Some it) =
          Some (it(s \<mapsto> st, ''actions'' \<mapsto> acts, ''completed_at'' \<mapsto> fin, ''outcome_reason'' \<mapsto> why, e \<mapsto> err)))"

text \<open>
  What can become of the table while a run makes the calls of its trace, seen from the owner of
  the item \<open>k\<close>.
\<close>

inductive table_run ::
  "(call \<Rightarrow> stored option \<Rightarrow> stored option) \<Rightarrow> string \<Rightarrow> string \<times> string \<Rightarrow> ledger \<Rightarrow> event list \<Rightarrow> ledger \<Rightarrow> bool"
  for dyn :: "call \<Rightarrow> stored option \<Rightarrow> stored option" and tb :: string and k :: "string \<times> string" and T0 :: ledger
where
  start: "table_run dyn tb k T0 [] T0"
| kept: "table_run dyn tb k T0 t T \<Longrightarrow> table_run dyn tb k T0 (t @ [(c, a)]) (written dyn tb c T)"
| dropped: "table_run dyn tb k T0 t T \<Longrightarrow> table_run dyn tb k T0 (t @ [(c, Inl e)]) T"
| others: "table_run dyn tb k T0 t T \<Longrightarrow> T' k = T k \<Longrightarrow> table_run dyn tb k T0 t T'"

lemma table_run_split:
  "table_run dyn tb k T0 w T \<Longrightarrow> w = u @ v \<Longrightarrow> \<exists>T1. table_run dyn tb k T0 u T1 \<and> table_run dyn tb k T1 v T"
proof (induction arbitrary: v rule: table_run.induct)
  case start
  then show ?case by (auto intro: table_run.start)
next
  case (kept t T c a)
  then show ?case
    by (cases v rule: rev_cases) (auto intro: table_run.intros)
next
  case (dropped t T c e)
  then show ?case
    by (cases v rule: rev_cases) (auto intro: table_run.intros)
next
  case (others t T T')
  then show ?case by (blast intro: table_run.others)
qed

lemma table_run_untouched:
  "table_run dyn tb k T0 w T \<Longrightarrow> list_all (\<lambda>y. target tb (fst y) \<noteq> Some k) w \<Longrightarrow> T k = T0 k"
  by (induction rule: table_run.induct) (auto simp: written_def split: option.splits)

lemma table_run_one:
  assumes "table_run dyn tb k T0 w T" and "w = [(c, a)]" and "target tb c = Some k"
  shows "T k = dyn c (T0 k) \<or> isl a \<and> T k = T0 k"
  using assms
proof (induction rule: table_run.induct)
  case (kept t T c' a')
  with table_run_untouched [of dyn tb k T0 "[]" T] show ?case by (simp add: written_def)
next
  case (dropped t T c' e)
  with table_run_untouched [of dyn tb k T0 "[]" T] show ?case by auto
qed auto

lemma table_run_Cons:
  "table_run dyn tb k T0 (y # w) T \<Longrightarrow> \<exists>T1. table_run dyn tb k T0 [y] T1 \<and> table_run dyn tb k T1 w T"
  by (erule table_run_split) simp

subsection \<open>Which calls write which item\<close>

lemma target_quiet: "is_read c \<Longrightarrow> target tb c = None" "is_remediation c \<Longrightarrow> target tb c = None"
  by (cases c; simp add: target_def)+

lemma target_pk: "target tb c = Some k \<Longrightarrow> write_pk c = Some (fst k)"
  by (auto simp: target_def item_key_def split: call.splits if_splits)

lemma audit_item_alert:
  assumes "is_alert c"
  shows "target tb c \<noteq> Some (item_key (plan_key_of cfg ev p))"
proof
  assume k: "target tb c = Some (item_key (plan_key_of cfg ev p))"
  then have "writes_under ''DEDUP#'' c"
    using assms by (auto simp: is_alert_def target_def split: call.splits)
  with target_pk [OF k] show False
    by (auto simp: writes_under_def item_key_def pk_plan_key startswith_def prefix_def)
qed

lemma audit_item_count: "breaker_event cfg ws n y \<Longrightarrow> target tb (fst y) \<noteq> Some (item_key (plan_key_of cfg ev p))"
  by (auto simp: breaker_event_def breaker_update_def target_def item_key_def pk_breaker_key pk_plan_key
      split: if_splits)

lemma item_key_open: "item_key (open_item now (cfg_detection_id cfg) ev p dry) = item_key (plan_key_of cfg ev p)"
  using sk_audit_key [of "cfg_detection_id cfg" "resource_id p" "event_time ev" "event_id ev" "[]"]
  by (simp add: item_key_def pk_open_item pk_plan_key) (simp add: open_item_def plan_key_def sk_audit_key)

subsection \<open>The record of a change\<close>

text \<open>
  What the record of a plan looks like: planned, or closed with an outcome. The closed record keeps
  every attribute the two phases do not share, the snapshot among them.
\<close>

definition planned_record :: "string \<Rightarrow> config \<Rightarrow> detection_event \<Rightarrow> plan \<Rightarrow> stored" where
  "planned_record now cfg ev p = map_of (open_item now (cfg_detection_id cfg) ev p (dry_run cfg))"

definition closed_record :: "string \<Rightarrow> outcome \<Rightarrow> stored \<Rightarrow> stored" where
  "closed_record now out it =
     it(''status'' \<mapsto> VStr (status_value (status out)), ''actions'' \<mapsto> strs (actions out),
        ''completed_at'' \<mapsto> VStr now, ''outcome_reason'' \<mapsto> VStr (outcome_reason out),
        ''error'' \<mapsto> opt_str (error out))"

lemma planned_put:
  "as_documented dyn \<Longrightarrow>
     dyn (PutItem tb (open_item now (cfg_detection_id cfg) ev p (dry_run cfg)) cnd vs) it = Some (planned_record now cfg ev p)"
  by (simp add: as_documented_def planned_record_def)

lemma closed_update: "as_documented dyn \<Longrightarrow> dyn (close_call tb k out now) (Some it) = Some (closed_record now out it)"
  by (simp add: as_documented_def close_call_def close_values_def closed_record_def)

lemma planned_snapshot: "planned_record now cfg ev p ''snapshot'' = Some (VStr (dump (VDict (snapshot p))))"
  by (simp add: planned_record_def open_item_snapshot)

lemma closed_snapshot: "closed_record now out it ''snapshot'' = it ''snapshot''"
  by (simp add: closed_record_def)

text \<open>Opening a record stores it, and what does not write its item leaves it there.\<close>

lemma stored_by_open:
  assumes "as_documented dyn" and "opened cfg ev p eo" and "k = item_key (plan_key_of cfg ev p)"
    and "table_run dyn (table_name cfg) k T (u @ eo # v) T'"
    and "list_all (\<lambda>y. target (table_name cfg) (fst y) \<noteq> Some k) v"
  shows "\<exists>now. T' k = Some (planned_record now cfg ev p)"
proof -
  obtain now a where eo: "eo = (PutItem (table_name cfg)
      (open_item now (cfg_detection_id cfg) ev p (dry_run cfg)) None [], Inr a)"
    using assms(2) by (auto simp: opened_def)
  obtain T1 where run: "table_run dyn (table_name cfg) k T1 (eo # v) T'"
    using table_run_split [OF assms(4) refl] by blast
  obtain T2 where one: "table_run dyn (table_name cfg) k T1 [eo] T2"
    and rest: "table_run dyn (table_name cfg) k T2 v T'"
    using table_run_Cons [OF run] by blast
  have "T2 k = Some (planned_record now cfg ev p)"
    using table_run_one [OF one [unfolded eo] refl] planned_put [OF assms(1)] by (simp add: target_def item_key_open assms(3))
  with table_run_untouched [OF rest assms(5)] have "T' k = Some (planned_record now cfg ev p)" by simp
  then show ?thesis by blast
qed

text \<open>The tail of a run closes the record, or leaves it planned when it is cut off or its write fails.\<close>

lemma stored_by_conclude:
  assumes "as_documented dyn" and "conclude env cfg (build_notifier env cfg) ev p (plan_key_of cfg ev p) out s = (r, t, s')"
    and "k = item_key (plan_key_of cfg ev p)" and "prefix w t"
    and "table_run dyn (table_name cfg) k T w T'" and "T k = Some it"
  shows "T' k = Some it \<or> (\<exists>now. T' k = Some (closed_record now out it))"
    and "r = Inr out' \<Longrightarrow> w = t \<Longrightarrow> out' = out \<and> (\<exists>now. T' k = Some (closed_record now out it))"
proof -
  obtain now a t2 where t: "t = (close_call (table_name cfg) (plan_key_of cfg ev p) out now, a) # t2"
    and quiet: "list_all (\<lambda>y. is_alert (fst y)) t2"
    and r: "r = Inr out' \<Longrightarrow> out' = out \<and> \<not> isl a"
    using assms(2)
  proof (cases rule: concludeE)
    case (not_closed now e)
    then show ?thesis by (intro that [of now "Inl e" "[]"]) simp_all
  next
    case (notified now a s1 r2 t2)
    with emitsD [OF notifier_alerts notified(1)] show ?thesis
      by (intro that [of now "Inr a" t2]) (simp_all split: sum.splits)
  qed
  have target: "target (table_name cfg) (close_call (table_name cfg) (plan_key_of cfg ev p) out now) = Some k"
    by (simp add: target_def close_call_def assms(3))
  have closing: "T' k = Some (closed_record now out it) \<or> isl a \<and> T' k = Some it" if ne: "w \<noteq> []"
  proof -
    obtain w2 where w: "w = (close_call (table_name cfg) (plan_key_of cfg ev p) out now, a) # w2" "prefix w2 t2"
      using ne assms(4) t by (cases w) auto
    obtain T1 where one: "table_run dyn (table_name cfg) k T
        [(close_call (table_name cfg) (plan_key_of cfg ev p) out now, a)] T1"
      and rest: "table_run dyn (table_name cfg) k T1 w2 T'"
      using table_run_Cons assms(5) unfolding w(1) by blast
    have "T' k = T1 k"
      using quiet set_mono_prefix [OF w(2)] audit_item_alert [of _ "table_name cfg" cfg ev p] assms(3)
      by (intro table_run_untouched [OF rest]) (auto simp: list_all_iff)
    with table_run_one [OF one refl target] show ?thesis by (simp add: assms(6) closed_update [OF assms(1)])
  qed
  show "T' k = Some it \<or> (\<exists>now. T' k = Some (closed_record now out it))"
  proof (cases "w = []")
    case True
    with table_run_untouched [OF assms(5)] assms(6) show ?thesis by simp
  qed (use closing in blast)
  show "r = Inr out' \<Longrightarrow> w = t \<Longrightarrow> out' = out \<and> (\<exists>now. T' k = Some (closed_record now out it))"
    using closing r t by blast
qed

text \<open>
  C6: the record of a change survives everything. From the moment a call that changes a resource is
  made, at whatever call the process is killed, whatever answers it got and whether writes
  that raised were stored, the table holds the record of the plan with its snapshot, planned or closed
  as applied or failed; and once the run has returned, it is closed with the returned outcome.
\<close>

theorem record_survives:
  assumes "as_documented dyn" and "execute env (detector env h) raw cfg (build_notifier env cfg) s = (r, t, s')"
    and "t = u @ x # v" and "is_remediation (fst x)" and "prefix u w" and "prefix w t"
    and "parse raw = Inr ev" and "plan_of (detector env h) ev s = (Inr (Some p), t1, s1)"
    and "table_run dyn (table_name cfg) (item_key (plan_key_of cfg ev p)) T w T'"
  shows "\<exists>it now. T' (item_key (plan_key_of cfg ev p)) = Some it \<and>
           it ''snapshot'' = Some (VStr (dump (VDict (snapshot p)))) \<and>
           (it = planned_record now cfg ev p \<or>
            (\<exists>out now'. it = closed_record now' out (planned_record now cfg ev p) \<and> status out \<in> {APPLIED, FAILED})) \<and>
           (\<forall>out. r = Inr out \<and> w = t \<longrightarrow> (\<exists>now'. it = closed_record now' out (planned_record now cfg ev p)))"
proof -
  let ?tb = "table_name cfg" and ?k = "item_key (plan_key_of cfg ev p)"
  have "x \<in> set t" using assms(3) by simp
  then obtain ev' p' t1' s1' eo ws n eb s2 ra ta sa out tc where
    own: "parse raw = Inr ev'" "plan_of (detector env h) ev' s = (Inr (Some p'), t1', s1')"
    and seen: "opened cfg ev' p' eo" "apply_of (detector env h) p' s2 = (ra, ta, sa)"
    "conclude env cfg (build_notifier env cfg) ev' p' (plan_key_of cfg ev' p') out sa = (r, tc, s')"
    "t = t1' @ [eo, eb] @ ta @ tc"
    and eb: "breaker_event cfg ws n eb" and st: "status out = (if isl ra then FAILED else APPLIED)"
    by (rule change_shape [OF assms(2) _ assms(4)])
  have same: "ev' = ev" "p' = p" "t1' = t1" using own assms(7,8) by simp_all
  note eo = seen(1) [unfolded same] and ap = seen(2) [unfolded same] and con = seen(3) [unfolded same]
    and t = seen(4) [unfolded same]
  have x: "x \<notin> set (t1 @ [eo, eb])"
    using emitsD [OF detector_reads assms(8)] eo eb assms(4)
    by (auto simp: list_all_iff opened_def breaker_event_def breaker_update_def dest: quiet_calls)
  have "(t1 @ [eo, eb]) @ ta @ tc = u @ x # v" using t assms(3) by simp
  from append_eq_split [OF this] x obtain u2 where "u = (t1 @ [eo, eb]) @ u2" by (metis in_set_conv_decomp)
  then obtain w2 where w: "w = (t1 @ [eo, eb]) @ w2" and w2: "prefix w2 (ta @ tc)"
    using assms(5,6) t by (auto simp: prefix_def)
  have free: "list_all (\<lambda>y. target ?tb (fst y) \<noteq> Some ?k) (eb # z)" if "prefix z ta" for z
  proof -
    have "list_all (\<lambda>y. is_remediation (fst y)) z"
      using emitsD [OF detector_remediates ap] that by (auto simp: prefix_def)
    then have "list_all (\<lambda>y. target ?tb (fst y) \<noteq> Some ?k) z"
      by (rule list.pred_mono_strong) (simp add: target_quiet)
    with audit_item_count [OF eb] show ?thesis by simp
  qed
  from w2 consider "prefix w2 ta" | w3 where "w2 = ta @ w3" "prefix w3 tc" by (auto simp: prefix_append)
  then show ?thesis
  proof cases
    case 1
    have "tc \<noteq> []" using con by (cases rule: concludeE) auto
    with 1 have "w \<noteq> t" by (auto simp: w t prefix_def)
    moreover have "table_run dyn ?tb ?k T (t1 @ eo # (eb # w2)) T'" using assms(9) by (simp add: w)
    from stored_by_open [OF assms(1) eo refl this free [OF 1]]
    obtain now where "T' ?k = Some (planned_record now cfg ev p)" by blast
    ultimately show ?thesis by (auto simp: planned_snapshot)
  next
    case 2
    have "table_run dyn ?tb ?k T ((t1 @ eo # (eb # ta)) @ w3) T'" using assms(9) by (simp add: w 2(1))
    from table_run_split [OF this refl] obtain T1 where a: "table_run dyn ?tb ?k T (t1 @ eo # (eb # ta)) T1"
      and b: "table_run dyn ?tb ?k T1 w3 T'" by blast
    obtain now where T1: "T1 ?k = Some (planned_record now cfg ev p)"
      using stored_by_open [OF assms(1) eo refl a free [OF prefix_order.order_refl]] by blast
    note tail = stored_by_conclude [OF assms(1) con refl 2(2) b T1]
    have full: "w = t \<longleftrightarrow> w3 = tc" by (simp add: w t 2(1))
    from st have ended: "status out \<in> {APPLIED, FAILED}" by simp
    show ?thesis
    proof (cases "T' ?k = Some (planned_record now cfg ev p)")
      case True
      with tail(2) full show ?thesis by (fastforce simp: planned_snapshot)
    next
      case False
      with tail(1) obtain now' where "T' ?k = Some (closed_record now' out (planned_record now cfg ev p))" by blast
      with tail(2) full ended show ?thesis by (auto simp: planned_snapshot closed_snapshot)
    qed
  qed
qed

text \<open>A service that does what is documented, on the run of the demonstration.\<close>

definition demo_dyn :: "call \<Rightarrow> stored option \<Rightarrow> stored option" where
  "demo_dyn c it =
     (case c of
        PutItem _ d _ _ \<Rightarrow> Some (map_of d)
      | UpdateItem _ _ _ names vals _ \<Rightarrow>
          map_option (\<lambda>m. m(py_str (dict_get names ''#s'' VNone) := map_of vals '':status'', ''actions'' := map_of vals '':actions'',
            ''completed_at'' := map_of vals '':completed'', ''outcome_reason'' := map_of vals '':reason'',
            py_str (dict_get names ''#e'' VNone) := map_of vals '':error'')) it
      | _ \<Rightarrow> it)"

lemma demo_dyn_documented: "as_documented demo_dyn"
  by (simp add: as_documented_def demo_dyn_def dict_get_def)

lemma table_run_ends: "\<exists>T. table_run dyn tb k T0 w T"
proof (induction w rule: rev_induct)
  case (snoc y w)
  then show ?case by (cases y) (auto intro: table_run.kept)
qed (auto intro: table_run.start)

theorem record_survives_witness:
  "\<exists>T it. table_run demo_dyn ''pac'' (item_key (plan_key_of demo_cfg demo_event demo_plan)) (\<lambda>_. None)
       (events (demo_run (Inr VNone))) T \<and>
     T (item_key (plan_key_of demo_cfg demo_event demo_plan)) = Some it \<and>
     it ''snapshot'' = Some (VStr (dump (VDict (snapshot demo_plan)))) \<and> it ''status'' = Some (VStr ''APPLIED'')"
proof -
  let ?t = "demo_reads @ [demo_opening, demo_counting, demo_revoke, demo_closing (Inr VNone)]"
  obtain T where run: "table_run demo_dyn (table_name demo_cfg)
      (item_key (plan_key_of demo_cfg demo_event demo_plan)) (\<lambda>_. None) ?t T"
    using table_run_ends by blast
  have split: "?t = (demo_reads @ [demo_opening, demo_counting]) @ demo_revoke # [demo_closing (Inr VNone)]" by simp
  have parsed: "parse demo_raw = Inr demo_event" using demo_parse by (simp add: demo_event_def)
  have plan: "plan_of (detector (demo_env (Inr VNone)) SG_OPEN) demo_event demo_state = (Inr (Some demo_plan), demo_reads, demo_state)"
    by (simp add: sg_open_def demo_plan_run)
  from record_survives [OF demo_dyn_documented demo_trace [of "Inr VNone", unfolded demo_run_def demo_result_def sum.case]
      split demo_revoked _ prefix_order.order_refl parsed plan run]
  obtain it now now' where "T (item_key (plan_key_of demo_cfg demo_event demo_plan)) = Some it"
    "it ''snapshot'' = Some (VStr (dump (VDict (snapshot demo_plan))))"
    "it = closed_record now' demo_outcome (planned_record now demo_cfg demo_event demo_plan)"
    by (auto simp: prefix_def)
  moreover have "status_value (status demo_outcome) = ''APPLIED''" by (simp add: demo_outcome_def planned_outcome_def)
  ultimately show ?thesis using run by (auto simp: demo_trace closed_record_def)
qed

subsection \<open>The record and the next delivery of its event\<close>

text \<open>
  Delivered again, the event finds a resource that is no longer dangerous: the note of that run goes
  to an item of its own and the record of the change stays as it was. The note of a skipped event
  names the resource \<open>none\<close>, so a resource of that name shares its item with it.
\<close>

lemma unplanned_elsewhere:
  assumes "record_unplanned env (table_name cfg) (cfg_detection_id cfg) ev (skip cfg why sev) s = (r, t, s')"
    and "resource_id p \<noteq> ''none''"
  shows "list_all (\<lambda>y. target (table_name cfg) (fst y) \<noteq> Some (item_key (plan_key_of cfg ev p))) t"
  using assms by (cases rule: record_unplannedE)
    (simp_all add: target_def item_key_def pk_unplanned_item pk_plan_key skip_def)

lemma redelivery_keeps:
  assumes "execute env (detector env h) raw cfg notify s = (r, t, s')" and "parse raw = Inr ev"
    and "plan_of (detector env h) ev s = (Inr None, t1, s1)" and "resource_id p \<noteq> ''none''"
    and "table_run dyn (table_name cfg) (item_key (plan_key_of cfg ev p)) T w T'" and "prefix w t"
  shows "T' (item_key (plan_key_of cfg ev p)) = T (item_key (plan_key_of cfg ev p))"
proof -
  let ?free = "list_all (\<lambda>y. target (table_name cfg) (fst y) \<noteq> Some (item_key (plan_key_of cfg ev p)))"
  have "?free t"
    using assms(1)
  proof (cases rule: executeE)
    case (own ev' r1 out)
    with assms(2) unplanned_elsewhere [OF _ assms(4)] show ?thesis by auto
  next
    case (benign ev' t1 s1 r1 t2 out)
    have "list_all (\<lambda>y. is_read (fst y)) t1" by (rule emitsD [OF detector_reads benign(3)])
    then have "?free t1" by (rule list.pred_mono_strong) (simp add: target_quiet)
    with benign assms(2) unplanned_elsewhere [OF _ assms(4)] show ?thesis by auto
  qed (use assms(2,3) in auto)
  then show ?thesis using assms(6) by (intro table_run_untouched [OF assms(5)]) (auto simp: prefix_def)
qed

text \<open>
  When the event is delivered again and the resource is dangerous again, the record it opens has the
  key of the first: the unconditional \<open>put_item\<close> replaces the first snapshot and its outcome.
\<close>

lemma redelivery_replaces:
  assumes "as_documented dyn" and "opened cfg ev p' eo" and "resource_id p' = resource_id p"
    and "table_run dyn (table_name cfg) (item_key (plan_key_of cfg ev p)) T [eo] T'"
  shows "\<exists>now. T' (item_key (plan_key_of cfg ev p)) = Some (planned_record now cfg ev p')"
proof -
  have key: "plan_key_of cfg ev p = plan_key_of cfg ev p'" by (simp add: plan_key_def assms(3))
  show ?thesis
    using stored_by_open [OF assms(1,2) refl, of T "[]" "[]" T'] assms(4) unfolding key by simp
qed

end
