(* ===== verification/JsonRound.thy ===== *)
theory JsonRound
  imports PyJson
begin

text \<open>
  \<open>json.loads\<close> reads back what \<open>json.dumps\<close> wrote: strings, escapes and surrogate pairs included,
  integers and floats, lists and dicts to any depth. What comes back is the value up to what JSON
  cannot hold: dicts in the written order, bytes and other objects as their \<open>str\<close>.
\<close>

subsection \<open>Code points\<close>

text \<open>A Unicode scalar value: a code point that is no surrogate.\<close>

definition scalar :: "nat \<Rightarrow> bool" where
  "scalar n \<longleftrightarrow> n < 1114112 \<and> \<not> (55296 \<le> n \<and> n \<le> 57343)"

text \<open>The bytes are the UTF-8 encoding of a sequence of scalar values.\<close>

definition utf8_text :: "string \<Rightarrow> bool" where
  "utf8_text s \<longleftrightarrow> list_all scalar (code_points s) \<and> concat (map utf8 (code_points s)) = s"

lemma byte_value: "k < 256 \<Longrightarrow> (of_char (char_of k :: char) :: nat) = k"
  by simp

lemma code_points_bytes:
  "a < 192 \<Longrightarrow> code_points (char_of a # s) = a # code_points s"
  "a < 32 \<Longrightarrow> b < 64 \<Longrightarrow> code_points (char_of (192 + a) # char_of (128 + b) # s) = (a * 64 + b) # code_points s"
  "a < 16 \<Longrightarrow> b < 64 \<Longrightarrow> c < 64 \<Longrightarrow>
   code_points (char_of (224 + a) # char_of (128 + b) # char_of (128 + c) # s) =
   (a * 4096 + b * 64 + c) # code_points s"
  "a < 16 \<Longrightarrow> b < 64 \<Longrightarrow> c < 64 \<Longrightarrow> d < 64 \<Longrightarrow>
   code_points (char_of (240 + a) # char_of (128 + b) # char_of (128 + c) # char_of (128 + d) # s) =
   (a * 262144 + b * 4096 + c * 64 + d) # code_points s"
  by (simp_all add: byte_value Let_def del: of_char_of)

lemma base64_digits:
  fixes n :: nat
  shows "n div 64 * 64 + n mod 64 = n"
    and "n div 4096 * 4096 + n div 64 mod 64 * 64 + n mod 64 = n"
    and "n div 262144 * 262144 + n div 4096 mod 64 * 4096 + n div 64 mod 64 * 64 + n mod 64 = n"
proof -
  have q: "n div 64 div 64 = n div 4096" "n div 4096 div 64 = n div 262144"
    by (simp_all add: div_mult2_eq [symmetric])
  note d = div_mult_mod_eq [of n 64] div_mult_mod_eq [of "n div 64" 64] div_mult_mod_eq [of "n div 4096" 64]
  show "n div 64 * 64 + n mod 64 = n" by simp
  show "n div 4096 * 4096 + n div 64 mod 64 * 64 + n mod 64 = n"
    using d q by linarith
  show "n div 262144 * 262144 + n div 4096 mod 64 * 4096 + n div 64 mod 64 * 64 + n mod 64 = n"
    using d q by linarith
qed

lemma code_points_utf8:
  assumes "n < 1114112"
  shows "code_points (utf8 n @ s) = n # code_points s"
proof -
  consider "n < 128" | "128 \<le> n" "n < 2048" | "2048 \<le> n" "n < 65536" | "65536 \<le> n" by linarith
  then show ?thesis
  proof cases
    case 1
    then show ?thesis by (simp add: utf8_def code_points_bytes(1) del: code_points.simps)
  next
    case 2
    then have "n div 64 < 32" by (simp add: less_mult_imp_div_less)
    with 2 show ?thesis
      using code_points_bytes(2) [of "n div 64" "n mod 64" s] by (simp add: utf8_def base64_digits(1) del: code_points.simps)
  next
    case 3
    then have "n div 4096 < 16" by (simp add: less_mult_imp_div_less)
    with 3 show ?thesis
      using code_points_bytes(3) [of "n div 4096" "n div 64 mod 64" "n mod 64" s]
      by (simp add: utf8_def base64_digits(2) del: code_points.simps)
  next
    case 4
    then have "n div 262144 < 16" using assms by (simp add: less_mult_imp_div_less)
    with 4 show ?thesis
      using code_points_bytes(4) [of "n div 262144" "n div 4096 mod 64" "n div 64 mod 64" "n mod 64" s]
      by (simp add: utf8_def base64_digits(3) del: code_points.simps)
  qed
qed

lemma code_points_concat: "list_all scalar ns \<Longrightarrow> code_points (concat (map utf8 ns)) = ns"
  by (induction ns) (simp_all add: code_points_utf8 scalar_def)

lemma utf8_text_concat: "list_all scalar ns \<Longrightarrow> utf8_text (concat (map utf8 ns))"
  by (simp add: utf8_text_def code_points_concat)

lemma utf8_textE:
  assumes "utf8_text s"
  obtains ns where "list_all scalar ns" and "s = concat (map utf8 ns)" and "code_points s = ns"
  using assms by (auto simp: utf8_text_def)

subsection \<open>Escapes\<close>

lemma hex_val_digit [simp]: "hex_val (hex_digit d) = Some (d mod 16)"
proof -
  have "\<forall>k\<in>set [0..<16]. hex_val (''0123456789abcdef'' ! k) = Some k" by code_simp
  then show ?thesis by (simp add: hex_digit_def del: hex_val.simps)
qed

declare hex_val.simps [simp del]

lemma hex4_val_hex4:
  assumes "n < 65536"
  shows "hex4_val (hex_digit (n div 4096)) (hex_digit (n div 256)) (hex_digit (n div 16)) (hex_digit n) = Some n"
proof -
  have "n div 4096 < 16" using assms by (simp add: less_mult_imp_div_less)
  moreover have "n div 256 = n div 4096 * 16 + n div 256 mod 16"
    and "n div 16 = n div 256 * 16 + n div 16 mod 16" and "n = n div 16 * 16 + n mod 16"
    using div_mult_mod_eq [of "n div 256" 16] div_mult_mod_eq [of "n div 16" 16]
    by (simp_all add: div_mult2_eq [symmetric])
  ultimately have "n div 4096 * 4096 + n div 256 mod 16 * 256 + n div 16 mod 16 * 16 + n mod 16 = n"
    by linarith
  with \<open>n div 4096 < 16\<close> show ?thesis by (simp add: hex4_val_def)
qed

lemma unicode_escape_bmp:
  "n < 65536 \<Longrightarrow> \<not> (55296 \<le> n \<and> n \<le> 56319) \<Longrightarrow> unicode_escape (hex4 n @ s) = Some (n, s)"
  by (auto simp: unicode_escape_def hex4_def hex4_val_hex4)

lemma unicode_escape_pair:
  assumes "65536 \<le> n" and "n < 1114112"
  shows "unicode_escape (hex4 (55296 + (n - 65536) div 1024) @ [CHR 0x5C, CHR ''u''] @
           hex4 (56320 + (n - 65536) mod 1024) @ s) = Some (n, s)"
proof -
  define hi where "hi = 55296 + (n - 65536) div 1024"
  define lo where "lo = 56320 + (n - 65536) mod 1024"
  have hi: "hi < 65536" "55296 \<le> hi" "hi \<le> 56319"
    using assms by (auto simp: hi_def)
  have lo: "lo < 65536" "56320 \<le> lo" "lo \<le> 57343" 
    using mod_less_divisor [of 1024 "n - 65536"] by (auto simp: lo_def simp del: mod_less_divisor)
  have "65536 + (hi - 55296) * 1024 + (lo - 56320) = n"
    using assms(1) by (simp add: hi_def lo_def)
  then show ?thesis
    unfolding hi_def [symmetric] lo_def [symmetric]
    using hi lo by (simp add: unicode_escape_def hex4_def hex4_val_hex4)
qed

lemma parse_string_escape:
  assumes "scalar n"
  shows "parse_string (json_escape n @ s) = map_option (\<lambda>(x, r). (utf8 n @ x, r)) (parse_string s)"
proof -
  consider (named) "n \<in> {34, 92, 10, 13, 9, 12, 8}" | (plain) "n \<notin> {34, 92}" "32 \<le> n" "n \<le> 126"
    | (bmp) "n \<notin> {34, 92, 10, 13, 9, 12, 8}" "n < 32 \<or> 126 < n" "n < 65536"
    | (astral) "65536 \<le> n" by force
  then show ?thesis
  proof cases
    case named
    moreover have "(char_of (34::nat) :: char) = CHR 0x22" "(char_of (92::nat) :: char) = CHR 0x5C"
      "(char_of (10::nat) :: char) = CHR 0x0A" "(char_of (13::nat) :: char) = CHR 0x0D"
      "(char_of (9::nat) :: char) = CHR 0x09" "(char_of (12::nat) :: char) = CHR 0x0C"
      "(char_of (8::nat) :: char) = CHR 0x08" by code_simp+
    ultimately show ?thesis by (auto simp: json_escape_def unescape_def utf8_def)
  next
    case plain
    then have "(of_char (char_of n :: char) :: nat) = n" by (simp add: byte_value del: of_char_of)
    moreover have "(of_char (CHR 0x22) :: nat) = 34" "(of_char (CHR 0x5C) :: nat) = 92" by simp_all
    ultimately have "(char_of n :: char) \<noteq> CHR 0x22" and "(char_of n :: char) \<noteq> CHR 0x5C"
      using plain(1) by (metis insertCI)+
    with plain show ?thesis by (simp add: json_escape_def utf8_def)
  next
    case bmp
    with assms have "unicode_escape (hex4 n @ s) = Some (n, s)"
      by (intro unicode_escape_bmp) (auto simp: scalar_def)
    with bmp show ?thesis by (auto simp: json_escape_def)
  next
    case astral
    with assms have "unicode_escape (hex4 (55296 + (n - 65536) div 1024) @ [CHR 0x5C, CHR ''u''] @
           hex4 (56320 + (n - 65536) mod 1024) @ s) = Some (n, s)"
      by (intro unicode_escape_pair) (auto simp: scalar_def)
    with astral show ?thesis by (simp add: json_escape_def)
  qed
qed

lemma parse_string_escapes:
  "list_all scalar ns \<Longrightarrow>
   parse_string (concat (map json_escape ns) @ CHR 0x22 # r) = Some (concat (map utf8 ns), r)"
  by (induction ns) (simp_all add: parse_string_escape)

lemma json_string_hd: "json_string s = CHR 0x22 # concat (map json_escape (code_points s)) @ [CHR 0x22]"
  by (simp add: json_string_def)

lemma parse_string_json:
  assumes "utf8_text s"
  shows "parse_string (concat (map json_escape (code_points s)) @ CHR 0x22 # r) = Some (s, r)"
  using assms by (elim utf8_textE) (simp add: parse_string_escapes)

subsection \<open>Numbers\<close>

lemma number_value_append: "number_value (xs @ ys) = foldl (\<lambda>a c. 10 * a + digit_val c) (number_value xs) ys"
  by (simp add: number_value_def)

lemma foldl_digits: "foldl (\<lambda>a c. 10 * a + digit_val c) k ys = k * 10 ^ length ys + number_value ys"
proof (induction ys arbitrary: k)
  case (Cons y ys)
  from Cons [of "10 * k + digit_val y"] Cons [of "digit_val y"] show ?case
    by (simp add: number_value_def algebra_simps)
qed (simp add: number_value_def)

lemma number_value_zeros [simp]: "number_value (zeros k) = 0"
  by (induction k) (simp_all add: number_value_def zeros_def digit_val_def)

lemma number_value_zeros_right: "number_value (ds @ zeros k) = number_value ds * 10 ^ k"
  by (simp add: number_value_append foldl_digits) (simp add: zeros_def)

lemma number_value_zeros_left: "number_value (zeros k @ ds) = number_value ds"
  by (simp add: number_value_append foldl_digits)

lemma number_value_show [simp]: "number_value (show_nat n) = n"
  by (simp add: number_value_def foldl_show_nat)

lemma zeros_digits: "list_all is_digit (zeros k)"
  by (simp add: zeros_def list_all_iff is_digit_def)

lemma number_value_0 [simp]: "number_value (CHR ''0'' # ds) = number_value ds"
  by (simp add: number_value_def digit_val_def)

lemma show_digits: "list_all is_digit (show_nat n)"
  using show_nat_digits by (simp add: list_all_iff)

lemma show_nat_hd: "0 < n \<Longrightarrow> hd (show_nat n) \<noteq> CHR ''0''"
proof (induction n rule: show_nat.induct)
  case (1 n)
  show ?case
  proof (cases "n < 10")
    case True
    then have "digit_val (digit_char n) = n" by (rule digit_val_char)
    with 1 have "digit_char n \<noteq> CHR ''0''" by (auto simp: digit_val_def)
    with True show ?thesis by (subst show_nat.simps) simp
  next
    case False
    with 1 show ?thesis by (subst show_nat.simps) simp
  qed
qed

text \<open>What may follow a value: the end of the text, or the punctuation of a list or dict.\<close>

definition stops :: "string \<Rightarrow> bool" where
  "stops r \<longleftrightarrow> r = [] \<or> hd r \<in> {CHR '','', CHR '']'', CHR ''}''}"

text \<open>The digits of an integer part: no leading zero.\<close>

definition int_digits :: "string \<Rightarrow> bool" where
  "int_digits ds \<longleftrightarrow> ds \<noteq> [] \<and> list_all is_digit ds \<and> (hd ds = CHR ''0'' \<longrightarrow> ds = ''0'')"

lemma int_digits_show: "int_digits (show_nat n)"
proof (cases "n = 0")
  case True
  then show ?thesis by (simp add: int_digits_def show_nat.simps digit_char_def is_digit_def)
next
  case False
  then show ?thesis using show_nat_hd [of n] by (simp add: int_digits_def show_digits)
qed

lemma digits_of_append:
  assumes "list_all is_digit ds" and "r = [] \<or> \<not> is_digit (hd r)"
  shows "digits_of (ds @ r) = ds"
proof -
  have "takeWhile is_digit r = []" using assms(2) by (cases r) auto
  with assms(1) show ?thesis by (simp add: digits_of_def takeWhile_append list_all_iff)
qed

lemma stops_no_digit: "stops r \<Longrightarrow> r = [] \<or> \<not> is_digit (hd r)"
  by (auto simp: stops_def is_digit_def)

definition frac_text :: "string \<Rightarrow> string" where
  "frac_text fr = (if fr = [] then '''' else CHR ''.'' # fr)"

definition exp_text :: "(bool \<times> string) option \<Rightarrow> string" where
  "exp_text ex =
     (case ex of None \<Rightarrow> '''' | Some (neg, es) \<Rightarrow> CHR ''e'' # (if neg then CHR ''-'' else CHR ''+'') # es)"

definition exp_value :: "(bool \<times> string) option \<Rightarrow> int" where
  "exp_value ex =
     (case ex of None \<Rightarrow> 0
      | Some (neg, es) \<Rightarrow> (if neg then - int (number_value es) else int (number_value es)))"

definition exp_ok :: "(bool \<times> string) option \<Rightarrow> bool" where
  "exp_ok ex \<longleftrightarrow> (case ex of None \<Rightarrow> True | Some (neg, es) \<Rightarrow> es \<noteq> [] \<and> list_all is_digit es)"

lemma exponent_part_text:
  assumes "exp_ok ex" and "stops r"
  shows "exponent_part (exp_text ex @ r) = (case ex of None \<Rightarrow> None | Some _ \<Rightarrow> Some (exp_value ex), r)"
proof (cases ex)
  case None
  then show ?thesis using assms(2) by (cases r) (auto simp: exp_text_def exponent_part_def stops_def)
next
  case (Some nes)
  obtain neg es where nes: "nes = (neg, es)" by (cases nes)
  have "digits_of (es @ r) = es"
    using assms Some nes by (intro digits_of_append stops_no_digit) (simp_all add: exp_ok_def)
  then show ?thesis
    using assms Some nes by (auto simp: exp_text_def exponent_part_def exp_value_def exp_ok_def)
qed

lemma fraction_part_text:
  assumes "list_all is_digit fr" and "exp_ok ex" and "stops r"
  shows "fraction_part (frac_text fr @ exp_text ex @ r) = (fr, exp_text ex @ r)"
proof (cases "fr = []")
  case True
  have "exp_text ex @ r = [] \<or> hd (exp_text ex @ r) \<noteq> CHR ''.''"
    using assms(3) by (auto simp: exp_text_def stops_def split: option.splits)
  then show ?thesis
    using True by (cases "exp_text ex @ r") (auto simp: frac_text_def fraction_part_def)
next
  case False
  have "exp_text ex @ r = [] \<or> \<not> is_digit (hd (exp_text ex @ r))"
    using assms(3) stops_no_digit by (auto simp: exp_text_def is_digit_def split: option.splits)
  then have "digits_of (fr @ exp_text ex @ r) = fr"
    by (intro digits_of_append assms(1))
  with False show ?thesis by (simp add: frac_text_def fraction_part_def)
qed

definition sign_text :: "bool \<Rightarrow> string" where
  "sign_text neg = (if neg then ''-'' else '''')"

definition signed :: "bool \<Rightarrow> nat \<Rightarrow> int" where
  "signed neg n = (if neg then - int n else int n)"

lemma parse_number_text:
  assumes "int_digits ds" and "list_all is_digit fr" and "exp_ok ex" and "stops r"
  shows "parse_number (sign_text neg @ ds @ frac_text fr @ exp_text ex @ r) =
    (if fr = [] \<and> ex = None then
       (if max_str_digits < length ds then Inl (ValueError ''Exceeds the limit for integer string conversion'')
        else Inr (VInt (signed neg (number_value ds)), r))
     else Inr (strip_zeros (signed neg (number_value (ds @ fr))) (exp_value ex - int (length fr)), r))"
proof -
  define u where "u = ds @ frac_text fr @ exp_text ex @ r"
  define s where "s = sign_text neg @ u"
  obtain d ds' where ds: "ds = d # ds'" and d: "is_digit d"
    using assms(1) by (cases ds) (auto simp: int_digits_def)
  have "d \<noteq> CHR ''-''" using d by (auto simp: is_digit_def)
  then have neg: "(s \<noteq> [] \<and> hd s = CHR ''-'') = neg" by (auto simp: s_def u_def ds sign_text_def)
  have u: "(if neg then tl s else s) = u"
    by (simp add: s_def sign_text_def)
  have rest: "frac_text fr @ exp_text ex @ r = [] \<or> \<not> is_digit (hd (frac_text fr @ exp_text ex @ r))"
    using assms(4) stops_no_digit by (auto simp: frac_text_def exp_text_def is_digit_def split: option.splits)
  have "digits_of u = ds"
    unfolding u_def using assms(1) rest by (intro digits_of_append) (simp_all add: int_digits_def)
  then have digits: "(if u \<noteq> [] \<and> hd u = CHR ''0'' then [CHR ''0''] else digits_of u) = ds"
    using assms(1) by (auto simp: u_def ds int_digits_def)
  have drop: "drop (length ds) u = frac_text fr @ exp_text ex @ r" by (simp add: u_def)
  have "parse_number s =
    (if fr = [] \<and> ex = None then
       (if max_str_digits < length ds then Inl (ValueError ''Exceeds the limit for integer string conversion'')
        else Inr (VInt (signed neg (number_value ds)), r))
     else Inr (strip_zeros (signed neg (number_value (ds @ fr))) (exp_value ex - int (length fr)), r))"
    unfolding parse_number_def Let_def neg u digits drop fraction_part_text [OF assms(2-4)] prod.case
      exponent_part_text [OF assms(3,4)]
    by (auto simp: ds signed_def exp_value_def split: option.splits)
  then show ?thesis by (simp add: s_def u_def)
qed

lemma parse_number_int:
  assumes "length (show_nat (nat \<bar>i\<bar>)) \<le> max_str_digits" and "stops r"
  shows "parse_number (show_int i @ r) = Inr (VInt i, r)"
proof -
  have "show_int i @ r = sign_text (i < 0) @ show_nat (nat \<bar>i\<bar>) @ frac_text [] @ exp_text None @ r"
    by (simp add: show_int_def sign_text_def frac_text_def exp_text_def)
  then show ?thesis
    using parse_number_text [OF int_digits_show _ _ assms(2), of "[]" None "i < 0" "nat \<bar>i\<bar>"] assms(1)
    by (simp add: exp_ok_def signed_def)
qed

lemma strip_zeros_pow: "m mod 10 \<noteq> 0 \<Longrightarrow> strip_zeros (m * 10 ^ k) e = VFloat m (e + int k)"
proof (induction k arbitrary: e)
  case 0
  then show ?case by (subst strip_zeros.simps) auto
next
  case (Suc k)
  from Suc.prems have "m * 10 ^ Suc k \<noteq> 0" by auto
  moreover have "m * 10 ^ Suc k mod 10 = 0" and "m * 10 ^ Suc k div 10 = m * 10 ^ k" by simp_all
  ultimately have "strip_zeros (m * 10 ^ Suc k) e = strip_zeros (m * 10 ^ k) (e + 1)"
    by (subst strip_zeros.simps) (simp only: if_False if_True refl)
  then show ?case using Suc by simp
qed

text \<open>A float in the form \<open>VFloat\<close> requires: no zero at the end of the mantissa.\<close>

definition float_ok :: "int \<Rightarrow> int \<Rightarrow> bool" where
  "float_ok m e \<longleftrightarrow> (if m = 0 then e = 0 else m mod 10 \<noteq> 0)"

lemma int_digits_take: "0 < p \<Longrightarrow> 0 < n \<Longrightarrow> int_digits (take p (show_nat n))"
  using show_nat_hd [of n] show_digits [of n] set_take_subset [of p "show_nat n"]
  by (auto simp: int_digits_def list_all_iff)

lemma int_digits_append: "0 < n \<Longrightarrow> list_all is_digit ds \<Longrightarrow> int_digits (show_nat n @ ds)"
  using show_nat_hd [of n] show_digits [of n] by (simp add: int_digits_def)

lemma pad2_digits: "pad2 (show_nat n) \<noteq> [] \<and> list_all is_digit (pad2 (show_nat n))"
  using show_digits [of n] zeros_digits by (simp add: pad2_def)

lemma number_value_pad2 [simp]: "number_value (pad2 (show_nat n)) = n"
  by (simp add: pad2_def number_value_zeros_left)

text \<open>The four layouts of a float, and zero.\<close>

lemma float_repr_text:
  assumes "m \<noteq> 0"
  obtains ds fr ex k where
    "float_repr m e = sign_text (m < 0) @ ds @ frac_text fr @ exp_text ex" and
    "int_digits ds" and "list_all is_digit fr" and "exp_ok ex" and "\<not> (fr = [] \<and> ex = None)" and
    "number_value (ds @ fr) = nat \<bar>m\<bar> * 10 ^ k" and "exp_value ex - int (length fr) = e - int k"
proof -
  define a where "a = nat \<bar>m\<bar>"
  define n where "n = int (length (show_nat a))"
  define p where "p = n + e"
  have a: "0 < a" using assms by (simp add: a_def)
  have n: "0 < n" by (simp add: n_def)
  have repr: "float_repr m e = sign_text (m < 0) @
      (if - 4 < p \<and> p \<le> 16 then
         (if p \<le> 0 then ''0.'' @ zeros (nat (- p)) @ show_nat a
          else if n \<le> p then show_nat a @ zeros (nat (p - n)) @ ''.0''
          else take (nat p) (show_nat a) @ ''.'' @ drop (nat p) (show_nat a))
       else take 1 (show_nat a) @ (if n = 1 then '''' else ''.'' @ drop 1 (show_nat a)) @ ''e'' @
         (if p - 1 < 0 then ''-'' else ''+'') @ pad2 (show_nat (nat \<bar>p - 1\<bar>)))"
    using assms by (simp add: float_repr_def Let_def sign_text_def a_def n_def p_def)
  note defs = frac_text_def exp_text_def exp_value_def exp_ok_def
  consider "- 4 < p" "p \<le> 16" "p \<le> 0" | "- 4 < p" "p \<le> 16" "0 < p" "n \<le> p"
    | "- 4 < p" "p \<le> 16" "0 < p" "p < n" | "\<not> (- 4 < p \<and> p \<le> 16)" by linarith
  then show thesis
  proof cases
    case 1
    have "number_value (''0'' @ zeros (nat (- p)) @ show_nat a) = a"
      by (simp add: number_value_zeros_left)
    with 1 a show thesis
      by (intro that [of "''0''" "zeros (nat (- p)) @ show_nat a" None 0])
        (simp_all add: repr defs int_digits_def is_digit_def show_digits zeros_digits a_def [symmetric]
          p_def n_def, simp add: zeros_def)
  next
    case 2
    have "number_value ((show_nat a @ zeros (nat (p - n))) @ ''0'') = a * 10 ^ Suc (nat (p - n))"
      using number_value_zeros_right [of "show_nat a" "nat (p - n)"]
        number_value_append [of "show_nat a @ zeros (nat (p - n))" "''0''"]
      by (simp add: digit_val_def)
    with 2 a show thesis
      by (intro that [of "show_nat a @ zeros (nat (p - n))" "''0''" None "Suc (nat (p - n))"])
        (simp_all add: repr defs int_digits_append zeros_digits is_digit_def a_def [symmetric] p_def)
  next
    case 3
    then have "drop (nat p) (show_nat a) \<noteq> []" by (simp add: n_def)
    with 3 a show thesis
      by (intro that [of "take (nat p) (show_nat a)" "drop (nat p) (show_nat a)" None 0])
        (auto simp: repr defs int_digits_take a_def [symmetric] p_def n_def list_all_iff
          show_nat_digits dest: in_set_dropD)
  next
    case 4
    have "drop 1 (show_nat a) = [] \<longleftrightarrow> n = 1"
      by (cases "show_nat a") (auto simp: n_def)
    with 4 a show thesis
      by (intro that [of "take 1 (show_nat a)" "drop 1 (show_nat a)"
            "Some (p - 1 < 0, pad2 (show_nat (nat \<bar>p - 1\<bar>)))" 0])
        (auto simp: repr defs int_digits_take pad2_digits [unfolded list_all_iff] a_def [symmetric] p_def
          n_def list_all_iff show_nat_digits dest: in_set_dropD)
  qed
qed

lemma parse_number_float:
  assumes "float_ok m e" and "stops r"
  shows "parse_number (float_repr m e @ r) = Inr (VFloat m e, r)"
proof (cases "m = 0")
  case True
  have "float_repr m e @ r = sign_text False @ ''0'' @ frac_text ''0'' @ exp_text None @ r"
    using True by (simp add: float_repr_def sign_text_def frac_text_def exp_text_def)
  moreover have "number_value ''00'' = 0" by (simp add: number_value_def digit_val_def)
  ultimately show ?thesis
    using parse_number_text [OF _ _ _ assms(2), of "''0''" "''0''" None False] True assms(1)
    by (simp add: int_digits_def is_digit_def exp_ok_def signed_def float_ok_def strip_zeros.simps)
next
  case False
  then obtain ds fr ex k where t:
    "float_repr m e = sign_text (m < 0) @ ds @ frac_text fr @ exp_text ex"
    "int_digits ds" "list_all is_digit fr" "exp_ok ex" "\<not> (fr = [] \<and> ex = None)"
    "number_value (ds @ fr) = nat \<bar>m\<bar> * 10 ^ k" "exp_value ex - int (length fr) = e - int k"
    by (rule float_repr_text [of m e])
  have "signed (m < 0) (nat \<bar>m\<bar> * 10 ^ k) = m * 10 ^ k" by (simp add: signed_def)
  moreover have "strip_zeros (m * 10 ^ k) (e - int k) = VFloat m e"
    using strip_zeros_pow [of m k "e - int k"] assms(1) False by (simp add: float_ok_def)
  ultimately show ?thesis
    using parse_number_text [OF t(2-4) assms(2), of "m < 0"] t by simp
qed

subsection \<open>Values\<close>

text \<open>
  The values JSON can write and read: text is UTF-8, integers are within the interpreter's digit
  limit, floats are canonical and the keys of a dict distinct.
\<close>

fun json_ok :: "pyval \<Rightarrow> bool" where
  "json_ok (VInt i) \<longleftrightarrow> length (show_nat (nat \<bar>i\<bar>)) \<le> max_str_digits"
| "json_ok (VFloat m e) \<longleftrightarrow> float_ok m e"
| "json_ok (VStr s) \<longleftrightarrow> utf8_text s"
| "json_ok (VBytes s) \<longleftrightarrow> utf8_text (py_str (VBytes s))"
| "json_ok (VList xs) \<longleftrightarrow> list_all json_ok xs"
| "json_ok (VDict d) \<longleftrightarrow> wf_dict d \<and> list_all (\<lambda>(k, v). utf8_text k \<and> json_ok v) d"
| "json_ok (VObj s r) \<longleftrightarrow> utf8_text s"
| "json_ok v \<longleftrightarrow> True"

text \<open>What is read back: dicts in written order, bytes and other objects as text.\<close>

fun json_value :: "bool \<Rightarrow> pyval \<Rightarrow> pyval" where
  "json_value srt (VBytes s) = VStr (py_str (VBytes s))"
| "json_value srt (VObj s r) = VStr s"
| "json_value srt (VList xs) = VList (map (json_value srt) xs)"
| "json_value srt (VDict d) =
     (let kvs = map (\<lambda>(k, v). (k, json_value srt v)) d
      in VDict (if srt then sort_key fst kvs else kvs))"
| "json_value srt v = v"

lemma insort_key_map: "insort_key f (g x) (map g xs) = map g (insort_key (\<lambda>x. f (g x)) x xs)"
  by (induction xs) simp_all

lemma sort_key_map: "sort_key f (map g xs) = map g (sort_key (\<lambda>x. f (g x)) xs)"
  by (induction xs) (simp_all add: insort_key_map)

lemma dict_set_new: "k \<notin> fst ` set d \<Longrightarrow> dict_set k v d = d @ [(k, v)]"
  by (induction d) auto

lemma dict_of_wf: "wf_dict d \<Longrightarrow> dict_of d = d"
proof (induction d rule: rev_induct)
  case (snoc kv d)
  then show ?case
    by (cases kv) (auto simp: dict_of_def wf_dict_def dict_set_new)
qed (simp add: dict_of_def)

lemma skip_ws_id: "s \<noteq> [] \<Longrightarrow> \<not> is_ws (hd s) \<Longrightarrow> skip_ws s = s"
  by (cases s) (simp_all add: skip_ws_def)

lemma skip_ws_stops: "stops r \<Longrightarrow> skip_ws r = r"
  by (cases r) (auto simp: stops_def skip_ws_def is_ws_def)

lemma skip_ws_space [simp]: "skip_ws (CHR '' '' # s) = skip_ws s"
  by (simp add: skip_ws_def is_ws_def)

text \<open>The characters a value can begin with.\<close>

definition value_start :: "char \<Rightarrow> bool" where
  "value_start c \<longleftrightarrow> is_digit c \<or> c \<in> {CHR ''-'', CHR ''n'', CHR ''t'', CHR ''f'', CHR 0x22, CHR ''['', CHR ''{''}"

lemma value_start_plain: "value_start c \<Longrightarrow> \<not> is_ws c \<and> c \<noteq> CHR '']'' \<and> c \<noteq> CHR ''}''"
  by (auto simp: value_start_def is_ws_def is_digit_def)

definition number_start :: "string \<Rightarrow> bool" where
  "number_start s \<longleftrightarrow>
     s \<noteq> [] \<and> (is_digit (hd s) \<or> (hd s = CHR ''-'' \<and> tl s \<noteq> [] \<and> is_digit (hd (tl s))))"

lemma number_start_text: "int_digits ds \<Longrightarrow> number_start (sign_text neg @ ds @ x)"
  by (cases ds) (simp_all add: number_start_def sign_text_def int_digits_def)

lemma number_start_int: "number_start (show_int i @ r)"
proof -
  have "show_int i @ r = sign_text (i < 0) @ show_nat (nat \<bar>i\<bar>) @ r"
    by (simp add: show_int_def sign_text_def)
  then show ?thesis by (simp add: number_start_text [OF int_digits_show])
qed

lemma number_start_float: "number_start (float_repr m e @ r)"
proof (cases "m = 0")
  case True
  then show ?thesis by (simp add: float_repr_def number_start_def is_digit_def)
next
  case False
  then show ?thesis by (rule float_repr_text [of m e]) (simp add: number_start_text)
qed

lemma parse_value_number:
  assumes "number_start s"
  shows "parse_value s = parse_number s"
proof -
  obtain c t where s: "s = c # t" using assms by (cases s) (auto simp: number_start_def)
  have "is_digit c \<or> (c = CHR ''-'' \<and> t \<noteq> [] \<and> is_digit (hd t))"
    using assms by (simp add: s number_start_def)
  then have "c \<noteq> CHR ''n''" "c \<noteq> CHR ''t''" "c \<noteq> CHR ''f''" "c \<noteq> CHR ''N''" "c \<noteq> CHR ''I''"
    and "c = CHR ''-'' \<longrightarrow> t \<noteq> [] \<and> hd t \<noteq> CHR ''I''"
    by (auto simp: is_digit_def)
  then have "find (\<lambda>(w, v). prefix w s) literals = None"
    by (cases t) (auto simp: literals_def s)
  moreover have "c \<noteq> CHR 0x22" "c \<noteq> CHR ''{''" "c \<noteq> CHR ''[''"
    using assms by (auto simp: s number_start_def is_digit_def)
  ultimately show ?thesis by (simp add: s parse_value.simps parse_atom_def)
qed

lemma dumps_start: "json_dumps srt v \<noteq> [] \<and> value_start (hd (json_dumps srt v))"
proof (cases v)
  case (VInt i)
  then show ?thesis using number_start_int [of i "[]"] by (auto simp: number_start_def value_start_def)
next
  case (VFloat m e)
  then show ?thesis using number_start_float [of m e "[]"] by (auto simp: number_start_def value_start_def)
qed (simp_all add: value_start_def json_string_def Let_def)

lemma skip_ws_dumps [simp]: "skip_ws (json_dumps srt v @ r) = json_dumps srt v @ r"
  using dumps_start [of srt v] value_start_plain by (intro skip_ws_id) auto

lemma hd_dumps: "hd (json_dumps srt v @ r) \<noteq> CHR '']''"
  using dumps_start [of srt v] value_start_plain by auto

text \<open>The text \<open>s\<close>, in front of anything that ends a value, reads as \<open>v\<close>.\<close>

definition reads_as :: "string \<Rightarrow> pyval \<Rightarrow> bool" where
  "reads_as s v \<longleftrightarrow>
     s \<noteq> [] \<and> value_start (hd s) \<and> (\<forall>r. stops r \<longrightarrow> parse_value (s @ r) = Inr (v, r))"

lemma skip_ws_reads: "reads_as s v \<Longrightarrow> skip_ws (s @ r) = s @ r"
  using value_start_plain by (intro skip_ws_id) (auto simp: reads_as_def)

lemma stops_punct [simp]: "stops (CHR '','' # r)" "stops (CHR '']'' # r)" "stops (CHR ''}'' # r)" "stops []"
  by (simp_all add: stops_def)

lemma skip_ws_punct [simp]:
  "skip_ws (CHR '','' # r) = CHR '','' # r" "skip_ws (CHR '']'' # r) = CHR '']'' # r"
  "skip_ws (CHR ''}'' # r) = CHR ''}'' # r" "skip_ws (CHR '':'' # r) = CHR '':'' # r"
  "skip_ws (CHR 0x22 # r) = CHR 0x22 # r"
  by (simp_all add: skip_ws_def is_ws_def)

lemma parse_elements_join:
  "reads_as s v \<Longrightarrow> list_all (\<lambda>(s, v). reads_as s v) svs \<Longrightarrow>
   parse_elements (join '', '' (map fst ((s, v) # svs)) @ CHR '']'' # r) = Inr (map snd ((s, v) # svs), r)"
proof (induction svs arbitrary: s v)
  case Nil
  then show ?case by (simp add: parse_elements.simps reads_as_def)
next
  case (Cons sv svs)
  obtain s' v' where sv: "sv = (s', v')" by (cases sv)
  define rest where "rest = join '', '' (map fst ((s', v') # svs)) @ CHR '']'' # r"
  have "parse_value (s @ CHR '','' # CHR '' '' # rest) = Inr (v, CHR '','' # CHR '' '' # rest)"
    using Cons.prems(1) by (simp add: reads_as_def)
  moreover from element_guard [OF this, of "CHR '',''" "CHR '' '' # rest"]
  have "length (skip_ws rest) < length (s @ CHR '','' # CHR '' '' # rest)" by simp
  moreover have "skip_ws rest = rest"
    using Cons.prems(2) sv skip_ws_reads [of s' v']
    by (cases svs) (auto simp: rest_def)
  moreover have "parse_elements rest = Inr (map snd ((s', v') # svs), r)"
    unfolding rest_def by (rule Cons.IH) (use Cons.prems(2) sv in auto)
  ultimately have "parse_elements (s @ CHR '','' # CHR '' '' # rest) = Inr (map snd ((s, v) # (s', v') # svs), r)"
    by (simp add: parse_elements.simps [of "s @ CHR '','' # CHR '' '' # rest"] res_bind_def)
  then show ?case by (simp add: rest_def sv)
qed

fun member_text :: "string \<times> string \<times> pyval \<Rightarrow> string" where
  "member_text (k, s, v) = json_string k @ '': '' @ s"

fun member_value :: "string \<times> string \<times> pyval \<Rightarrow> string \<times> pyval" where
  "member_value (k, s, v) = (k, v)"

fun member_ok :: "string \<times> string \<times> pyval \<Rightarrow> bool" where
  "member_ok (k, s, v) \<longleftrightarrow> utf8_text k \<and> reads_as s v"

text \<open>One member, up to the punctuation \<open>d\<close> that follows it.\<close>

lemma parse_members_step:
  assumes "utf8_text k" and "reads_as s v" and "stops (d # x)"
  shows "parse_members (json_string k @ '': '' @ s @ d # x) =
    (if d = CHR ''}'' then Inr ([(k, v)], x)
     else if d = CHR '','' then res_bind (parse_members (skip_ws x)) (\<lambda>(kvs, r). Inr ((k, v) # kvs, r))
     else Inl json_error)"
proof -
  define t where "t = concat (map json_escape (code_points k)) @ CHR 0x22 # CHR '':'' # CHR '' '' # s @ d # x"
  have 1: "parse_string t = Some (k, CHR '':'' # CHR '' '' # s @ d # x)"
    unfolding t_def by (rule parse_string_json [OF assms(1)])
  have 2: "skip_ws (CHR '' '' # s @ d # x) = s @ d # x"
    using skip_ws_reads [OF assms(2)] by simp
  have 3: "parse_value (s @ d # x) = Inr (v, d # x)"
    using assms(2,3) by (simp add: reads_as_def)
  have 4: "skip_ws (d # x) = d # x" by (rule skip_ws_stops [OF assms(3)])
  have "length (skip_ws x) < length (CHR 0x22 # t)"
    by (rule member_guard [OF 1 skip_ws_punct(4) _ 4, where v = v]) (simp add: 3 skip_ws_reads [OF assms(2)])
  with 1 2 3 4 have "parse_members (CHR 0x22 # t) =
    (if d = CHR ''}'' then Inr ([(k, v)], x)
     else if d = CHR '','' then res_bind (parse_members (skip_ws x)) (\<lambda>(kvs, r). Inr ((k, v) # kvs, r))
     else Inl json_error)"
    by (simp add: parse_members.simps [of "CHR 0x22 # t"])
  then show ?thesis by (simp add: json_string_hd t_def)
qed

lemma parse_members_join:
  "list_all member_ok (m # ms) \<Longrightarrow>
   parse_members (join '', '' (map member_text (m # ms)) @ CHR ''}'' # r) = Inr (map member_value (m # ms), r)"
proof (induction ms arbitrary: m)
  case Nil
  obtain k s v where "m = (k, s, v)" by (cases m)
  with Nil show ?case using parse_members_step [of k s v "CHR ''}''" r] by simp
next
  case (Cons m' ms)
  obtain k s v where m: "m = (k, s, v)" by (cases m)
  define rest where "rest = join '', '' (map member_text (m' # ms)) @ CHR ''}'' # r"
  have "skip_ws rest = rest"
    by (cases m'; cases ms) (simp_all add: rest_def json_string_hd)
  moreover have "parse_members rest = Inr (map member_value (m' # ms), r)"
    unfolding rest_def by (rule Cons.IH) (use Cons.prems in auto)
  ultimately have "parse_members (json_string k @ '': '' @ s @ CHR '','' # CHR '' '' # rest) =
      Inr (map member_value (m # m' # ms), r)"
    using parse_members_step [of k s v "CHR '',''" "CHR '' '' # rest"] Cons.prems m
    by (simp add: res_bind_def)
  then show ?case by (simp add: m rest_def)
qed

text \<open>Every value that is in order reads back, wherever it stands.\<close>

lemma reads_asI:
  "(\<And>r. stops r \<Longrightarrow> parse_value (json_dumps srt v @ r) = Inr (w, r)) \<Longrightarrow> reads_as (json_dumps srt v) w"
  using dumps_start [of srt v] by (simp add: reads_as_def)

lemma parse_value_string:
  "utf8_text s \<Longrightarrow> parse_value (json_string s @ r) = Inr (VStr s, r)"
  by (simp add: json_string_hd parse_value.simps parse_string_json)

lemma parse_value_list:
  assumes "list_all (\<lambda>(s, v). reads_as s v) svs"
  shows "parse_value (''['' @ join '', '' (map fst svs) @ CHR '']'' # r) = Inr (VList (map snd svs), r)"
proof (cases svs)
  case Nil
  then show ?thesis by (simp add: parse_value.simps)
next
  case (Cons sv svs')
  obtain s v where sv: "sv = (s, v)" by (cases sv)
  define rest where "rest = join '', '' (map fst ((s, v) # svs')) @ CHR '']'' # r"
  have s: "s \<noteq> []" "value_start (hd s)" using assms Cons sv by (auto simp: reads_as_def)
  then have "skip_ws rest = rest" and "hd rest \<noteq> CHR '']''"
    using value_start_plain [of "hd s"] by (cases svs'; auto simp: rest_def intro!: skip_ws_id)+
  moreover have "parse_elements rest = Inr (map snd ((s, v) # svs'), r)"
    unfolding rest_def using assms Cons sv by (intro parse_elements_join) auto
  ultimately have "parse_value (CHR ''['' # rest) = Inr (VList (map snd svs), r)"
    by (simp add: parse_value.simps res_bind_def Cons sv)
  then show ?thesis by (simp add: rest_def Cons sv)
qed

lemma parse_value_dict:
  assumes "list_all member_ok ms"
  shows "parse_value (''{'' @ join '', '' (map member_text ms) @ CHR ''}'' # r) =
    Inr (VDict (dict_of (map member_value ms)), r)"
proof (cases ms)
  case Nil
  then show ?thesis by (simp add: parse_value.simps dict_of_def)
next
  case (Cons m ms')
  define rest where "rest = join '', '' (map member_text (m # ms')) @ CHR ''}'' # r"
  obtain rest' where "rest = CHR 0x22 # rest'"
    by (cases m; cases ms') (simp_all add: rest_def json_string_hd)
  moreover have "parse_members rest = Inr (map member_value (m # ms'), r)"
    unfolding rest_def by (rule parse_members_join) (use assms Cons in simp)
  ultimately have "parse_value (CHR ''{'' # rest) = Inr (VDict (dict_of (map member_value ms)), r)"
    by (simp add: parse_value.simps res_bind_def Cons)
  then show ?thesis by (simp add: rest_def Cons)
qed

lemma reads_as_dumps: "json_ok v \<Longrightarrow> reads_as (json_dumps srt v) (json_value srt v)"
proof (induction v)
  case VNone
  show ?case by (rule reads_asI) (simp add: parse_value.simps parse_atom_def literals_def)
next
  case (VBool b)
  show ?case by (rule reads_asI) (simp add: parse_value.simps parse_atom_def literals_def)
next
  case (VInt i)
  then show ?case
    by (intro reads_asI) (simp add: parse_value_number number_start_int parse_number_int)
next
  case (VFloat m e)
  then show ?case
    by (intro reads_asI) (simp add: parse_value_number number_start_float parse_number_float)
next
  case (VStr s)
  then show ?case by (intro reads_asI) (simp add: parse_value_string)
next
  case (VBytes s)
  then show ?case by (intro reads_asI) (simp add: parse_value_string)
next
  case (VObj s r)
  then show ?case by (intro reads_asI) (simp add: parse_value_string)
next
  case (VList xs)
  let ?svs = "map (\<lambda>x. (json_dumps srt x, json_value srt x)) xs"
  have "list_all (\<lambda>(s, v). reads_as s v) ?svs" using VList by (auto simp: list_all_iff)
  from parse_value_list [OF this] show ?case
    by (intro reads_asI) (simp add: comp_def)
next
  case (VDict d)
  define d' where "d' = (if srt then sort_key fst d else d)"
  let ?ms = "map (\<lambda>(k, v). (k, json_dumps srt v, json_value srt v)) d'"
  have set: "set d' = set d" and wf: "wf_dict d'"
    using VDict.prems by (auto simp: d'_def wf_dict_def distinct_map)
  have "list_all member_ok ?ms"
    using VDict set by (fastforce simp: list_all_iff)
  from parse_value_dict [OF this]
  have read: "parse_value (''{'' @ join '', '' (map member_text ?ms) @ CHR ''}'' # r) =
    Inr (VDict (dict_of (map member_value ?ms)), r)" for r .
  have "wf_dict (map member_value ?ms)"
    using wf by (simp add: wf_dict_def comp_def split_def)
  then have "dict_of (map member_value ?ms) = map member_value ?ms" by (rule dict_of_wf)
  moreover have "json_dumps srt (VDict d) = ''{'' @ join '', '' (map member_text ?ms) @ ''}''"
    by (simp add: d'_def Let_def sort_key_map comp_def split_def)
  moreover have "json_value srt (VDict d) = VDict (map member_value ?ms)"
    by (simp add: d'_def Let_def sort_key_map comp_def split_def)
  ultimately show ?case using read by (intro reads_asI) simp
qed

lemma json_loads_dumps:
  assumes "json_ok v"
  shows "json_loads (json_dumps srt v) = Inr (json_value srt v)"
proof -
  have "parse_value (json_dumps srt v @ []) = Inr (json_value srt v, [])"
    using reads_as_dumps [OF assms, of srt] stops_punct(4) unfolding reads_as_def by blast
  then show ?thesis
    using skip_ws_dumps [of srt v "[]"] by (simp add: json_loads_def res_bind_def skip_ws_def)
qed

end
