(* ===== verification/Evidence.thy ===== *)
theory Evidence
  imports JsonRound AuditLog Slack
begin

text \<open>
  What is stored and sent, as text: the snapshot of the audit table and the body of an alert are
  JSON texts. Redaction keeps text well-formed UTF-8, the reader gets the redacted value back, and
  the written bytes themselves, quotes, escapes and punctuation included, hold no secret.
\<close>

subsection \<open>Redaction keeps UTF-8\<close>

lemma utf8_text_append: "utf8_text a \<Longrightarrow> utf8_text b \<Longrightarrow> utf8_text (a @ b)"
proof (elim utf8_textE)
  fix ns ms
  assume "list_all scalar ns" "a = concat (map utf8 ns)" "list_all scalar ms" "b = concat (map utf8 ms)"
  then show "utf8_text (a @ b)" using utf8_text_concat [of "ns @ ms"] by simp
qed

lemma utf8_text_Nil [simp]: "utf8_text []"
  by (simp add: utf8_text_def)

lemma utf8_text_split:
  assumes "utf8_text s" and "s \<noteq> []"
  obtains n t where "scalar n" and "s = utf8 n @ t" and "utf8_text t"
proof -
  obtain ns where ns: "list_all scalar ns" "s = concat (map utf8 ns)" using assms(1) by (elim utf8_textE)
  with assms(2) obtain n ns' where "ns = n # ns'" by (cases ns) auto
  with ns show thesis by (intro that [of n "concat (map utf8 ns')"]) (simp_all add: utf8_text_concat)
qed

text \<open>The bytes of a code point: ASCII alone, or a first byte and continuation bytes, all above ASCII.\<close>

lemma utf8_ascii: "n < 128 \<Longrightarrow> utf8 n = [char_of n]"
  by (simp add: utf8_def)

lemma cont_byte_char: "(b :: nat) < 64 \<Longrightarrow> cont_byte (char_of (128 + b))"
  by (simp add: cont_byte_def byte_value del: of_char_of)

lemma utf8_shape:
  assumes "scalar n"
  obtains c cs where "utf8 n = c # cs" and "\<not> cont_byte c" and "list_all cont_byte cs"
    and "128 \<le> n \<longrightarrow> 128 \<le> (of_char c :: nat)" and "n < 128 \<longrightarrow> cs = []"
proof -
  have n: "n < 1114112" using assms by (simp add: scalar_def)
  consider "n < 128" | "128 \<le> n" "n < 2048" | "2048 \<le> n" "n < 65536" | "65536 \<le> n" by linarith
  then show thesis
  proof cases
    case 1
    then show thesis
      by (intro that [of "char_of n" "[]"])
        (simp_all add: utf8_def cont_byte_def byte_value del: of_char_of)
  next
    case 2
    then have "n div 64 < 32" by (simp add: less_mult_imp_div_less)
    with 2 show thesis
      by (intro that [of "char_of (192 + n div 64)" "[char_of (128 + n mod 64)]"])
        (simp_all add: utf8_def cont_byte_char, simp_all add: cont_byte_def byte_value del: of_char_of)
  next
    case 3
    then have "n div 4096 < 16" by (simp add: less_mult_imp_div_less)
    with 3 show thesis
      by (intro that [of "char_of (224 + n div 4096)" "[char_of (128 + n div 64 mod 64), char_of (128 + n mod 64)]"])
        (simp_all add: utf8_def cont_byte_char, simp_all add: cont_byte_def byte_value del: of_char_of)
  next
    case 4
    then have "n div 262144 < 16" using n by (simp add: less_mult_imp_div_less)
    with 4 show thesis
      by (intro that [of "char_of (240 + n div 262144)"
            "[char_of (128 + n div 4096 mod 64), char_of (128 + n div 64 mod 64), char_of (128 + n mod 64)]"])
        (simp_all add: utf8_def cont_byte_char, simp_all add: cont_byte_def byte_value del: of_char_of)
  qed
qed

lemma cp_take_conts: "list_all cont_byte cs \<Longrightarrow> cp_take k (cs @ s) = cs @ cp_take k s"
  by (induction cs) auto

lemma cp_take_utf8: "utf8_text s \<Longrightarrow> utf8_text (cp_take k s)"
proof (induction k arbitrary: s)
  case 0
  show ?case
  proof (cases "s = []")
    case False
    obtain n t where s: "scalar n" "s = utf8 n @ t" using "0.prems" False by (rule utf8_text_split)
    obtain c cs where "utf8 n = c # cs" "\<not> cont_byte c" using s(1) by (rule utf8_shape)
    then have "cp_take 0 s = []" by (simp add: s(2))
    then show ?thesis by simp
  qed simp
next
  case (Suc k)
  show ?case
  proof (cases "s = []")
    case False
    obtain n t where s: "scalar n" "s = utf8 n @ t" "utf8_text t"
      using Suc.prems False by (rule utf8_text_split)
    obtain c cs where "utf8 n = c # cs" "\<not> cont_byte c" "list_all cont_byte cs"
      using s(1) by (rule utf8_shape)
    then have "cp_take (Suc k) s = utf8 n @ cp_take k t" by (simp add: s(2) cp_take_conts)
    moreover have "utf8_text (utf8 n)" using s(1) utf8_text_concat [of "[n]"] by simp
    ultimately show ?thesis using Suc.IH [OF s(3)] utf8_text_append by simp
  qed simp
qed

definition ascii :: "char \<Rightarrow> bool" where
  "ascii c \<longleftrightarrow> (of_char c :: nat) < 128"

lemma utf8_text_ascii: "list_all ascii s \<Longrightarrow> utf8_text s"
proof (induction s)
  case (Cons c s)
  then have "scalar (of_char c)" "utf8 (of_char c) = [c]"
    by (simp_all add: ascii_def scalar_def utf8_ascii)
  then have "utf8_text [c]" using utf8_text_concat [of "[of_char c]"] by simp
  with Cons show ?case using utf8_text_append [of "[c]" s] by simp
qed simp

lemma secret_char_ascii: "secret_char c \<Longrightarrow> ascii c"
  by (auto simp: secret_char_def url_char_def alnum_def ascii_def less_eq_char_def)

lemma utf8_text_drop: "utf8_text s \<Longrightarrow> list_all ascii (take k s) \<Longrightarrow> utf8_text (drop k s)"
proof (induction k arbitrary: s)
  case (Suc k)
  show ?case
  proof (cases "s = []")
    case False
    obtain n t where s: "scalar n" "s = utf8 n @ t" "utf8_text t"
      using Suc.prems(1) False by (rule utf8_text_split)
    obtain c cs where c: "utf8 n = c # cs" "128 \<le> n \<longrightarrow> 128 \<le> (of_char c :: nat)" "n < 128 \<longrightarrow> cs = []"
      using s(1) by (rule utf8_shape)
    moreover have "ascii c" using Suc.prems(2) c(1) by (simp add: s(2))
    ultimately have "cs = []" by (auto simp: ascii_def not_le)
    with Suc.prems(2) Suc.IH [OF s(3)] show ?thesis by (simp add: s(2) c(1))
  qed simp
qed simp

lemma match_secret_length: "match_secret s = Some n \<Longrightarrow> 0 < n \<and> list_all secret_char (take n s)"
proof -
  have alt: "list_all secret_char (take k s)" if "match_alt p P m s = Some k" "(p, P, m) \<in> set alternatives"
    for p P m k
  proof -
    from that(1) obtain u where s: "s = p @ u" and k: "k = length p + run_length P u"
      by (auto simp: match_alt_def prefix_def split: if_splits)
    have "take k s = p @ takeWhile P u"
      by (simp add: s k run_length_def) (metis append_eq_conv_conj takeWhile_dropWhile_id)
    with alternatives_chars [OF that(2)] show ?thesis
      by (auto simp: list_all_iff dest: set_takeWhileD)
  qed
  assume n: "match_secret s = Some n"
  then obtain p P m where "match_alt p P m s = Some n" "(p, P, m) \<in> set alternatives"
    by (auto simp: match_secret_def alternatives_def find_Some_iff split: option.splits)
  moreover have "0 < n"
    using n by (auto simp: match_secret_def match_alt_def webhook_prefix_def token_prefixes_def
        find_Some_iff split: option.splits if_splits)
  ultimately show ?thesis using alt by blast
qed

lemma match_secret_other: "c \<noteq> CHR ''h'' \<Longrightarrow> c \<noteq> CHR ''x'' \<Longrightarrow> match_secret (c # s) = None"
  unfolding match_secret_None_iff by (auto dest!: secret_word_hd)

lemma sub_secrets_other:
  "list_all (\<lambda>c. \<not> ascii c) b \<Longrightarrow> sub_secrets (b @ s) = b @ sub_secrets s"
proof (induction b)
  case (Cons c b)
  then have "c \<noteq> CHR ''h''" "c \<noteq> CHR ''x''" by (auto simp: ascii_def)
  with Cons show ?case by (simp add: match_secret_other)
qed simp

lemma utf8_not_ascii: "scalar n \<Longrightarrow> 128 \<le> n \<Longrightarrow> list_all (\<lambda>c. \<not> ascii c) (utf8 n)"
  by (erule utf8_shape) (auto simp: ascii_def cont_byte_def list_all_iff)

lemma utf8_text_code: "scalar n \<Longrightarrow> utf8_text (utf8 n)"
  using utf8_text_concat [of "[n]"] by simp

lemma utf8_text_placeholder [simp]: "utf8_text placeholder"
  by (rule utf8_text_ascii) (simp add: placeholder_def ascii_def)

lemma utf8_text_sub_secrets: "utf8_text s \<Longrightarrow> utf8_text (sub_secrets s)"
proof (induction s rule: measure_induct_rule [where f = length])
  case (less s)
  show ?case
  proof (cases "s = []")
    case False
    obtain n t where s: "scalar n" "s = utf8 n @ t" "utf8_text t"
      using less.prems False by (rule utf8_text_split)
    have len: "length t < length s" using s(1) by (rule utf8_shape) (simp add: s(2))
    show ?thesis
    proof (cases "n < 128")
      case True
      then have c: "s = char_of n # t" by (simp add: s(2) utf8_ascii)
      show ?thesis
      proof (cases "match_secret s")
        case None
        then have "sub_secrets s = utf8 n @ sub_secrets t" using True by (simp add: c utf8_ascii)
        then show ?thesis using less.IH [OF len s(3)] s(1) by (simp add: utf8_text_append utf8_text_code)
      next
        case (Some k)
        then have "list_all ascii (take k s)" and k: "0 < k"
          using match_secret_length by (auto simp: list_all_iff secret_char_ascii)
        then have "utf8_text (drop k s)" using less.prems utf8_text_drop by blast
        moreover have "sub_secrets s = placeholder @ sub_secrets (drop k s)" using Some by (simp add: c)
        ultimately show ?thesis
          using less.IH [of "drop k s"] k False by (simp add: utf8_text_append)
      qed
    next
      case False
      then have "sub_secrets s = utf8 n @ sub_secrets t"
        using s(1) by (simp add: s(2) sub_secrets_other utf8_not_ascii)
      then show ?thesis using less.IH [OF len s(3)] s(1) by (simp add: utf8_text_append utf8_text_code)
    qed
  qed simp
qed

lemma utf8_text_mark: "utf8_text truncated_mark"
proof -
  have "utf8 8230 = [CHR 0xE2, CHR 0x80, CHR 0xA6]" by code_simp
  moreover have "utf8_text ''[truncated]''" by (rule utf8_text_ascii) (simp add: ascii_def)
  ultimately show ?thesis
    using utf8_text_append [OF utf8_text_code [of 8230]] by (simp add: truncated_mark_def scalar_def)
qed

lemma utf8_text_scrub: "utf8_text s \<Longrightarrow> utf8_text (scrub_text s)"
  by (simp add: scrub_text_def Let_def utf8_text_sub_secrets cp_take_utf8 utf8_text_append utf8_text_mark)

lemma json_ok_scrub: "json_ok v \<Longrightarrow> json_ok (scrub v)"
proof (induction v rule: scrub.induct)
  case (1 d)
  let ?f = "\<lambda>(k, v). (k, if key_is_sensitive k then VStr placeholder else scrub v)"
  have "map fst (map ?f d) = map fst d" by auto
  then have "wf_dict (map ?f d)" using "1.prems" by (simp only: wf_dict_def json_ok.simps)
  moreover have "list_all (\<lambda>(k, v). utf8_text k \<and> json_ok v) (map ?f d)"
    using 1 by (auto simp: list_all_iff)
  ultimately show ?case by simp
qed (auto simp: utf8_text_scrub list_all_iff)

subsection \<open>No secret between the lines\<close>

text \<open>No secret in a text leaf, in a key, or in the \<open>str\<close> of another object.\<close>

fun secret_free :: "pyval \<Rightarrow> bool" where
  "secret_free (VDict d) \<longleftrightarrow> list_all (\<lambda>(k, v). \<not> has_secret k \<and> secret_free v) d"
| "secret_free (VStr s) \<longleftrightarrow> \<not> has_secret s"
| "secret_free (VBytes s) \<longleftrightarrow> \<not> has_secret (py_str (VBytes s))"
| "secret_free (VObj s r) \<longleftrightarrow> \<not> has_secret s"
| "secret_free (VList xs) \<longleftrightarrow> list_all secret_free xs"
| "secret_free v \<longleftrightarrow> True"

definition no_start :: "string \<Rightarrow> bool" where
  "no_start s \<longleftrightarrow> list_all (\<lambda>c. c \<noteq> CHR ''h'' \<and> c \<noteq> CHR ''x'') s"

lemma has_secret_no_start: "no_start b \<Longrightarrow> has_secret (b @ s) = has_secret s"
  by (induction b) (simp_all add: no_start_def match_secret_other)

lemma free_no_start: "no_start b \<Longrightarrow> \<not> has_secret b"
  using has_secret_no_start [of b "[]"] by simp

lemma has_secret_append_right: "has_secret s \<Longrightarrow> has_secret (b @ s)"
  unfolding has_secret_iff by (metis append.assoc)

lemma digits_no_start: "list_all is_digit s \<Longrightarrow> no_start s"
  by (auto simp: no_start_def list_all_iff is_digit_def)

lemma no_start_append [simp]: "no_start (a @ b) \<longleftrightarrow> no_start a \<and> no_start b"
  by (simp add: no_start_def)

lemma no_start_numbers [simp]: "no_start (show_int i)" "no_start (float_repr m e)"
proof -
  show "no_start (show_int i)"
    using digits_no_start [OF show_digits] by (simp add: show_int_def no_start_def)
  show "no_start (float_repr m e)"
  proof (cases "m = 0")
    case True
    then show ?thesis by (simp add: float_repr_def no_start_def)
  next
    case False
    then obtain ds fr ex where "float_repr m e = sign_text (m < 0) @ ds @ frac_text fr @ exp_text ex"
      "list_all is_digit ds" "list_all is_digit fr" "exp_ok ex"
      by (rule float_repr_text [of m e]) (auto simp: int_digits_def)
    moreover from this have "no_start (frac_text fr)" and "no_start (exp_text ex)"
      using digits_no_start
      by (auto simp: frac_text_def exp_text_def exp_ok_def no_start_def split: option.splits)
    ultimately show ?thesis
      using digits_no_start by (simp add: sign_text_def no_start_def)
  qed
qed

text \<open>An escape is the character itself, or starts with a backslash and cannot hold the start of a secret.\<close>

lemma no_start_hex4: "no_start (hex4 n)"
proof -
  have "list_all (\<lambda>k. no_start [''0123456789abcdef'' ! k]) [0..<16]" by code_simp
  then have "no_start [''0123456789abcdef'' ! (k mod 16)]" for k by (simp add: list_all_iff)
  then show ?thesis by (simp add: hex4_def hex_digit_def no_start_def)
qed

lemma json_escape_cases:
  obtains (plain) "json_escape n = [char_of n]" and "n < 128"
  | (escaped) "no_start (json_escape n)" and "hd (json_escape n) = CHR 0x5C" and "json_escape n \<noteq> []"
proof -
  consider "n \<in> {34, 92, 10, 13, 9, 12, 8}"
    | "n \<notin> {34, 92, 10, 13, 9, 12, 8}" "32 \<le> n" "n \<le> 126"
    | "n \<notin> {34, 92, 10, 13, 9, 12, 8}" "\<not> (32 \<le> n \<and> n \<le> 126)" by blast
  then show thesis
  proof cases
    case 1
    then show thesis by (intro escaped) (auto simp: json_escape_def no_start_def)
  next
    case 2
    then show thesis by (intro plain) (auto simp: json_escape_def)
  next
    case 3
    then show thesis
      using no_start_hex4 by (intro escaped) (auto simp: json_escape_def no_start_def)
  qed
qed

lemma escape_prefix:
  "prefix w (concat (map json_escape ns)) \<Longrightarrow> list_all secret_char w \<Longrightarrow> prefix w (concat (map utf8 ns))"
proof (induction ns arbitrary: w)
  case (Cons n ns)
  show ?case
  proof (cases w)
    case (Cons c w')
    show ?thesis
    proof (cases n rule: json_escape_cases)
      case plain
      with Cons Cons.prems Cons.IH [of w'] show ?thesis by (simp add: utf8_ascii)
    next
      case escaped
      then obtain e where "json_escape n = CHR 0x5C # e" by (cases "json_escape n") auto
      then have "c = CHR 0x5C" using Cons Cons.prems(1) by simp
      moreover have "\<not> secret_char (CHR 0x5C)"
        by (simp add: secret_char_def url_char_def alnum_def less_eq_char_def)
      ultimately show ?thesis using Cons Cons.prems(2) by simp
    qed
  qed simp
qed simp

lemma escaped_free: "\<not> has_secret (concat (map utf8 ns)) \<Longrightarrow> \<not> has_secret (concat (map json_escape ns))"
proof (induction ns)
  case (Cons n ns)
  have rest: "\<not> has_secret (concat (map json_escape ns))"
    using Cons has_secret_append_right [of _ "utf8 n"] by auto
  show ?case
  proof (cases n rule: json_escape_cases)
    case plain
    have "match_secret (concat (map json_escape (n # ns))) = None"
    proof (rule ccontr)
      assume "match_secret (concat (map json_escape (n # ns))) \<noteq> None"
      then obtain m where m: "secret_word m" "prefix m (concat (map json_escape (n # ns)))"
        unfolding match_secret_iff by blast
      with escape_prefix [OF m(2) secret_word_chars [OF m(1)]] Cons.prems show False
        unfolding has_secret_iff prefix_def by (metis append_Nil)
    qed
    with rest plain show ?thesis by simp
  next
    case escaped
    with rest show ?thesis by (simp add: has_secret_no_start)
  qed
qed simp

declare has_secret.simps(2) [simp del]

lemma free_around: "\<not> secret_char d \<Longrightarrow> \<not> has_secret v \<Longrightarrow> \<not> has_secret (d # v)"
  using has_secret_sep [of d "[]" v] by simp

lemma punctuation [simp]:
  "\<not> secret_char (CHR 0x22)" "\<not> secret_char (CHR '','')" "\<not> secret_char (CHR '' '')"
  "\<not> secret_char (CHR ''['')" "\<not> secret_char (CHR '']'')" "\<not> secret_char (CHR ''{'')" "\<not> secret_char (CHR ''}'')"
  by (simp_all add: secret_char_def url_char_def alnum_def less_eq_char_def)

lemma json_string_free:
  assumes "utf8_text s" and "\<not> has_secret s" and "\<not> has_secret r"
  shows "\<not> has_secret (json_string s @ r)"
proof -
  have "\<not> has_secret (concat (map json_escape (code_points s)))"
    using assms(1,2) by (intro escaped_free) (simp add: utf8_text_def)
  then have "\<not> has_secret (concat (map json_escape (code_points s)) @ CHR 0x22 # r)"
    using assms(3) by (intro has_secret_sep) simp_all
  then show ?thesis by (simp add: json_string_hd free_around)
qed

lemma join_free: "list_all (\<lambda>s. \<not> has_secret s) ss \<Longrightarrow> \<not> has_secret (join '', '' ss)"
proof (induction "'', ''" ss rule: join.induct)
  case (3 x y xs)
  then have "\<not> has_secret (CHR '' '' # join '', '' (y # xs))"
    by (intro free_around) simp_all
  with 3 have "\<not> has_secret (x @ CHR '','' # CHR '' '' # join '', '' (y # xs))"
    by (intro has_secret_sep) simp_all
  then show ?case by simp
qed simp_all

lemma bracket_free:
  assumes "list_all (\<lambda>s. \<not> has_secret s) ss" and "\<not> secret_char a" and "\<not> secret_char b"
  shows "\<not> has_secret (a # join '', '' ss @ [b])"
  using has_secret_sep [OF assms(3) join_free [OF assms(1)], of "[]"] assms(2)
  by (intro free_around) simp_all

lemma member_free:
  assumes "utf8_text k" and "\<not> has_secret k" and "\<not> has_secret s"
  shows "\<not> has_secret (json_string k @ '': '' @ s)"
proof -
  have "\<not> has_secret (CHR '' '' # s)" using assms(3) by (intro free_around) simp_all
  then have "\<not> has_secret ('': '' @ s)"
    using has_secret_no_start [of "'':''" "CHR '' '' # s"] by (simp add: no_start_def)
  with assms show ?thesis by (intro json_string_free)
qed

lemma dumps_free: "json_ok v \<Longrightarrow> secret_free v \<Longrightarrow> \<not> has_secret (json_dumps srt v)"
proof (induction v)
  case (VList xs)
  then have "list_all (\<lambda>s. \<not> has_secret s) (map (json_dumps srt) xs)" by (auto simp: list_all_iff)
  then show ?case by (simp add: bracket_free)
next
  case (VDict d)
  let ?d = "if srt then sort_key fst d else d"
  let ?ms = "map (\<lambda>(k, v). json_string k @ '': '' @ json_dumps srt v) ?d"
  have "\<not> has_secret (json_string k @ '': '' @ json_dumps srt v)" if kv: "(k, v) \<in> set d" for k v
  proof (rule member_free)
    show "utf8_text k" and "\<not> has_secret k" using VDict.prems kv by (auto simp: list_all_iff)
    show "\<not> has_secret (json_dumps srt v)"
      by (rule VDict.IH [OF kv]) (use VDict.prems kv in \<open>auto simp: list_all_iff\<close>)
  qed
  moreover have "set ?d = set d" by simp
  ultimately have "list_all (\<lambda>s. \<not> has_secret s) ?ms"
    unfolding list_all_iff by auto
  moreover have "json_dumps srt (VDict d) = CHR ''{'' # join '', '' ?ms @ [CHR ''}'']"
    by (simp add: Let_def sort_key_map comp_def split_def)
  ultimately show ?case by (simp only: bracket_free punctuation not_False_eq_True)
next
  case (VStr s)
  then show ?case using json_string_free [of s "[]"] by simp
next
  case (VBytes s)
  then show ?case using json_string_free [of "py_str (VBytes s)" "[]"] by simp
next
  case (VObj s r)
  then show ?case using json_string_free [of s "[]"] by simp
next
  case (VBool b)
  have "no_start ''true''" and "no_start ''false''" by (simp_all add: no_start_def)
  then show ?case using free_no_start by simp
next
  case VNone
  have "no_start ''null''" by (simp add: no_start_def)
  then show ?case using free_no_start by simp
qed (simp_all add: free_no_start)

text \<open>
  Redaction cleans text leaves, so what is left to ask for is the rest: keys, and objects that are
  written as their \<open>str\<close>.
\<close>

fun names_free :: "pyval \<Rightarrow> bool" where
  "names_free (VDict d) \<longleftrightarrow> list_all (\<lambda>(k, v). \<not> has_secret k \<and> names_free v) d"
| "names_free (VObj s r) \<longleftrightarrow> \<not> has_secret s"
| "names_free (VList xs) \<longleftrightarrow> list_all names_free xs"
| "names_free v \<longleftrightarrow> True"

lemma scrub_secret_free: "names_free v \<Longrightarrow> secret_free (scrub v)"
  by (induction v rule: scrub.induct) (auto simp: list_all_iff scrub_text_clean)

lemma dump_reads_back:
  "json_ok v \<Longrightarrow> json_loads (dump v) = Inr (json_value True (scrub v))"
  by (simp add: dump_def json_loads_dumps json_ok_scrub)

lemma dump_free: "json_ok v \<Longrightarrow> names_free v \<Longrightarrow> \<not> has_secret (dump v)"
  by (simp add: dump_def dumps_free json_ok_scrub scrub_secret_free)

text \<open>Data that is JSON already comes back unchanged.\<close>

fun plain_json :: "pyval \<Rightarrow> bool" where
  "plain_json (VBytes s) \<longleftrightarrow> False"
| "plain_json (VObj s r) \<longleftrightarrow> False"
| "plain_json (VList xs) \<longleftrightarrow> list_all plain_json xs"
| "plain_json (VDict d) \<longleftrightarrow> list_all (\<lambda>(k, v). plain_json v) d"
| "plain_json v \<longleftrightarrow> True"

lemma json_value_plain: "plain_json v \<Longrightarrow> json_value False v = v"
proof (induction v)
  case (VList xs)
  then show ?case by (simp add: list_all_iff map_idI)
next
  case (VDict d)
  then have "map (\<lambda>(k, v). (k, json_value False v)) d = d"
    by (intro map_idI) (fastforce simp: list_all_iff)
  then show ?case by simp
qed simp_all

subsection \<open>What is stored and what is sent\<close>

lemma map_of_sort_key: "wf_dict d \<Longrightarrow> map_of (sort_key fst d) = map_of d"
  by (intro map_of_eqI) (auto simp: wf_dict_def distinct_map)

lemma map_of_scrubbed:
  "map_of (map (\<lambda>(k, v). (k, json_value True v)) (scrub_mapping d)) k =
   map_option (\<lambda>v. json_value True (if key_is_sensitive k then VStr placeholder else scrub v)) (map_of d k)"
  by (induction d) (auto simp: scrub_mapping_def)

lemma json_ok_wf: "json_ok (VDict d) \<Longrightarrow> wf_dict d"
  by simp

lemma dump_lookup:
  assumes "json_ok (VDict d)"
  obtains d' where "json_loads (dump (VDict d)) = Inr (VDict d')"
    and "\<And>k. map_of d' k =
      map_option (\<lambda>v. json_value True (if key_is_sensitive k then VStr placeholder else scrub v)) (map_of d k)"
proof
  let ?d = "map (\<lambda>(k, v). (k, json_value True v)) (scrub_mapping d)"
  show "json_loads (dump (VDict d)) = Inr (VDict (sort_key fst ?d))"
    using dump_reads_back [OF assms] by (simp add: scrub_mapping_scrub [symmetric] Let_def scrub_mapping_def)
  have "map fst ?d = map fst d" by (simp add: scrub_mapping_def comp_def split_def)
  then have "wf_dict ?d" using json_ok_wf [OF assms] by (simp only: wf_dict_def)
  then show "map_of (sort_key fst ?d) k =
      map_option (\<lambda>v. json_value True (if key_is_sensitive k then VStr placeholder else scrub v)) (map_of d k)" for k
    by (simp only: map_of_sort_key map_of_scrubbed)
qed

text \<open>
  C11: the evidence can be read back. The snapshot attribute of an audit item is a JSON text from which
  a reader gets a dict with exactly the keys of the plan's snapshot, each with its redacted value;
  and when no key is a secret itself, the stored text as a whole holds none.
\<close>

theorem snapshot_reads_back:
  assumes "json_ok (VDict (snapshot p))"
  shows "\<exists>text d. map_of (open_item now det ev p dry) ''snapshot'' = Some (VStr text) \<and>
           json_loads text = Inr (VDict d) \<and>
           (\<forall>k. map_of d k = map_option
              (\<lambda>v. json_value True (if key_is_sensitive k then VStr placeholder else scrub v))
              (map_of (snapshot p) k)) \<and>
           (names_free (VDict (snapshot p)) \<longrightarrow> \<not> has_secret text)"
proof -
  obtain d where "json_loads (dump (VDict (snapshot p))) = Inr (VDict d)"
    and "\<And>k. map_of d k = map_option
          (\<lambda>v. json_value True (if key_is_sensitive k then VStr placeholder else scrub v)) (map_of (snapshot p) k)"
    using dump_lookup [OF assms] by metis
  then show ?thesis using dump_free [OF assms] open_item_snapshot by blast
qed

text \<open>The payload before its last redaction: only text, lists and dicts, and keys fixed by the code.\<close>

definition draft_payload :: "detection_event \<Rightarrow> outcome \<Rightarrow> plan option \<Rightarrow> string \<Rightarrow> pyval" where
  "draft_payload ev out p env_name =
     VDict [(''text'', VStr (alert_title out env_name)), (''blocks'', VList (alert_blocks ev out p env_name))]"

lemma payload_of_draft: "VDict (build_payload ev out p env_name) = scrub (draft_payload ev out p env_name)"
  by (simp add: build_payload_def draft_payload_def scrub_mapping_def)

lemma plain_json_scrub: "plain_json v \<Longrightarrow> plain_json (scrub v)"
  by (induction v rule: scrub.induct) (auto simp: list_all_iff)

lemma key_names: "\<not> has_secret ''text''" "\<not> has_secret ''blocks''" "\<not> has_secret ''type''"
    "\<not> has_secret ''fields''" "\<not> has_secret ''elements''"
  by code_simp+

lemma block_shapes:
  "names_free (mrkdwn t)" "names_free (text_section t)" "plain_json (mrkdwn t)" "plain_json (text_section t)"
  by (simp_all add: text_section_def mrkdwn_def key_names)

lemma draft_keys: "names_free (draft_payload ev out p env_name)"
  by (auto simp: draft_payload_def alert_blocks_def block_shapes key_names list_all_iff split: option.splits)

lemma draft_plain: "plain_json (draft_payload ev out p env_name)"
  by (auto simp: draft_payload_def alert_blocks_def block_shapes list_all_iff split: option.splits)

text \<open>
  C36: what goes over the wire. The body posted to Slack is a JSON text that reads back as exactly the
  redacted payload, and the bytes of the whole body, not only its text fields, hold no webhook URL
  and no Slack token.
\<close>

theorem body_on_the_wire:
  assumes "json_ok (VDict (build_payload ev out p env_name))"
  shows "json_loads (json_dumps False (VDict (build_payload ev out p env_name))) =
           Inr (VDict (build_payload ev out p env_name)) \<and>
         \<not> has_secret (json_dumps False (VDict (build_payload ev out p env_name)))"
  using json_loads_dumps [OF assms, of False] dumps_free [OF assms]
  by (simp only: payload_of_draft json_value_plain [OF plain_json_scrub [OF draft_plain]]
      scrub_secret_free [OF draft_keys] not_False_eq_True simp_thms)

theorem body_on_the_wire_witness:
  "json_loads (json_dumps False (VDict (build_payload quiet_event quiet_outcome None ''prod''))) =
     Inr (VDict (build_payload quiet_event quiet_outcome None ''prod''))"
proof -
  have "json_ok (VDict (build_payload quiet_event quiet_outcome None ''prod''))" by code_simp
  from body_on_the_wire [OF this] show ?thesis by simp
qed

definition evidence_plan :: plan where
  "evidence_plan = quiet_plan\<lparr>snapshot :=
     [(''group'', VStr ''sg-1''), (''ports'', VList [VInt 22, VFloat 85 (- 1)]), (''sessionToken'', VStr ''FwoG'')]\<rparr>"

theorem snapshot_reads_back_witness:
  "\<exists>text d. map_of (open_item ''now'' ''sg-open'' quiet_event evidence_plan False) ''snapshot'' = Some (VStr text) \<and>
     json_loads text = Inr (VDict d) \<and> map_of d ''ports'' = Some (VList [VInt 22, VFloat 85 (- 1)]) \<and>
     map_of d ''sessionToken'' = Some (VStr placeholder) \<and> \<not> has_secret text"
proof -
  have ok: "json_ok (VDict (snapshot evidence_plan))" by code_simp
  have free: "names_free (VDict (snapshot evidence_plan))" by code_simp
  have keys: "map_of (snapshot evidence_plan) ''ports'' = Some (VList [VInt 22, VFloat 85 (- 1)])"
    "map_of (snapshot evidence_plan) ''sessionToken'' = Some (VStr ''FwoG'')"
    by (simp_all add: evidence_plan_def)
  have sensitive: "\<not> key_is_sensitive ''ports''" "key_is_sensitive ''sessionToken''" by code_simp+
  from snapshot_reads_back [OF ok, of "''now''" "''sg-open''" quiet_event False] obtain stored d where
    stored: "map_of (open_item ''now'' ''sg-open'' quiet_event evidence_plan False) ''snapshot'' = Some (VStr stored)"
    "json_loads stored = Inr (VDict d)" "\<not> has_secret stored"
    and look: "\<And>k. map_of d k = map_option
       (\<lambda>v. json_value True (if key_is_sensitive k then VStr placeholder else scrub v)) (map_of (snapshot evidence_plan) k)"
    using free by blast
  moreover have "map_of d ''ports'' = Some (VList [VInt 22, VFloat 85 (- 1)])"
    and "map_of d ''sessionToken'' = Some (VStr placeholder)"
    unfolding look keys by (simp_all add: sensitive)
  ultimately show ?thesis using stored by blast
qed

end
