(* ===== verification/CallBound.thy ===== *)
theory CallBound
  imports Entrypoint
begin

text \<open>
  How many external calls an invocation can make. Nothing in the program loops over calls, so the
  number is a constant of each handler; it bounds what one event can cost, in time against the
  Lambda timeout and in requests against the account's API limits.
\<close>

subsection \<open>Counting calls\<close>

definition at_most :: "nat \<Rightarrow> ('w, 'a) run \<Rightarrow> bool" where
  "at_most n m \<longleftrightarrow> (\<forall>s. length (events (m s)) \<le> n)"

lemma at_most_le: "at_most k m \<Longrightarrow> k \<le> n \<Longrightarrow> at_most n m"
  unfolding at_most_def by (meson le_trans)

lemma at_mostI: "(\<And>s r t s'. m s = (r, t, s') \<Longrightarrow> length t \<le> n) \<Longrightarrow> at_most n m"
  unfolding at_most_def by (metis prod.collapse)

lemma at_mostD: "at_most n m \<Longrightarrow> m s = (r, t, s') \<Longrightarrow> length t \<le> n"
  unfolding at_most_def by (metis fst_conv snd_conv)

lemma at_most_atoms: "at_most 0 (ret x)" "at_most 0 (throw e)" "at_most 0 (lift r)" "at_most 0 (read_clock env)"
  by (simp_all add: at_most_def ret_def throw_def lift_def read_clock_def split: prod.splits)

lemma at_most_call: "at_most 1 (do_call env c)"
  by (simp add: at_most_def do_call_def split: prod.splits)

lemma at_most_bind: "at_most a m \<Longrightarrow> (\<And>x. at_most b (f x)) \<Longrightarrow> at_most (a + b) (bind m f)"
proof (rule at_mostI, erule bindE)
  fix s r t s' e
  assume "at_most a m" "m s = (Inl e, t, s')"
  then show "length t \<le> a + b" by (auto dest: at_mostD)
next
  fix s r t s' x t1 s1 t2
  assume "at_most a m" "\<And>x. at_most b (f x)" "m s = (Inr x, t1, s1)" "f x s1 = (r, t2, s')" "t = t1 @ t2"
  then show "length t \<le> a + b" by (auto dest!: at_mostD intro: add_mono)
qed

lemma at_most_try: "at_most a m \<Longrightarrow> (\<And>e. at_most b (h e)) \<Longrightarrow> at_most (a + b) (try_except m h)"
proof (rule at_mostI, erule try_exceptE)
  fix s r t s' e t1 s1 t2
  assume "at_most a m" "\<And>e. at_most b (h e)" "m s = (Inl e, t1, s1)" "h e s1 = (r, t2, s')" "t = t1 @ t2"
  then show "length t \<le> a + b" by (auto dest!: at_mostD intro: add_mono)
next
  fix s r t s' x
  assume "at_most a m" "m s = (Inr x, t, s')"
  then show "length t \<le> a + b" by (auto dest: at_mostD)
qed

lemma at_most_cases:
  "at_most a m \<Longrightarrow> at_most b n \<Longrightarrow> at_most (max a b) (if c then m else n)"
  "at_most a n \<Longrightarrow> (\<And>x. at_most b (f x)) \<Longrightarrow> at_most (max a b) (case v of None \<Rightarrow> n | Some x \<Rightarrow> f x)"
  "(\<And>e. at_most a (g e)) \<Longrightarrow> (\<And>x. at_most b (f' x)) \<Longrightarrow> at_most (max a b) (case w of Inl e \<Rightarrow> g e | Inr x \<Rightarrow> f' x)"
  using at_most_le [of a _ "max a b"] at_most_le [of b _ "max a b"] by (auto split: option.splits sum.splits)

lemmas count = at_most_atoms at_most_call at_most_bind at_most_try at_most_cases

subsection \<open>The components\<close>


lemma at_most_iso: "at_most 0 (iso env)"
  by (rule at_most_le, unfold iso_def, (rule count)+, simp)

lemma at_most_epoch: "at_most 0 (epoch env)"
  by (rule at_most_le, unfold epoch_def, (rule count)+, simp)

lemmas count_clock = count at_most_iso at_most_epoch

lemma at_most_open: "at_most 1 (audit_open env tb did ev p dry)"
  by (rule at_most_le, unfold audit_open_def, (rule count_clock)+, simp)

lemma at_most_close: "at_most 1 (audit_close env tb k out)"
  by (rule at_most_le, unfold audit_close_def, (rule count_clock)+, simp)

lemma at_most_record: "at_most 1 (record_unplanned env tb did ev out)"
  by (rule at_most_le, unfold record_unplanned_def, (rule count_clock)+, simp)

lemma at_most_check: "at_most 1 (check_and_increment env tb did lim window at)"
  by (rule at_most_le, unfold check_and_increment_def, (rule count_clock)+, simp)

lemma at_most_attached: "at_most 1 (attached_interface_count env g)"
  by (rule at_most_le, unfold attached_interface_count_def, (rule count)+, simp)

lemma at_most_sg_plan: "at_most 2 (sg_plan env ev)"
  by (rule at_most_le, unfold sg_plan_def sg_build_plan_def Let_def, (rule count at_most_attached)+, simp)

lemma at_most_sg_apply: "at_most 1 (sg_apply env p)"
  by (rule at_most_le, unfold sg_apply_def Let_def, (rule count)+, simp)

lemma at_most_safe_get: "at_most 1 (safe (call_get env c k d) d')"
  by (rule at_most_le, unfold safe_def call_get_def, (rule count)+, simp)

lemma at_most_load_policy: "at_most 1 (load_policy env b)"
proof -
  have "at_most 0 (case raw of
       VStr s \<Rightarrow> (case json_loads s of
            Inr parsed \<Rightarrow> ret (if is_mapping parsed then parsed else VNone)
          | Inl e \<Rightarrow> if exn_name e = ''JSONDecodeError'' then ret VNone else throw e)
     | _ \<Rightarrow> ret VNone)" for raw :: pyval
    by (auto simp: at_most_atoms split: pyval.splits sum.splits)
  from at_most_bind [OF at_most_safe_get this] show ?thesis by (simp add: load_policy_def)
qed

lemma at_most_load_tags: "at_most 1 (load_tags env b)"
  by (rule at_most_le, unfold load_tags_def, (rule count at_most_safe_get)+, simp)

lemma at_most_s3_plan: "at_most 4 (s3_plan env ev)"
  by (rule at_most_le, unfold s3_plan_def safe_def call_get_def Let_def,
      (rule count at_most_load_policy at_most_load_tags)+, simp)

lemma at_most_s3_apply: "at_most 2 (s3_apply env p)"
  by (rule at_most_le, unfold s3_apply_def Let_def, (rule count)+, simp)

lemma at_most_iam_reads:
  "at_most 1 (last_used env k)" "at_most 1 (key_metadata env u k)" "at_most 1 (user_tags env u)"
  by ((rule at_most_le, unfold last_used_def key_metadata_def user_tags_def, (rule count)+, simp); fail)+

lemma at_most_iam_plan: "at_most 3 (iam_plan env ev)"
  by (rule at_most_le, unfold iam_plan_def Let_def, (rule count at_most_iam_reads)+, simp)

lemma at_most_iam_apply: "at_most 1 (iam_apply env p)"
  by (rule at_most_le, unfold iam_apply_def, (rule count)+, simp)

lemma at_most_claim: "at_most 1 (dedup_claim env tb window k at)"
  by (rule at_most_le, unfold dedup_claim_def, (rule count_clock)+, simp)

lemma at_most_resolve_webhook: "at_most 1 (resolve_webhook env secret_arn)"
  by (rule at_mostI, erule resolve_webhookE) simp_all

lemma at_most_post: "at_most 2 (slack_post env secret_arn payload)"
  by (rule at_most_le, unfold slack_post_def, (rule count at_most_resolve_webhook)+, simp)

lemma at_most_slack: "at_most 3 (slack_notify env secret_arn tb env_name window ev out p)"
  by (rule at_most_le, unfold slack_notify_def, (rule count at_most_claim at_most_post)+, simp)

subsection \<open>The pipeline\<close>

text \<open>A pipeline whose parts make at most \<open>np\<close>, \<open>na\<close> and \<open>nn\<close> calls.\<close>

locale bounded_pipeline = pipeline det notify
  for det :: "'w detection" and notify :: "'w notifier" +
  fixes np na nn :: nat
  assumes plan_bound: "at_most np (plan_of det ev)"
    and apply_bound: "at_most na (apply_of det p)"
    and notify_bound: "at_most nn (notify ev out q)"
begin

lemma conclude_bound: "at_most (1 + nn) (conclude env cfg notify ev p k out)"
  by (rule at_most_le, unfold conclude_def, (rule count at_most_close notify_bound)+, simp)

lemma run_apply_bound: "at_most (na + 1 + nn) (run_apply env det cfg notify ev p k)"
  by (rule at_most_le, unfold run_apply_def, (rule count apply_bound conclude_bound)+, simp)

lemma run_gates_bound: "at_most (2 + na + nn) (run_gates env det cfg notify ev p k)"
  by (rule at_most_le, unfold run_gates_def, (rule count at_most_check conclude_bound run_apply_bound)+, simp)

lemma run_plan_bound: "at_most (3 + na + nn) (run_plan env det cfg notify ev p)"
  by (rule at_most_le, unfold run_plan_def Let_def,
      (rule count at_most_record at_most_open notify_bound run_gates_bound)+, simp)

lemma execute_bound: "at_most (np + 3 + na + nn) (execute env det raw cfg notify)"
  by (rule at_most_le, unfold execute_def Let_def,
      (rule count at_most_record plan_bound run_plan_bound)+, simp)

end

fun plan_calls :: "handler \<Rightarrow> nat" where
  "plan_calls SG_OPEN = 2"
| "plan_calls S3_PUBLIC = 4"
| "plan_calls IAM_KEY_LEAK = 3"

fun apply_calls :: "handler \<Rightarrow> nat" where
  "apply_calls S3_PUBLIC = 2"
| "apply_calls _ = 1"

lemma detector_plan_bound: "at_most (plan_calls h) (plan_of (detector env h) ev)"
  by (cases h) (simp_all add: sg_open_def s3_public_def iam_key_leak_def at_most_sg_plan at_most_s3_plan
      at_most_iam_plan)

lemma detector_apply_bound: "at_most (apply_calls h) (apply_of (detector env h) p)"
  by (cases h) (simp_all add: sg_open_def s3_public_def iam_key_leak_def at_most_s3_apply
      at_most_sg_apply [unfolded One_nat_def] at_most_iam_apply [unfolded One_nat_def])

lemma notifier_bound: "at_most 3 (build_notifier env cfg ev out p)"
  using at_most_le [OF at_most_atoms(1)] at_most_slack
  by (auto simp: build_notifier_def null_notify_def split: option.splits)

interpretation bounded: bounded_pipeline "detector env h" "build_notifier env cfg" "plan_calls h" "apply_calls h" 3
  for env h cfg
  by unfold_locales (rule detector_plan_bound detector_apply_bound notifier_bound)+

text \<open>
  C15: an invocation makes a bounded number of external calls, whatever the event and whatever AWS
  answers, retries of the caller aside: nine for a security group, twelve for a bucket, ten for an
  access key. No answer, however large, makes the handler call once more.
\<close>

theorem invocation_bounded:
  "length (events (snd (lambda_handler env h vars session table_ok c raw) s)) \<le>
     (case h of SG_OPEN \<Rightarrow> 9 | S3_PUBLIC \<Rightarrow> 12 | IAM_KEY_LEAK \<Rightarrow> 10)"
proof -
  have "at_most (plan_calls h + 3 + apply_calls h + 3) (snd (lambda_handler env h vars session table_ok c raw))"
  proof (cases "resolve vars session table_ok c")
    case (Pair r c')
    show ?thesis
    proof (cases r)
      case (Inl e)
      then show ?thesis
        using at_most_le [OF at_most_atoms(2)] Pair by (simp add: lambda_handler_def)
    next
      case (Inr x)
      obtain cfg n where x: "x = (cfg, n)" by fastforce
      have "at_most (plan_calls h + 3 + apply_calls h + 3 + 0)
         (bind (execute env (detector env h) raw cfg (build_notifier env n)) (\<lambda>out. ret (summary out)))"
        by (rule at_most_bind [OF bounded.execute_bound at_most_atoms(1)])
      then show ?thesis using Pair Inr x by (simp add: lambda_handler_def)
    qed
  qed
  then show ?thesis by (cases h) (auto simp: at_most_def)
qed

end
