(* ===== verification/SgRules.thy ===== *)
theory SgRules
  imports SgOpen
begin

text \<open>
  A typed view of security group rules, in the shape the EC2 client returns them, and what
  \<open>_world_open_dangerous_part\<close> does to it: the refinement between the two, and the exposures
  (a port reachable from the whole internet) a revocation covers.
\<close>

text \<open>
  One permission entry: protocol, port range, CIDR entries with their other fields (such as a
  description), and the fields the handler does not read.
\<close>

record ip_rule =
  proto :: string
  port_range :: "(int \<times> int) option"
  v4 :: "(string \<times> pydict) list"
  v6 :: "(string \<times> pydict) list"
  other :: pydict

definition encode_entry :: "string \<Rightarrow> string \<times> pydict \<Rightarrow> pyval" where
  "encode_entry k e = VDict ((k, VStr (fst e)) # snd e)"

definition encode_ports :: "ip_rule \<Rightarrow> pydict" where
  "encode_ports r =
     (case port_range r of None \<Rightarrow> [] | Some (a, b) \<Rightarrow> [(''FromPort'', VInt a), (''ToPort'', VInt b)])"

definition rule_dict :: "ip_rule \<Rightarrow> pydict" where
  "rule_dict r =
     [(''IpProtocol'', VStr (proto r))] @ encode_ports r @
     [(''IpRanges'', VList (map (encode_entry ''CidrIp'') (v4 r))),
      (''Ipv6Ranges'', VList (map (encode_entry ''CidrIpv6'') (v6 r)))] @ other r"

definition encode_rule :: "ip_rule \<Rightarrow> pyval" where
  "encode_rule r = VDict (rule_dict r)"

definition wf_rule :: "ip_rule \<Rightarrow> bool" where
  "wf_rule r \<longleftrightarrow> ''FromPort'' \<notin> fst ` set (other r) \<and> ''ToPort'' \<notin> fst ` set (other r)"

definition covers :: "ip_rule \<Rightarrow> int \<Rightarrow> bool" where
  "covers r port \<longleftrightarrow>
     proto r = ''-1'' \<or>
     proto r \<in> {''tcp'', ''udp''} \<and>
     (case port_range r of None \<Rightarrow> True | Some (a, b) \<Rightarrow> min a b \<le> port \<and> port \<le> max a b)"

definition world4 :: "ip_rule \<Rightarrow> (string \<times> pydict) list" where
  "world4 r = filter (\<lambda>e. fst e = world_ipv4) (v4 r)"

definition world6 :: "ip_rule \<Rightarrow> (string \<times> pydict) list" where
  "world6 r = filter (\<lambda>e. fst e = world_ipv6) (v6 r)"

text \<open>The internet reaches \<open>port\<close> through this rule.\<close>

definition world_open :: "ip_rule \<Rightarrow> int \<Rightarrow> bool" where
  "world_open r port \<longleftrightarrow> (world4 r \<noteq> [] \<or> world6 r \<noteq> []) \<and> covers r port"

definition dangerous :: "ip_rule \<Rightarrow> bool" where
  "dangerous r \<longleftrightarrow> list_ex (world_open r) sensitive_ports"

definition narrow :: "ip_rule \<Rightarrow> ip_rule" where
  "narrow r = r\<lparr>v4 := world4 r, v6 := world6 r, other := []\<rparr>"

text \<open>A narrowed rule as the handler builds it: an address family without entries is left out.\<close>

definition encode_part :: "ip_rule \<Rightarrow> pydict" where
  "encode_part r =
     [(''IpProtocol'', VStr (proto r))] @ encode_ports r @
     (if v4 r \<noteq> [] then [(''IpRanges'', VList (map (encode_entry ''CidrIp'') (v4 r)))] else []) @
     (if v6 r \<noteq> [] then [(''Ipv6Ranges'', VList (map (encode_entry ''CidrIpv6'') (v6 r)))] else [])"

subsection \<open>The handler on typed rules\<close>

lemma world_entry_encode: "world_entry k c (encode_entry k e) \<longleftrightarrow> fst e = c"
  by (simp add: world_entry_def encode_entry_def dict_get_def)

lemma filter_encode: "filter (world_entry k c) (map (encode_entry k) es) = map (encode_entry k) (filter (\<lambda>e. fst e = c) es)"
  by (induction es) (simp_all add: world_entry_encode)

lemma iter_list: "py_iter (py_or (VList xs) (VList [])) = Inr xs"
  by (simp add: py_or_def)

lemma rule_dict_lookup:
  "map_of (rule_dict r) ''IpProtocol'' = Some (VStr (proto r))"
  "map_of (rule_dict r) ''IpRanges'' = Some (VList (map (encode_entry ''CidrIp'') (v4 r)))"
  "map_of (rule_dict r) ''Ipv6Ranges'' = Some (VList (map (encode_entry ''CidrIpv6'') (v6 r)))"
  "wf_rule r \<Longrightarrow> map_of (rule_dict r) ''FromPort'' = map_option (\<lambda>(l, h). VInt l) (port_range r)"
  "wf_rule r \<Longrightarrow> map_of (rule_dict r) ''ToPort'' = map_option (\<lambda>(l, h). VInt h) (port_range r)"
  by (cases "port_range r"; force simp: rule_dict_def encode_ports_def wf_rule_def map_of_eq_None_iff)+

lemma ranges_encode:
  "ranges (encode_rule r) ''IpRanges'' = Inr (map (encode_entry ''CidrIp'') (v4 r))"
  "ranges (encode_rule r) ''Ipv6Ranges'' = Inr (map (encode_entry ''CidrIpv6'') (v6 r))"
  by (simp_all add: ranges_def encode_rule_def dict_get_def rule_dict_lookup iter_list)

lemma covered_ports_cases:
  assumes "map_of d ''IpProtocol'' = Some (VStr (proto r))"
    and "map_of d ''FromPort'' = map_option (\<lambda>(l, h). VInt l) (port_range r)"
    and "map_of d ''ToPort'' = map_option (\<lambda>(l, h). VInt h) (port_range r)"
  shows "covered_sensitive_ports (VDict d) = Inr (filter (covers r) sensitive_ports)"
proof (cases "proto r \<in> {''tcp'', ''udp''}")
  case False
  then show ?thesis
    using assms(1) by (cases "proto r = ''-1''")
      (auto simp: covered_sensitive_ports_def dict_get_def covers_def Let_def)
next
  case True
  show ?thesis
  proof (cases "port_range r")
    case None
    with True assms show ?thesis
      by (auto simp: covered_sensitive_ports_def dict_get_def covers_def Let_def)
  next
    case (Some ab)
    obtain a b where ab: "ab = (a, b)" by (cases ab)
    have "covered_sensitive_ports (VDict d) =
        Inr (filter (\<lambda>port. min a b \<le> port \<and> port \<le> max a b) sensitive_ports)"
      using True Some ab assms
      by (auto simp: covered_sensitive_ports_def dict_get_def min_def max_def Let_def)
    moreover have "covers r = (\<lambda>port. min a b \<le> port \<and> port \<le> max a b)"
      using True Some ab by (auto simp: covers_def fun_eq_iff)
    ultimately show ?thesis by simp
  qed
qed

lemma covered_encode:
  "wf_rule r \<Longrightarrow> covered_sensitive_ports (encode_rule r) = Inr (filter (covers r) sensitive_ports)"
  unfolding encode_rule_def
  by (rule covered_ports_cases) (simp_all add: rule_dict_lookup)

lemma present_encode:
  "wf_rule r \<Longrightarrow> present (rule_dict r) ''FromPort'' @ present (rule_dict r) ''ToPort'' = encode_ports r"
  by (auto simp: present_def rule_dict_lookup encode_ports_def split: option.splits)

lemma dangerous_iff:
  "dangerous r \<longleftrightarrow> (world4 r \<noteq> [] \<or> world6 r \<noteq> []) \<and> filter (covers r) sensitive_ports \<noteq> []"
  by (auto simp: dangerous_def world_open_def list_ex_iff filter_empty_conv)

text \<open>The refinement: on an encoded rule the handler computes the encoding of the narrowed rule.\<close>

lemma world_open_dangerous_part_encode:
  assumes "wf_rule r"
  shows "world_open_dangerous_part (encode_rule r) =
           Inr (if dangerous r then Some (encode_part (narrow r)) else None)"
proof -
  have pr: "dict_get (as_dict (encode_rule r)) ''IpProtocol'' d = VStr (proto r)" for d
    by (simp add: encode_rule_def dict_get_def rule_dict_lookup)
  have e4: "filter (world_entry ''CidrIp'' world_ipv4) (map (encode_entry ''CidrIp'') (v4 r)) =
      map (encode_entry ''CidrIp'') (world4 r)"
    by (simp add: filter_encode world4_def)
  have e6: "filter (world_entry ''CidrIpv6'' world_ipv6) (map (encode_entry ''CidrIpv6'') (v6 r)) =
      map (encode_entry ''CidrIpv6'') (world6 r)"
    by (simp add: filter_encode world6_def)
  have ports: "encode_ports (r\<lparr>v4 := a, v6 := b, other := c\<rparr>) = encode_ports r" for a b c
    by (simp add: encode_ports_def)
  have dict: "as_dict (encode_rule r) = rule_dict r" by (simp add: encode_rule_def)
  show ?thesis
    unfolding world_open_dangerous_part_def dangerous_iff
    by (simp add: ranges_encode covered_encode assms e4 e6 pr Let_def)
       (simp add: encode_part_def ports narrow_def dict present_encode [OF assms, symmetric])
qed

lemma revocations_of_encode:
  assumes "\<forall>r\<in>set rs. wf_rule r"
  shows "revocations_of (map encode_rule rs) = Inr (map (\<lambda>r. encode_part (narrow r)) (filter dangerous rs))"
proof -
  let ?f = "\<lambda>r. if dangerous r then Some (encode_part (narrow r)) else None"
  have "res_mapM world_open_dangerous_part (map encode_rule rs) = Inr (map ?f rs)"
    using assms by (induction rs) (auto simp: world_open_dangerous_part_encode)
  moreover have "List.map_filter (\<lambda>x. x) (map ?f rs) = map (\<lambda>r. encode_part (narrow r)) (filter dangerous rs)"
    by (induction rs) (auto simp: List.map_filter_simps)
  ultimately show ?thesis by (simp add: revocations_of_def)
qed

lemma covers_narrow [simp]: "covers (narrow r) = covers r"
  by (auto simp: covers_def narrow_def fun_eq_iff)

lemma covered_part: "covered_sensitive_ports (VDict (encode_part r)) = Inr (filter (covers r) sensitive_ports)"
  by (rule covered_ports_cases) (auto simp: encode_part_def encode_ports_def split: option.splits)

subsection \<open>Rendering a narrowed rule never fails\<close>

lemma members_encode: "res_mapM (py_member_item k) (map (encode_entry k) es) = Inr (map (\<lambda>e. Some (VStr (fst e))) es)"
  by (induction es) (simp_all add: encode_entry_def)

lemma map_filter_Some: "List.map_filter (\<lambda>x. x) (map (\<lambda>e. Some (f e)) es) = map f es"
  by (induction es) (simp_all add: List.map_filter_simps)

lemma sources_part:
  "sources_of (VDict (encode_part r)) ''IpRanges'' ''CidrIp'' = Inr (map VStr (map fst (v4 r)))"
  "sources_of (VDict (encode_part r)) ''Ipv6Ranges'' ''CidrIpv6'' = Inr (map VStr (map fst (v6 r)))"
  by (cases "port_range r"; auto simp: sources_of_def encode_part_def encode_ports_def dict_get_def
      members_encode map_filter_Some comp_def)+

lemma render_part:
  "\<exists>txt. render (VDict (encode_part r)) = Inr txt"
proof -
  have "str_items 0 (map VStr (map fst (v4 r)) @ map VStr (map fst (v6 r))) = Inr (map fst (v4 r) @ map fst (v6 r))"
    by (simp only: map_append [symmetric] str_items_VStr)
  moreover have "\<exists>pr. py_get (VDict (encode_part r)) ''IpProtocol'' (VStr ''-1'') = Inr pr" by simp
  ultimately show ?thesis
    by (auto simp: render_def sources_part)
qed

lemma render_parts: "\<exists>txts. res_mapM (\<lambda>rule. render (VDict rule)) (map (\<lambda>r. encode_part (narrow r)) rs) = Inr txts"
proof (induction rs)
  case (Cons r rs)
  obtain x where "render (VDict (encode_part (narrow r))) = Inr x" using render_part by blast
  moreover obtain xs where "res_mapM (\<lambda>rule. render (VDict rule)) (map (\<lambda>r. encode_part (narrow r)) rs) = Inr xs"
    using Cons by blast
  ultimately show ?case by simp
qed simp

lemma exposed_parts: "\<exists>ps. exposed_ports (map (\<lambda>r. encode_part (narrow r)) rs) = Inr ps"
proof -
  have "res_mapM (\<lambda>rule. covered_sensitive_ports (VDict rule)) (map (\<lambda>r. encode_part (narrow r)) rs) =
      Inr (map (\<lambda>r. filter (covers r) sensitive_ports) rs)"
    by (induction rs) (simp_all add: covered_part)
  then show ?thesis by (simp add: exposed_ports_def)
qed

subsection \<open>What the handler promises\<close>

text \<open>
  A rule after the CIDRs of its narrowed form have been revoked: EC2 removes exactly the entries
  a revocation names.
\<close>

definition after_revocation :: "ip_rule \<Rightarrow> ip_rule" where
  "after_revocation r =
     (if dangerous r
      then r\<lparr>v4 := filter (\<lambda>e. e \<notin> set (v4 (narrow r))) (v4 r),
             v6 := filter (\<lambda>e. e \<notin> set (v6 (narrow r))) (v6 r)\<rparr>
      else r)"

lemma world_after:
  "dangerous r \<Longrightarrow> world4 (after_revocation r) = [] \<and> world6 (after_revocation r) = []"
  by (auto simp: after_revocation_def narrow_def world4_def world6_def filter_empty_conv)

text \<open>
  C7: the revocations are the narrowed forms of the dangerous rules, in order; once they are
  revoked no sensitive port is reachable from the internet, every rule keeps its other CIDRs, and
  a rule that exposes no sensitive port, such as HTTPS, is not touched.
\<close>

theorem sg_revokes_exactly:
  assumes "\<forall>r\<in>set rs. wf_rule r"
  shows "revocations_of (map encode_rule rs) = Inr (map (\<lambda>r. encode_part (narrow r)) (filter dangerous rs)) \<and>
         (\<forall>r\<in>set rs. \<forall>port\<in>set sensitive_ports. \<not> world_open (after_revocation r) port) \<and>
         (\<forall>r\<in>set rs. filter (\<lambda>e. fst e \<noteq> world_ipv4) (v4 (after_revocation r)) =
                       filter (\<lambda>e. fst e \<noteq> world_ipv4) (v4 r)) \<and>
         (\<forall>r\<in>set rs. filter (\<lambda>e. fst e \<noteq> world_ipv6) (v6 (after_revocation r)) =
                       filter (\<lambda>e. fst e \<noteq> world_ipv6) (v6 r)) \<and>
         (\<forall>r\<in>set rs. \<not> dangerous r \<longrightarrow> after_revocation r = r)"
proof (intro conjI)
  show "\<forall>r\<in>set rs. \<forall>port\<in>set sensitive_ports. \<not> world_open (after_revocation r) port"
  proof (intro ballI)
    fix r port
    assume port: "port \<in> set sensitive_ports"
    show "\<not> world_open (after_revocation r) port"
    proof (cases "dangerous r")
      case True
      then show ?thesis by (simp add: world_open_def world_after)
    next
      case False
      with port show ?thesis by (auto simp: after_revocation_def dangerous_def list_ex_iff)
    qed
  qed
qed (use assms in \<open>auto simp: revocations_of_encode after_revocation_def narrow_def world4_def world6_def
       intro: filter_cong\<close>)

definition ssh_ip_rule :: ip_rule where
  "ssh_ip_rule = \<lparr>proto = ''tcp'', port_range = Some (22, 22),
     v4 = [(world_ipv4, []), (''10.0.0.0/8'', [])], v6 = [], other = []\<rparr>"

definition https_ip_rule :: ip_rule where
  "https_ip_rule = \<lparr>proto = ''tcp'', port_range = Some (443, 443), v4 = [(world_ipv4, [])], v6 = [], other = []\<rparr>"

lemma demo_rules: "wf_rule ssh_ip_rule" "wf_rule https_ip_rule" "dangerous ssh_ip_rule" "\<not> dangerous https_ip_rule"
  by (simp_all add: wf_rule_def ssh_ip_rule_def https_ip_rule_def, code_simp+)

theorem sg_revokes_exactly_witness:
  "revocations_of (map encode_rule [ssh_ip_rule, https_ip_rule]) = Inr [encode_part (narrow ssh_ip_rule)] \<and>
   \<not> world_open (after_revocation ssh_ip_rule) 22 \<and> after_revocation https_ip_rule = https_ip_rule"
  using sg_revokes_exactly [of "[ssh_ip_rule, https_ip_rule]"] demo_rules
  by (simp add: sensitive_ports_def)

text \<open>
  The ports a rule exposes: protocol \<open>-1\<close> means every sensitive port, \<open>tcp\<close> and \<open>udp\<close> those
  within the port range whichever way round it is given (or all, without a range), and any other
  protocol none.
\<close>

lemma covered_ports_spec:
  assumes "wf_rule r"
  shows "covered_sensitive_ports (encode_rule r) =
     Inr (filter (\<lambda>port. proto r = ''-1'' \<or> (proto r = ''tcp'' \<or> proto r = ''udp'') \<and>
            (\<forall>a b. port_range r = Some (a, b) \<longrightarrow> min a b \<le> port \<and> port \<le> max a b)) sensitive_ports)"
proof -
  have "covers r = (\<lambda>port. proto r = ''-1'' \<or> (proto r = ''tcp'' \<or> proto r = ''udp'') \<and>
            (\<forall>a b. port_range r = Some (a, b) \<longrightarrow> min a b \<le> port \<and> port \<le> max a b))"
    by (auto simp: covers_def fun_eq_iff split: option.splits)
  then show ?thesis using covered_encode [OF assms] by simp
qed

lemma covered_ports_spec_witness:
  "covered_sensitive_ports (encode_rule (ssh_ip_rule\<lparr>port_range := Some (25, 20)\<rparr>)) = Inr [20, 21, 22, 23, 25]"
  by (subst covered_ports_spec) (simp_all add: wf_rule_def ssh_ip_rule_def sensitive_ports_def)

text \<open>A rule that opens nothing but commonly public ports is left alone.\<close>

lemma public_ports_left_alone:
  assumes "wf_rule r" and "proto r \<noteq> ''-1''" and "port_range r = Some (a, b)"
    and "{min a b..max a b} \<subseteq> set commonly_public_ports"
  shows "world_open_dangerous_part (encode_rule r) = Inr None"
proof -
  have "\<forall>port\<in>set sensitive_ports. port \<notin> {min a b..max a b}"
    using assms(4) by (auto simp: sensitive_ports_def commonly_public_ports_def)
  then have "\<not> dangerous r"
    using assms(2,3) by (auto simp: dangerous_def world_open_def covers_def list_ex_iff)
  then show ?thesis using assms(1) by (simp add: world_open_dangerous_part_encode)
qed

subsection \<open>Planning\<close>

text \<open>A security group as EC2 describes it, as far as the handler reads it.\<close>

definition describes :: "pydict \<Rightarrow> ip_rule list \<Rightarrow> bool" where
  "describes g rs \<longleftrightarrow>
     map_of g ''IpPermissions'' = Some (VList (map encode_rule rs)) \<and> (\<forall>r\<in>set rs. wf_rule r) \<and>
     (\<exists>ts. dict_get g ''Tags'' (VList []) = VList ts)"

text \<open>An answer of the AWS client: an error, or a dict.\<close>

definition dict_answer :: "pyval res \<Rightarrow> bool" where
  "dict_answer a \<longleftrightarrow> (\<forall>v. a = Inr v \<longrightarrow> is_mapping v)"

lemma attached_total:
  assumes "\<And>c w. dict_answer (fst (perform env c w))"
  shows "\<exists>n t s'. attached_interface_count env g s = (Inr n, t, s')"
proof -
  obtain a w where p: "perform env (DescribeNetworkInterfaces ''group-id'' [g]) (ext s) = (a, w)" by force
  have "a = Inr v \<Longrightarrow> \<exists>d. v = VDict d" for v
    using assms [of "DescribeNetworkInterfaces ''group-id'' [g]" "ext s"] p
    by (cases v) (auto simp: dict_answer_def)
  then show ?thesis
    by (cases a) (auto simp: attached_interface_count_def bind_def try_except_def do_call_def p ret_def lift_def)
qed

lemma sg_build_total:
  assumes "\<And>c w. dict_answer (fst (perform env c w))" and "describes g rs"
  shows "\<exists>p t s'. sg_build_plan env ev gid (VDict g) perms
             (map (\<lambda>r. encode_part (narrow r)) ds) s = (Inr (Some p), t, s') \<and>
           resource_id p = gid \<and>
           map_of (snapshot p) ''ip_permissions_before'' = Some (VList perms) \<and>
           map_of (snapshot p) ''ip_permissions_revoked'' =
             Some (VList (map (\<lambda>r. VDict (encode_part (narrow r))) ds)) \<and>
           length (intended_actions p) = length ds"
proof -
  obtain ts where ts: "dict_get g ''Tags'' (VList []) = VList ts"
    using assms(2) by (auto simp: describes_def)
  obtain ps where ps: "exposed_ports (map (\<lambda>r. encode_part (narrow r)) ds) = Inr ps"
    using exposed_parts by blast
  obtain txts where txts: "res_mapM (\<lambda>rule. render (VDict rule)) (map (\<lambda>r. encode_part (narrow r)) ds) = Inr txts"
    using render_parts by blast
  have len: "length txts = length ds"
    using list_all2_lengthD [OF res_mapM_Inr_D [OF txts]] by simp
  obtain n t s' where att: "attached_interface_count env gid s = (Inr n, t, s')"
    using attached_total [OF assms(1)] by blast
  have tagged: "res_bind (py_get (VDict g) ''Tags'' (VList [])) (\<lambda>v. py_iter (py_or v (VList []))) = Inr ts"
    by (simp add: ts py_or_def)
  show ?thesis
    unfolding sg_build_plan_def tagged
    by (simp add: ps txts Let_def) (simp add: bind_def att ret_def len comp_def)
qed

text \<open>Planning on a described group: one description, then the decision on its typed rules.\<close>

lemma sg_plan_run:
  assumes "text_field (request_parameters ev) ''groupId'' = gid" and "gid \<noteq> []"
    and "perform env (DescribeSecurityGroups [gid]) (ext s) = (Inr (VDict d), w)"
    and "dict_get d ''SecurityGroups'' (VList []) = VList (VDict g # others)" and "describes g rs"
  shows "sg_plan env ev s =
      (case (if filter dangerous rs = [] then ret None
             else sg_build_plan env ev gid (VDict g) (map encode_rule rs)
                    (map (\<lambda>r. encode_part (narrow r)) (filter dangerous rs))) (s\<lparr>ext := w\<rparr>)
       of (r, t, s') \<Rightarrow> (r, (DescribeSecurityGroups [gid], Inr (VDict d)) # t, s'))"
proof -
  have perms: "ranges (VDict g) ''IpPermissions'' = Inr (map encode_rule rs)"
    using assms(5) by (simp add: ranges_def describes_def dict_get_def iter_list)
  have revs: "revocations_of (map encode_rule rs) = Inr (map (\<lambda>r. encode_part (narrow r)) (filter dangerous rs))"
    using assms(5) by (intro revocations_of_encode) (simp add: describes_def)
  show ?thesis
    unfolding sg_plan_def Let_def assms(1)
    using assms(2) by (simp add: bind_do_call(1) [OF assms(3)] assms(4) perms revs)
qed

text \<open>
  C27: the plan for a group EC2 describes: nothing when no rule is dangerous; otherwise a plan on
  that group which snapshots all its rules, carries exactly the narrowed dangerous ones and names
  one action for each, even when the attached interfaces cannot be counted.
\<close>

theorem sg_plan_decides:
  assumes "text_field (request_parameters ev) ''groupId'' = gid" and "gid \<noteq> []"
    and "\<And>c w. dict_answer (fst (perform env c w))"
    and "perform env (DescribeSecurityGroups [gid]) (ext s) = (Inr (VDict d), w)"
    and "dict_get d ''SecurityGroups'' (VList []) = VList (VDict g # others)" and "describes g rs"
  shows "if filter dangerous rs = [] then result (sg_plan env ev s) = Inr None
         else \<exists>p. result (sg_plan env ev s) = Inr (Some p) \<and> resource_id p = gid \<and>
           map_of (snapshot p) ''ip_permissions_before'' = Some (VList (map encode_rule rs)) \<and>
           map_of (snapshot p) ''ip_permissions_revoked'' =
             Some (VList (map (\<lambda>r. VDict (encode_part (narrow r))) (filter dangerous rs))) \<and>
           length (intended_actions p) = length (filter dangerous rs)"
proof -
  note run = sg_plan_run [OF assms(1,2,4-6)]
  show ?thesis
  proof (cases "filter dangerous rs = []")
    case True
    then show ?thesis by (simp add: run ret_def)
  next
    case False
    with sg_build_total [OF assms(3,6), of ev gid "map encode_rule rs" "filter dangerous rs" "s\<lparr>ext := w\<rparr>"]
    show ?thesis by (auto simp: run)
  qed
qed

definition sample_group :: pydict where
  "sample_group = [(''GroupName'', VStr ''web''), (''Tags'', VList []),
     (''IpPermissions'', VList (map encode_rule [ssh_ip_rule, https_ip_rule]))]"

definition sample_ec2 :: "unit env" where
  "sample_ec2 = \<lparr>
     perform = (\<lambda>c w. (case c of
        DescribeSecurityGroups _ \<Rightarrow> Inr (VDict [(''SecurityGroups'', VList [VDict sample_group])])
      | DescribeNetworkInterfaces _ _ \<Rightarrow> Inl (External ''ClientError'' ''throttled'' None)
      | _ \<Rightarrow> Inr (VDict []), w)),
     clock_now = (\<lambda>w. (undefined, w))\<rparr>"

definition sample_event :: detection_event where
  "sample_event = \<lparr>event_id = ''e'', event_time = ''t'', source = ''aws.ec2'', account_id = ''1'',
     region = ''eu-west-1'', principal = \<lparr>arn = ''a'', ptype = ''IAMUser'', pname = ''m'', paccount_id = ''1''\<rparr>,
     source_ip = ''192.0.2.1'', user_agent = ''aws-cli'',
     detail = [(''requestParameters'', VDict [(''groupId'', VStr ''sg-1'')])]\<rparr>"

lemma sample_ec2_dicts: "dict_answer (fst (perform sample_ec2 c w))"
  by (simp add: sample_ec2_def dict_answer_def split: call.split)

lemma sample_group_describes: "describes sample_group [ssh_ip_rule, https_ip_rule]"
  using demo_rules by (simp add: describes_def sample_group_def dict_get_def)

theorem sg_plan_decides_witness:
  "\<exists>p. result (sg_plan sample_ec2 sample_event \<lparr>ext = (), webhook_cache = None\<rparr>) = Inr (Some p) \<and>
       length (intended_actions p) = 1"
proof -
  let ?s = "\<lparr>ext = (), webhook_cache = None\<rparr> :: unit st"
  have gid: "text_field (request_parameters sample_event) ''groupId'' = ''sg-1''" by code_simp
  have "perform sample_ec2 (DescribeSecurityGroups [''sg-1'']) (ext ?s) =
      (Inr (VDict [(''SecurityGroups'', VList [VDict sample_group])]), ())"
    by (simp add: sample_ec2_def)
  from sg_plan_decides [OF gid _ sample_ec2_dicts this _ sample_group_describes] demo_rules(3,4)
  show ?thesis by (auto simp: dict_get_def)
qed

subsection \<open>Applying\<close>

text \<open>
  Applying such a plan makes exactly one call, the revocation of the planned rules on the
  planned group; it fails only when that call does, never after it, and reports one action per rule.
\<close>

lemma sg_apply_once:
  assumes "map_of (snapshot p) ''ip_permissions_revoked'' =
             Some (VList (map (\<lambda>r. VDict (encode_part (narrow r))) rs))" and "rs \<noteq> []"
    and "sg_apply env p s = (r, t, s')"
  shows "\<exists>a. t = [(RevokeSecurityGroupIngress (resource_id p)
                   (map (\<lambda>r. VDict (encode_part (narrow r))) rs), a)] \<and>
           (case a of Inl e \<Rightarrow> r = Inl e | Inr v \<Rightarrow> \<exists>acts. r = Inr acts \<and> length acts = length rs)"
proof -
  let ?parts = "map (\<lambda>r. VDict (encode_part (narrow r))) rs"
  obtain txts where "res_mapM (\<lambda>rule. render (VDict rule)) (map (\<lambda>r. encode_part (narrow r)) rs) = Inr txts"
    using render_parts by blast
  then have txts: "res_mapM render ?parts = Inr txts"
    by (simp add: res_mapM_map)
  have len: "length txts = length rs" using list_all2_lengthD [OF res_mapM_Inr_D [OF txts]] by simp
  obtain a w where a: "perform env (RevokeSecurityGroupIngress (resource_id p) ?parts) (ext s) = (a, w)" by force
  have rev: "dict_get (snapshot p) ''ip_permissions_revoked'' (VList []) = VList ?parts"
    by (simp add: dict_get_def assms(1))
  have run: "sg_apply env p s =
      (case a of Inl e \<Rightarrow> (Inl e, [(RevokeSecurityGroupIngress (resource_id p) ?parts, a)], s\<lparr>ext := w\<rparr>)
       | Inr v \<Rightarrow> (Inr (map (\<lambda>r. ''revoked ingress '' @ r @ '' from '' @ resource_id p) txts),
                   [(RevokeSecurityGroupIngress (resource_id p) ?parts, a)], s\<lparr>ext := w\<rparr>))"
    using assms(2) unfolding sg_apply_def rev Let_def
    by (simp add: txts) (simp add: bind_def do_call_def a ret_def split: sum.split)
  then show ?thesis using assms(3) len by (cases a) auto
qed

lemma sg_apply_once_witness:
  "\<exists>a. events (sg_apply sample_ec2 \<lparr>resource_id = ''sg-1'', resource_arn = ''arn'', reason = ''r'',
        plan_severity = HIGH,
        snapshot = [(''ip_permissions_revoked'', VList [VDict (encode_part (narrow ssh_ip_rule))])],
        tags = [], blast_radius = [], intended_actions = [''a'']\<rparr> \<lparr>ext = (), webhook_cache = None\<rparr>) =
      [(RevokeSecurityGroupIngress ''sg-1'' [VDict (encode_part (narrow ssh_ip_rule))], a)]"
proof -
  let ?p = "\<lparr>resource_id = ''sg-1'', resource_arn = ''arn'', reason = ''r'', plan_severity = HIGH,
        snapshot = [(''ip_permissions_revoked'', VList [VDict (encode_part (narrow ssh_ip_rule))])],
        tags = [], blast_radius = [], intended_actions = [''a'']\<rparr>"
  obtain r t s' where run: "sg_apply sample_ec2 ?p \<lparr>ext = (), webhook_cache = None\<rparr> = (r, t, s')"
    using prod_cases3 by blast
  from sg_apply_once [of ?p "[ssh_ip_rule]", OF _ _ run] show ?thesis by (auto simp: run)
qed

end
