(* ===== verification/Converge.thy ===== *)
theory Converge
  imports SgRules S3Public IamKeyLeak
begin

text \<open>
  Convergence. An event can be delivered twice, and an alert that could not be sent makes Lambda
  retry an invocation that has already changed the resource. In each detection, once the change is
  in place, planning again finds nothing to do. How AWS answers after the change is a second
  environment \<open>env'\<close>, with the hypothesis that a read returns what the write put there.
\<close>

subsection \<open>Security groups\<close>

lemma after_revocation_safe: "\<not> dangerous (after_revocation r)"
proof (cases "dangerous r")
  case True
  then show ?thesis by (simp add: dangerous_iff world_after)
next
  case False
  then show ?thesis by (simp add: after_revocation_def)
qed


definition closed_group :: pydict where
  "closed_group = [(''GroupName'', VStr ''web''), (''Tags'', VList []),
     (''IpPermissions'', VList (map encode_rule [after_revocation ssh_ip_rule, after_revocation https_ip_rule]))]"

definition closed_ec2 :: "unit env" where
  "closed_ec2 = \<lparr>
     perform = (\<lambda>c w. (Inr (VDict [(''SecurityGroups'', VList [VDict closed_group])]), w)),
     clock_now = (\<lambda>w. (undefined, w))\<rparr>"


subsection \<open>Buckets\<close>

lemma full_block_complete: "block_is_complete (VDict full_block_public_access) = Inr True"
  by code_simp

lemma s3_decide_complete:
  "s3_decide ev b acl pol blk tgs = Inr q \<Longrightarrow> block_is_complete blk = Inr True \<Longrightarrow> q = None"
  by (auto simp: s3_decide_def Let_def res_bind_Inr_iff split: if_splits)

lemma safe_get_value:
  assumes "safe (call_get env c k dflt) d s = (Inr v, t, s')" and "\<And>w. fst (perform env c w) = Inr x"
    and "py_get x k dflt = Inr y"
  shows "v = y"
proof -
  obtain w where "perform env c (ext s) = (Inr x, w)"
    using assms(2) [of "ext s"] by (metis prod.collapse)
  then show ?thesis
    using assms(1,3) by (simp add: safe_def call_get_def try_except_def bind_def do_call_def lift_def)
qed

text \<open>
  C13: the handler converges on a bucket: after a successful apply, as long as reading Block Public
  Access returns the configuration apply wrote, a later run plans nothing, whatever ACL and policy say.
\<close>

theorem s3_retry_noop:
  assumes "s3_apply env p s1 = (Inr acts, t1, s2)"
    and "\<And>blk v w. (PutPublicAccessBlock (resource_id p) blk, Inr v) \<in> set t1 \<Longrightarrow>
           fst (perform env' (GetPublicAccessBlock (resource_id p)) w) =
             Inr (VDict [(''PublicAccessBlockConfiguration'', VDict blk)])"
    and "text_field (request_parameters ev) ''bucketName'' = resource_id p"
    and "s3_plan env' ev s3 = (Inr q, t3, s4)"
  shows "q = None"
proof -
  have "\<exists>v. (PutPublicAccessBlock (resource_id p) full_block_public_access, Inr v) \<in> set t1"
    using assms(1) unfolding s3_apply_def Let_def by (auto elim!: bindE do_callE)
  then obtain v where "(PutPublicAccessBlock (resource_id p) full_block_public_access, Inr v) \<in> set t1" ..
  from assms(2) [OF this]
  have answer: "fst (perform env' (GetPublicAccessBlock (resource_id p)) w) =
      Inr (VDict [(''PublicAccessBlockConfiguration'', VDict full_block_public_access)])" for w .
  have conf: "py_get (VDict [(''PublicAccessBlockConfiguration'', VDict full_block_public_access)])
      ''PublicAccessBlockConfiguration'' (VDict []) = Inr (VDict full_block_public_access)"
    by (simp add: dict_get_def)
  show ?thesis
    using assms(4) unfolding s3_plan_def Let_def assms(3)
    by (auto elim!: bindE simp: lift_def ret_def split: if_splits
        dest!: safe_get_value [OF _ answer conf] s3_decide_complete [OF _ full_block_complete])
qed

text \<open>A bucket that anyone may read, in an account where the block has just been turned on.\<close>

definition blocked_s3 :: "unit env" where
  "blocked_s3 = s3_env (\<lambda>c. case c of
       GetBucketAcl _ \<Rightarrow> Inr open_acl
     | GetPublicAccessBlock _ \<Rightarrow>
         Inr (VDict [(''PublicAccessBlockConfiguration'', VDict full_block_public_access)])
     | _ \<Rightarrow> Inr (VDict []))"

theorem s3_retry_noop_witness:
  "result (s3_plan blocked_s3 sample_bucket_event \<lparr>ext = (), webhook_cache = None\<rparr>) = Inr None \<and>
   public_acl_grants open_acl = Inr [''AllUsers:READ'']"
proof -
  let ?s = "\<lparr>ext = (), webhook_cache = None\<rparr> :: unit st"
  have grants: "public_acl_grants (dict_get (snapshot sample_bucket_plan) ''acl'' (VDict [])) = Inr [''AllUsers:READ'']"
    using open_acl_grants by (simp add: sample_bucket_plan_def dict_get_def)
  obtain acts t1 s2 where app: "s3_apply blocked_s3 sample_bucket_plan ?s = (Inr acts, t1, s2)"
    and t1: "map fst t1 = [PutPublicAccessBlock ''b'' full_block_public_access, PutBucketAcl ''b'' ''private'']"
    by (simp add: s3_apply_def Let_def grants bind_def do_call_def blocked_s3_def s3_env_def lift_def ret_def)
       (simp add: sample_bucket_plan_def)
  have bucket: "text_field (request_parameters sample_bucket_event) ''bucketName'' = ''b''" by code_simp
  have "s3_decide sample_bucket_event ''b'' open_acl VNone (VDict full_block_public_access) [] = Inr None" by code_simp
  then have "\<exists>q t3 s4. s3_plan blocked_s3 sample_bucket_event ?s = (Inr q, t3, s4)"
    unfolding s3_plan_def bucket Let_def
    by (simp add: bind_def safe_def try_except_def do_call_def blocked_s3_def s3_env_def load_policy_def
        load_tags_def call_get_def ret_def lift_def dict_get_def)
  then obtain q t3 s4 where run: "s3_plan blocked_s3 sample_bucket_event ?s = (Inr q, t3, s4)" by blast
  have b: "text_field (request_parameters sample_bucket_event) ''bucketName'' = resource_id sample_bucket_plan"
    by code_simp
  have "fst (perform blocked_s3 (GetPublicAccessBlock (resource_id sample_bucket_plan)) w) =
      Inr (VDict [(''PublicAccessBlockConfiguration'', VDict blk)])"
    if "(PutPublicAccessBlock (resource_id sample_bucket_plan) blk, Inr v) \<in> set t1" for blk v w
  proof -
    have "PutPublicAccessBlock (resource_id sample_bucket_plan) blk \<in> set (map fst t1)"
      using that by force
    then have "blk = full_block_public_access" unfolding t1 by simp
    then show ?thesis by (simp add: blocked_s3_def s3_env_def)
  qed
  from s3_retry_noop [OF app this b run] show ?thesis by (simp add: run open_acl_grants)
qed

subsection \<open>Access keys\<close>

text \<open>The listing shows the key, each time with this status.\<close>

definition entry_of_key :: "string \<Rightarrow> pyval \<Rightarrow> bool" where
  "entry_of_key k e \<longleftrightarrow> is_mapping e \<and> dict_get (as_dict e) ''AccessKeyId'' VNone = VStr k"

definition key_listed :: "string \<Rightarrow> string \<Rightarrow> pyval \<Rightarrow> bool" where
  "key_listed k st response \<longleftrightarrow>
     (\<exists>d entries. response = VDict d \<and> dict_get d ''AccessKeyMetadata'' (VList []) = VList entries \<and>
        (\<exists>e\<in>set entries. entry_of_key k e) \<and>
        (\<forall>e\<in>set entries. entry_of_key k e \<longrightarrow> dict_get (as_dict e) ''Status'' VNone = VStr st))"

lemma key_metadata_status:
  assumes "key_metadata env u k s = (Inr meta, t, s')"
    and "fst (perform env (ListAccessKeys u) (ext s)) = Inr response" and "key_listed k st response"
  shows "dict_get meta ''Status'' VNone = VStr st"
proof -
  obtain d entries where r: "response = VDict d" "dict_get d ''AccessKeyMetadata'' (VList []) = VList entries"
    and some: "\<exists>e\<in>set entries. entry_of_key k e"
    and st: "\<forall>e\<in>set entries. entry_of_key k e \<longrightarrow> dict_get (as_dict e) ''Status'' VNone = VStr st"
    using assms(3) by (auto simp: key_listed_def)
  obtain w where p: "perform env (ListAccessKeys u) (ext s) = (Inr (VDict d), w)"
    using assms(2) r(1) by (metis prod.collapse)
  obtain e where e: "find (\<lambda>e. is_mapping e \<and> dict_get (as_dict e) ''AccessKeyId'' VNone = VStr k) entries = Some e"
    using some by (cases "find (entry_of_key k) entries") (auto simp: find_None_iff entry_of_key_def [abs_def])
  then have "e \<in> set entries" and "entry_of_key k e"
    by (auto simp: find_Some_iff entry_of_key_def)
  moreover have "meta = as_dict e"
    using assms(1) some by (auto simp: key_metadata_def bind_do_call(1) [OF p] r py_or_def e ret_def split: if_splits)
  ultimately show ?thesis using st by blast
qed

lemma iam_plan_inactive:
  assumes "iam_plan env ev s = (Inr q, t, s')"
    and "text_field (key_details ev) ''userType'' = ''IAMUser''" and "text_field (key_details ev) ''userName'' = u"
    and "u \<noteq> []"
    and "\<And>w. \<exists>response. fst (perform env (ListAccessKeys u) w) = Inr response \<and>
           key_listed (text_field (key_details ev) ''accessKeyId'') ''Inactive'' response"
  shows "q = None"
proof (rule ccontr)
  assume "q \<noteq> None"
  let ?k = "text_field (key_details ev) ''accessKeyId''"
  from \<open>q \<noteq> None\<close> assms(1) obtain meta t1 s1 s2 where
    "key_metadata env u ?k s1 = (Inr meta, t1, s2)" and "dict_get meta ''Status'' VNone \<noteq> VStr ''Inactive''"
    unfolding iam_plan_def Let_def assms(2,3)
    by (auto simp: assms(4) ret_def elim!: bindE split: if_splits)
  with key_metadata_status [OF this(1)] assms(5) show False by blast
qed

text \<open>
  C14: the handler converges on an access key: after a successful apply, as long as listing the
  user's keys shows the key with the status apply wrote, a later run on the same finding plans nothing.
\<close>

theorem iam_retry_noop:
  assumes "iam_plan env ev s0 = (Inr (Some p), t0, s0')" and "intended_actions p \<noteq> []"
    and "iam_apply env p s1 = (Inr acts, t1, s2)"
    and "\<And>u k st v w. (UpdateAccessKey u k st, Inr v) \<in> set t1 \<Longrightarrow>
           \<exists>response. fst (perform env' (ListAccessKeys u) w) = Inr response \<and> key_listed k st response"
    and "iam_plan env' ev s3 = (Inr q, t3, s4)"
  shows "q = None"
proof -
  let ?k = "text_field (key_details ev) ''accessKeyId''" and ?u = "text_field (key_details ev) ''userName''"
  from iam_plan_shape [OF assms(1)] assms(2) have user: "text_field (key_details ev) ''userType'' = ''IAMUser''" "?u \<noteq> []"
    and snap: "snapshot_text p ''user_name'' = Inr ?u" "snapshot_text p ''access_key_id'' = Inr ?k"
    by (auto simp: snapshot_text_def split: if_splits)
  have "\<exists>v. (UpdateAccessKey ?u ?k ''Inactive'', Inr v) \<in> set t1"
    using assms(3) unfolding iam_apply_def by (auto simp: snap elim!: bindE do_callE)
  then obtain v where "(UpdateAccessKey ?u ?k ''Inactive'', Inr v) \<in> set t1" ..
  from assms(4) [OF this] show ?thesis
    by (rule iam_plan_inactive [OF assms(5) user(1) refl user(2)])
qed

definition inactive_env :: "unit env" where
  "inactive_env = \<lparr>
     perform = (\<lambda>c w. (case c of
        ListAccessKeys _ \<Rightarrow> Inr (VDict [(''AccessKeyMetadata'', VList [VDict
          [(''AccessKeyId'', VStr ''AKIA1''), (''Status'', VStr ''Inactive'')]])])
      | _ \<Rightarrow> Inr (VDict []), w)),
     clock_now = (\<lambda>w. (undefined, w))\<rparr>"

theorem iam_retry_noop_witness:
  "result (iam_plan inactive_env (leaked_event ''IAMUser'') \<lparr>ext = (), webhook_cache = None\<rparr>) = Inr None \<and>
   (\<exists>p. result (iam_plan silent_env (leaked_event ''IAMUser'') \<lparr>ext = (), webhook_cache = None\<rparr>) = Inr (Some p))"
proof -
  let ?s = "\<lparr>ext = (), webhook_cache = None\<rparr> :: unit st"
  obtain p t0 s0 where
    first: "iam_plan silent_env (leaked_event ''IAMUser'') ?s = (Inr (Some p), t0, s0)"
    using iam_plan_runs(1) by blast
  have "intended_actions p \<noteq> []" and snap: "snapshot_text p ''user_name'' = Inr ''alice''"
    "snapshot_text p ''access_key_id'' = Inr ''AKIA1''"
    using iam_plan_shape [OF first] by (auto simp: leaked_fields snapshot_text_def)
  obtain acts t1 s2 where app: "iam_apply silent_env p ?s = (Inr acts, t1, s2)"
    and t1: "t1 = [(UpdateAccessKey ''alice'' ''AKIA1'' ''Inactive'', Inr (VDict []))]"
    by (simp add: iam_apply_def snap bind_def ret_def lift_def)
  obtain q t3 s4 where run: "iam_plan inactive_env (leaked_event ''IAMUser'') ?s = (Inr q, t3, s4)"
    using leaked_fields
    by (simp add: iam_plan_def Let_def bind_def last_used_def key_metadata_def user_tags_def try_except_def
      ret_def lift_def dict_get_def py_or_def do_call_def inactive_env_def)
  have "\<exists>response. fst (perform inactive_env (ListAccessKeys u) w) = Inr response \<and> key_listed k st response"
    if "(UpdateAccessKey u k st, Inr v) \<in> set t1" for u k st v w
    using that by (simp add: t1 inactive_env_def key_listed_def dict_get_def entry_of_key_def)
  from iam_retry_noop [OF first \<open>intended_actions p \<noteq> []\<close> app this run] first run show ?thesis by simp
qed

end
