(* ===== verification/TableKeys.thy ===== *)
theory TableKeys
  imports Entrypoint
begin

text \<open>
  The one DynamoDB table of the system holds audit records, breaker counters and alert claims. Here:
  no two of them share a key unless they are meant to, so no write touches another kind of item or
  the record of another event.
\<close>

lemma show_nat_inj: "show_nat m = show_nat n \<Longrightarrow> m = n"
  by (metis foldl_show_nat)

lemma show_nat_unsigned: "show_nat n \<noteq> CHR ''-'' # s"
  using show_nat_digits [of n] by (auto simp: is_digit_def)

lemma show_int_inj: "show_int i = show_int j \<longleftrightarrow> i = j"
  by (auto simp: show_int_def show_nat_unsigned show_nat_unsigned [symmetric] dest!: show_nat_inj split: if_splits)

text \<open>A text without \<open>#\<close> ends where the first \<open>#\<close> is.\<close>

lemma hash_split:
  assumes "CHR ''#'' \<notin> set a" and "CHR ''#'' \<notin> set b"
  shows "a @ CHR ''#'' # s = b @ CHR ''#'' # t \<longleftrightarrow> a = b \<and> s = t"
  using assms
proof (induction a arbitrary: b)
  case Nil
  then show ?case by (cases b) auto
next
  case (Cons c a)
  then show ?case by (cases b) auto
qed

text \<open>
  C32: the items of the table are kept apart. Two audit records share a key only if detection,
  resource, event time and event identifier are the same, two counters only for one detection and
  window, two claims only for one fingerprint, and no two of the three kinds ever share one. A
  detection identifier and an event time hold no \<open>#\<close>; a resource and an event identifier may.
\<close>

theorem table_keys_apart:
  assumes "CHR ''#'' \<notin> set det \<union> set det' \<union> set etime \<union> set etime'"
  shows "(audit_key det rid etime eid = audit_key det' rid' etime' eid' \<longleftrightarrow>
            det = det' \<and> rid = rid' \<and> etime = etime' \<and> eid = eid') \<and>
         (breaker_key det ws = breaker_key det' ws' \<longleftrightarrow> det = det' \<and> ws = ws') \<and>
         (pk_of (claim_item fp now window stamp) = pk_of (claim_item fp' now' window' stamp') \<longleftrightarrow> fp = fp') \<and>
         distinct [pk_of (audit_key det rid etime eid), pk_of (breaker_key det' ws), pk_of (claim_item fp now window stamp)]"
  using assms
  by (auto simp: audit_key_def breaker_key_def claim_item_def pk_of_def dict_get_def hash_split show_int_inj)

theorem table_keys_apart_witness:
  "audit_key ''sg-open'' ''sg-1'' ''1970-01-01T00:00:00Z'' ''e#1'' \<noteq> audit_key ''sg-open'' ''sg-1'' ''1970-01-01T00:00:00Z'' ''e#2''"
  using table_keys_apart [of "''sg-open''" "''sg-open''" "''1970-01-01T00:00:00Z''" "''1970-01-01T00:00:00Z''"
      "''sg-1''" "''e#1''" "''sg-1''" "''e#2''"] by simp

end
