(* ===== verification/Aws.thy ===== *)
theory Aws
  imports PyVal
begin

text \<open>
  \<open>remediations/common/aws.py\<close>: clients are created on first use and kept. The session is
  boto3: a parameter, functions on its own state \<open>'s\<close> that make a client, a resource or the table
  of a resource, of type \<open>'c\<close>, or raise. What is done with a client is a \<open>call\<close> of the theory Effects.
\<close>

record ('s, 'c) session =
  session_client :: "string \<Rightarrow> string option \<Rightarrow> 's \<Rightarrow> 'c res \<times> 's"
  session_resource :: "string \<Rightarrow> string option \<Rightarrow> 's \<Rightarrow> 'c res \<times> 's"
  resource_table :: "'c \<Rightarrow> string \<Rightarrow> 's \<Rightarrow> 'c res \<times> 's"

record 'c aws_clients =
  region_name :: "string option"
  clients :: "string \<rightharpoonup> 'c"
  resources :: "string \<rightharpoonup> 'c"

definition new_clients :: "string option \<Rightarrow> 'c aws_clients" where
  "new_clients region = \<lparr>region_name = region, clients = Map.empty, resources = Map.empty\<rparr>"

definition aws_client ::
  "('s, 'c) session \<Rightarrow> string \<Rightarrow> 'c aws_clients \<times> 's \<Rightarrow> 'c res \<times> 'c aws_clients \<times> 's"
where
  "aws_client sess name st =
     (case st of (a, s) \<Rightarrow>
        (case clients a name of
           Some c \<Rightarrow> (Inr c, a, s)
         | None \<Rightarrow>
             (case session_client sess name (region_name a) s of
                (Inl e, s') \<Rightarrow> (Inl e, a, s')
              | (Inr c, s') \<Rightarrow> (Inr c, a\<lparr>clients := (clients a)(name \<mapsto> c)\<rparr>, s'))))"

definition aws_resource ::
  "('s, 'c) session \<Rightarrow> string \<Rightarrow> 'c aws_clients \<times> 's \<Rightarrow> 'c res \<times> 'c aws_clients \<times> 's"
where
  "aws_resource sess name st =
     (case st of (a, s) \<Rightarrow>
        (case resources a name of
           Some c \<Rightarrow> (Inr c, a, s)
         | None \<Rightarrow>
             (case session_resource sess name (region_name a) s of
                (Inl e, s') \<Rightarrow> (Inl e, a, s')
              | (Inr c, s') \<Rightarrow> (Inr c, a\<lparr>resources := (resources a)(name \<mapsto> c)\<rparr>, s'))))"

text \<open>The accessors the program uses; the clients have fixed names, the table is made anew.\<close>

definition aws_s3 :: "('s, 'c) session \<Rightarrow> 'c aws_clients \<times> 's \<Rightarrow> 'c res \<times> 'c aws_clients \<times> 's" where
  "aws_s3 sess = aws_client sess ''s3''"

definition aws_ec2 :: "('s, 'c) session \<Rightarrow> 'c aws_clients \<times> 's \<Rightarrow> 'c res \<times> 'c aws_clients \<times> 's" where
  "aws_ec2 sess = aws_client sess ''ec2''"

definition aws_iam :: "('s, 'c) session \<Rightarrow> 'c aws_clients \<times> 's \<Rightarrow> 'c res \<times> 'c aws_clients \<times> 's" where
  "aws_iam sess = aws_client sess ''iam''"

definition aws_secretsmanager ::
  "('s, 'c) session \<Rightarrow> 'c aws_clients \<times> 's \<Rightarrow> 'c res \<times> 'c aws_clients \<times> 's"
where
  "aws_secretsmanager sess = aws_client sess ''secretsmanager''"

definition aws_table ::
  "('s, 'c) session \<Rightarrow> string \<Rightarrow> 'c aws_clients \<times> 's \<Rightarrow> 'c res \<times> 'c aws_clients \<times> 's"
where
  "aws_table sess name st =
     (case aws_resource sess ''dynamodb'' st of
        (Inl e, a, s) \<Rightarrow> (Inl e, a, s)
      | (Inr r, a, s) \<Rightarrow> (case resource_table sess r name s of (x, s') \<Rightarrow> (x, a, s')))"

text \<open>A sequence of uses of clients, with the answers in order.\<close>

fun use_clients ::
  "('s, 'c) session \<Rightarrow> string list \<Rightarrow> 'c aws_clients \<times> 's \<Rightarrow> 'c res list \<times> 'c aws_clients \<times> 's"
where
  "use_clients sess [] st = ([], st)"
| "use_clients sess (n # ns) st =
     (case aws_client sess n st of (r, st1) \<Rightarrow>
        (case use_clients sess ns st1 of (rs, st2) \<Rightarrow> (r # rs, st2)))"

lemma aws_client_hit: "clients (fst st) n = Some c \<Longrightarrow> aws_client sess n st = (Inr c, st)"
  by (cases st) (simp add: aws_client_def)

lemma aws_client_stores: "aws_client sess n st = (Inr c, st') \<Longrightarrow> clients (fst st') n = Some c"
  by (auto simp: aws_client_def split: prod.splits option.splits sum.splits)

lemma aws_client_keeps: "clients (fst st) n = Some c \<Longrightarrow> aws_client sess m st = (r, st') \<Longrightarrow> clients (fst st') n = Some c"
  by (auto simp: aws_client_def split: prod.splits option.splits sum.splits)

lemma use_clients_keep:
  "clients (fst st) n = Some c \<Longrightarrow> use_clients sess ns st = (rs, st') \<Longrightarrow> clients (fst st') n = Some c"
proof (induction ns arbitrary: st rs)
  case (Cons m ns)
  then show ?case by (auto split: prod.splits dest: aws_client_keeps)
qed simp

text \<open>
  A client is made at most once: after one use of a name succeeded, and whatever other clients
  were used since, using it again gives the same client without asking the session.
\<close>

lemma client_made_once:
  assumes "aws_client sess n st = (Inr c, st1)" and "use_clients sess ns st1 = (rs, st2)"
  shows "aws_client sess n st2 = (Inr c, st2)"
  using use_clients_keep [OF aws_client_stores [OF assms(1)] assms(2)] by (rule aws_client_hit)

definition counting_session :: "(nat, nat) session" where
  "counting_session = \<lparr>session_client = (\<lambda>n r s. (Inr s, Suc s)), session_resource = (\<lambda>n r s. (Inr s, Suc s)),
     resource_table = (\<lambda>c n s. (Inr s, Suc s))\<rparr>"

lemma client_made_once_witness:
  "\<exists>st2. aws_client counting_session ''ec2'' st2 = (Inr 0, st2) \<and> snd st2 = 2"
proof -
  let ?st1 = "snd (aws_client counting_session ''ec2'' (new_clients None, 0))"
  have 1: "aws_client counting_session ''ec2'' (new_clients None, 0) = (Inr 0, ?st1)"
    by (simp add: aws_client_def new_clients_def counting_session_def)
  obtain rs st2 where 2: "use_clients counting_session [''ec2'', ''iam''] ?st1 = (rs, st2)"
    by (cases "use_clients counting_session [''ec2'', ''iam''] ?st1") simp
  have "snd st2 = 2"
    using 2 by (auto simp: aws_client_def new_clients_def counting_session_def)
  with client_made_once [OF 1 2] show ?thesis by blast
qed

text \<open>
  Tables: however often they are asked for, the DynamoDB resource behind them is made once.
\<close>

lemma table_resource_once:
  assumes "aws_table sess n st = (Inr c, st1)"
  shows "resources (fst st1) ''dynamodb'' \<noteq> None \<and>
         aws_resource sess ''dynamodb'' st1 = (Inr (the (resources (fst st1) ''dynamodb'')), st1)"
  using assms by (auto simp: aws_table_def aws_resource_def split: prod.splits option.splits sum.splits)

end
