(* ===== verification/PyFloat.thy ===== *)
theory PyFloat
  imports PyVal
begin

text \<open>
  Equality and \<open>float\<close> of Python values, as the pattern evaluator uses them. A double is held as
  an integer number of the smallest subnormal, \<open>2 ^ (- 1074)\<close>; \<open>float\<close> rounds to nearest,
  ties to even.
\<close>

subsection \<open>Doubles\<close>

datatype double = Fin int | Inf bool | NaN

definition one_units :: int where
  "one_units = 2 ^ 1074"

fun bits :: "nat \<Rightarrow> nat" where
  "bits n = (if n = 0 then 0 else Suc (bits (n div 2)))"

declare bits.simps [simp del]

text \<open>\<open>a * 2 ^ e\<close> and \<open>b\<close> over a common power of two, to compare and divide them.\<close>

definition scale :: "int \<Rightarrow> nat \<times> nat \<Rightarrow> nat \<times> nat" where
  "scale e ab = (if 0 \<le> e then (fst ab, snd ab * 2 ^ nat e) else (fst ab * 2 ^ nat (- e), snd ab))"

text \<open>The quotient rounded to nearest, ties to even.\<close>

definition round_div :: "nat \<Rightarrow> nat \<Rightarrow> nat" where
  "round_div a b =
     (let q = a div b; r = a mod b in if b < 2 * r \<or> (b = 2 * r \<and> odd q) then Suc q else q)"

text \<open>
  The double nearest to \<open>a / b\<close>: the exponent \<open>e\<close> leaves 53 bits, or fewer for a subnormal.
\<close>

definition ratio_exponent :: "nat \<Rightarrow> nat \<Rightarrow> int" where
  "ratio_exponent a b =
     (let k = int (bits a) - int (bits b);
          l = (if snd (scale k (a, b)) \<le> fst (scale k (a, b)) then k else k - 1)
      in max (- 1074) (l - 52))"

definition ratio_double :: "bool \<Rightarrow> nat \<Rightarrow> nat \<Rightarrow> double" where
  "ratio_double neg a b =
     (if a = 0 then Fin 0
      else
        let e = ratio_exponent a b;
            q = int (round_div (fst (scale e (a, b))) (snd (scale e (a, b)))) * 2 ^ nat (e + 1074)
        in if 2 ^ 2098 \<le> q then Inf neg else Fin (if neg then - q else q))"

definition dec_double :: "int \<Rightarrow> int \<Rightarrow> double" where
  "dec_double m e =
     (if 0 \<le> e then ratio_double (m < 0) (nat \<bar>m\<bar> * 10 ^ nat e) 1
      else ratio_double (m < 0) (nat \<bar>m\<bar>) (10 ^ nat (- e)))"

fun double_less :: "double \<Rightarrow> double \<Rightarrow> bool" where
  "double_less (Fin a) (Fin b) = (a < b)"
| "double_less (Fin a) (Inf neg) = (\<not> neg)"
| "double_less (Inf neg) (Fin b) = neg"
| "double_less (Inf neg) (Inf neg') = (neg \<and> \<not> neg')"
| "double_less NaN _ = False"
| "double_less _ NaN = False"

definition double_eq :: "double \<Rightarrow> double \<Rightarrow> bool" where
  "double_eq x y \<longleftrightarrow> x = y \<and> x \<noteq> NaN"

text \<open>Integers of at most 53 bits are doubles.\<close>

lemma bits_le: "n < 2 ^ k \<Longrightarrow> bits n \<le> k"
proof (induction k arbitrary: n)
  case 0
  then show ?case by (simp add: bits.simps)
next
  case (Suc k)
  then have "n div 2 < 2 ^ k" by (simp add: less_mult_imp_div_less mult.commute)
  then have "bits (n div 2) \<le> k" by (rule Suc.IH)
  then show ?case by (subst bits.simps) simp
qed

lemma round_div_1 [simp]: "round_div a 1 = a"
  by (simp add: round_div_def)

lemma bits_1 [simp]: "bits 1 = 1" "bits (Suc 0) = 1"
  by (simp_all add: bits.simps [of "Suc 0"] bits.simps [of 0])

lemma ratio_double_int:
  assumes "a < 2 ^ 53"
  shows "ratio_double neg a (Suc 0) = Fin ((if neg then - int a else int a) * one_units)"
proof (cases "a = 0")
  case True
  then show ?thesis by (simp add: ratio_double_def)
next
  case False
  define e where "e = ratio_exponent a 1"
  from bits_le [OF assms] have e: "- 1074 \<le> e" "e \<le> 0"
    unfolding e_def ratio_exponent_def Let_def by auto
  have sc: "scale e (a, 1) = (a * 2 ^ nat (- e), 1)" using e by (auto simp: scale_def)
  have "int (a * 2 ^ nat (- e)) * 2 ^ nat (e + 1074) = int a * 2 ^ (nat (- e) + nat (e + 1074))"
    by (simp add: power_add)
  also have "nat (- e) + nat (e + 1074) = 1074" using e by linarith
  finally have q: "int (a * 2 ^ nat (- e)) * 2 ^ nat (e + 1074) = int a * 2 ^ 1074" .
  have "int a < 2 ^ 53" using assms by (metis of_nat_less_iff of_nat_numeral of_nat_power)
  then have "int a * 2 ^ 1074 < 2 ^ 53 * 2 ^ 1074" by (rule mult_strict_right_mono) simp
  also have "(2::int) ^ 53 * 2 ^ 1074 = 2 ^ 1127" by (simp only: power_add [symmetric]) simp
  also have "(2::int) ^ 1127 < 2 ^ 2098" by (rule power_strict_increasing) simp_all
  finally have lt: "\<not> 2 ^ 2098 \<le> int a * (2::int) ^ 1074" by simp
  show ?thesis
    unfolding ratio_double_def Let_def e_def [symmetric, simplified] sc [simplified] one_units_def
    using False by (simp only: fst_conv snd_conv round_div_1 [simplified] q lt if_False) simp
qed

subsection \<open>float\<close>

text \<open>Digits with single underscores between them: their number and value.\<close>

fun digits_value :: "string \<Rightarrow> (nat \<times> nat) option" where
  "digits_value [] = None"
| "digits_value (c # s) =
     (if is_digit c
      then map_option (\<lambda>v. (length (filter is_digit (c # s)), v)) (digit_run 0 (c # s))
      else None)"

definition signed :: "string \<Rightarrow> bool \<times> string" where
  "signed s =
     (case s of
        [] \<Rightarrow> (False, [])
      | c # t \<Rightarrow> (if c = CHR ''-'' then (True, t) else if c = CHR ''+'' then (False, t) else (False, s)))"

text \<open>The exponent part of a literal, if there is one: \<open>e\<close>, a sign and digits.\<close>

definition literal_exponent :: "(string \<times> string) option \<Rightarrow> int option" where
  "literal_exponent x =
     (case x of
        None \<Rightarrow> Some 0
      | Some (_, t) \<Rightarrow>
          (case signed t of
             (neg, ds) \<Rightarrow> map_option (\<lambda>(n, v). if neg then - int v else int v) (digits_value ds)))"

text \<open>
  The digits of a literal, before and after its point: one of the two may be empty. The result
  is the integer they spell and how many are after the point.
\<close>

definition literal_digits :: "string \<Rightarrow> (nat \<times> nat) option" where
  "literal_digits s =
     (case split_once ''.'' s of
        None \<Rightarrow> map_option (\<lambda>(n, v). (v, 0)) (digits_value s)
      | Some (i, f) \<Rightarrow>
          if i = [] then map_option (\<lambda>(n, v). (v, n)) (digits_value f)
          else if f = [] then map_option (\<lambda>(n, v). (v, 0)) (digits_value i)
          else case (digits_value i, digits_value f) of
                 (Some (_, v), Some (n, w)) \<Rightarrow> Some (v * 10 ^ n + w, n)
               | _ \<Rightarrow> None)"

definition parse_float :: "string \<Rightarrow> double option" where
  "parse_float s =
     (case signed (map lower_char (strip s)) of
        (neg, body) \<Rightarrow>
          if body \<in> {''inf'', ''infinity''} then Some (Inf neg)
          else if body = ''nan'' then Some NaN
          else
            let ex = split_once ''e'' body;
                mantissa = (case ex of None \<Rightarrow> body | Some (a, _) \<Rightarrow> a)
            in case (literal_digits mantissa, literal_exponent ex) of
                 (Some (v, n), Some e) \<Rightarrow>
                   Some (dec_double (if neg then - int v else int v) (e - int n))
               | _ \<Rightarrow> None)"

fun py_float :: "pyval \<Rightarrow> double res" where
  "py_float (VInt i) =
     (case ratio_double (i < 0) (nat \<bar>i\<bar>) 1 of
        Fin q \<Rightarrow> Inr (Fin q)
      | _ \<Rightarrow> Inl (External ''OverflowError'' ''int too large to convert to float'' None))"
| "py_float (VBool b) = Inr (Fin (if b then one_units else 0))"
| "py_float (VFloat m e) = Inr (dec_double m e)"
| "py_float (VStr s) =
     (case parse_float s of
        None \<Rightarrow> Inl (ValueError (''could not convert string to float: '' @ repr_str s))
      | Some x \<Rightarrow> Inr x)"
| "py_float (VBytes s) =
     (case parse_float s of
        None \<Rightarrow> Inl (ValueError (''could not convert string to float: b'' @ repr_str s))
      | Some x \<Rightarrow> Inr x)"
| "py_float x = Inl (TypeError (''float() argument must be a string or a real number, not ''
       @ quoted (type_name x)))"

lemma py_float_int:
  assumes "\<bar>i\<bar> < 2 ^ 53"
  shows "py_float (VInt i) = Inr (Fin (i * one_units))"
proof -
  have "nat \<bar>i\<bar> < 2 ^ 53" using assms by (simp add: nat_less_iff)
  then have "ratio_double (i < 0) (nat \<bar>i\<bar>) (Suc 0) = Fin (i * one_units)"
    by (subst ratio_double_int) (auto simp: abs_if)
  then show ?thesis by simp
qed

subsection \<open>Equality\<close>

text \<open>
  \<open>a == b\<close>: numbers of all types are compared by value, lists elementwise, dicts as maps;
  any other object is equal to itself only.
\<close>

fun exact_number :: "pyval \<Rightarrow> double option" where
  "exact_number (VInt i) = Some (Fin (i * one_units))"
| "exact_number (VBool b) = Some (Fin (if b then one_units else 0))"
| "exact_number (VFloat m e) = Some (dec_double m e)"
| "exact_number _ = None"

lemma size_zip_left [termination_simp]:
  "(x, y) \<in> set (zip xs ys) \<Longrightarrow> size x < Suc (size_list size xs)"
  by (meson le_imp_less_Suc set_zip_leftD size_list_estimation' order_refl)

fun py_eq :: "pyval \<Rightarrow> pyval \<Rightarrow> bool" where
  "py_eq (VList xs) w =
     (case w of
        VList ys \<Rightarrow> length xs = length ys \<and> list_all (\<lambda>(x, y). py_eq x y) (zip xs ys)
      | _ \<Rightarrow> False)"
| "py_eq (VDict d) w =
     (case w of
        VDict d' \<Rightarrow>
          length d = length d' \<and>
          list_all (\<lambda>(k, x). case map_of d' k of None \<Rightarrow> False | Some y \<Rightarrow> py_eq x y) d
      | _ \<Rightarrow> False)"
| "py_eq v w =
     (case exact_number v of
        None \<Rightarrow> v = w
      | Some x \<Rightarrow> exact_number w = Some x)"

end
