(* ===== verification/EventPatterns.thy ===== *)
theory EventPatterns
  imports PyFloat Events
begin

text \<open>
  \<open>tests/support/eventbridge.py\<close>, the repository's evaluator of the EventBridge pattern
  language, and the three patterns of \<open>detections/*/pattern.json\<close> that select the events the
  handlers are invoked with. Each pattern is shown equivalent to a description of the events it
  selects.
\<close>

subsection \<open>Wildcards\<close>

text \<open>
  \<open>fnmatch.fnmatchcase\<close>, on lists of code points: \<open>*\<close>, \<open>?\<close> and
  \<open>[...]\<close> with ranges and \<open>!\<close>. A bracket that is not closed stands for itself.
\<close>

fun class_items :: "string list \<Rightarrow> (string \<times> string) list" where
  "class_items (c # d # x # rest) =
     (if d = ''-'' then (c, x) # class_items rest else (c, c) # class_items (d # x # rest))"
| "class_items cs = map (\<lambda>c. (c, c)) cs"

definition class_match :: "string list \<Rightarrow> string \<Rightarrow> bool" where
  "class_match body c =
     (case body of
        b # cs \<Rightarrow>
          (if b = ''!'' then \<not> list_ex (\<lambda>(lo, hi). lo \<le> c \<and> c \<le> hi) (class_items cs)
           else list_ex (\<lambda>(lo, hi). lo \<le> c \<and> c \<le> hi) (class_items body))
      | [] \<Rightarrow> False)"

definition class_split :: "string list \<Rightarrow> (string list \<times> string list) option" where
  "class_split p =
     (let n = (if take 1 p = [''!''] then 1 else 0);
          n = (if take 1 (drop n p) = ['']''] then n + 1 else n);
          t = drop n p
      in if '']'' \<in> set t
         then Some (take n p @ takeWhile (\<lambda>c. c \<noteq> '']'') t, tl (dropWhile (\<lambda>c. c \<noteq> '']'') t))
         else None)"

lemma class_split_shorter: "class_split p = Some (body, rest) \<Longrightarrow> length rest \<le> length p"
  by (auto simp: class_split_def Let_def split: if_splits
      intro!: order_trans [OF diff_le_self] order_trans [OF length_dropWhile_le])

function glob :: "string list \<Rightarrow> string list \<Rightarrow> bool" where
  "glob [] s = (s = [])"
| "glob (p # ps) s =
     (if p = ''*'' then glob ps s \<or> (case s of [] \<Rightarrow> False | _ # t \<Rightarrow> glob (p # ps) t)
      else
        case s of
          [] \<Rightarrow> False
        | c # t \<Rightarrow>
            if p = ''?'' then glob ps t
            else if p = ''['' then
              (case class_split ps of
                 None \<Rightarrow> c = p \<and> glob ps t
               | Some (body, rest) \<Rightarrow> class_match body c \<and> glob rest t)
            else c = p \<and> glob ps t)"
  by pat_completeness auto
termination
  by (relation "measure (\<lambda>(p, s). length p + length s)") (auto dest: class_split_shorter)

definition fnmatchcase :: "string \<Rightarrow> string \<Rightarrow> bool" where
  "fnmatchcase s pat = glob (cp_list pat) (cp_list s)"

subsection \<open>Matchers\<close>

text \<open>\<open>any(...)\<close> over calls that may raise.\<close>

fun any_res :: "('a \<Rightarrow> bool res) \<Rightarrow> 'a list \<Rightarrow> bool res" where
  "any_res f [] = Inr False"
| "any_res f (x # xs) = res_bind (f x) (\<lambda>b. if b then Inr True else any_res f xs)"

lemma any_res_cong [fundef_cong]:
  "xs = ys \<Longrightarrow> (\<And>x. x \<in> set ys \<Longrightarrow> f x = g x) \<Longrightarrow> any_res f xs = any_res g ys"
proof (induction ys arbitrary: xs)
  case (Cons y ys)
  have "f y = g y" by (rule Cons.prems(2)) simp
  moreover have "any_res f ys = any_res g ys" by (rule Cons.IH) (auto intro: Cons.prems(2))
  ultimately show ?case using Cons.prems(1) by (simp cong: if_cong)
qed simp

lemma any_res_Inr: "(\<And>x. x \<in> set xs \<Longrightarrow> f x = Inr (g x)) \<Longrightarrow> any_res f xs = Inr (list_ex g xs)"
  by (induction xs) auto

lemma any_res_map: "any_res f (map g xs) = any_res (\<lambda>x. f (g x)) xs"
  by (induction xs) (auto cong: if_cong)

definition supported_matchers :: "string list" where
  "supported_matchers =
     [''prefix'', ''suffix'', ''exists'', ''equals-ignore-case'', ''anything-but'', ''wildcard'', ''numeric'']"

fun numeric_holds :: "string \<Rightarrow> double \<Rightarrow> double \<Rightarrow> bool" where
  "numeric_holds operator number threshold =
     (if operator = ''='' then double_eq number threshold
      else if operator = ''<'' then double_less number threshold
      else if operator = ''<='' then double_less number threshold \<or> double_eq number threshold
      else if operator = ''>'' then double_less threshold number
      else double_less threshold number \<or> double_eq number threshold)"

fun numeric_pairs :: "pyval list \<Rightarrow> pyval \<Rightarrow> bool res" where
  "numeric_pairs (op # th # rest) actual =
     res_bind (py_float th) (\<lambda>threshold.
     res_bind (py_float actual) (\<lambda>number.
     let operator = py_str op in
     if operator \<notin> {''='', ''<'', ''<='', ''>'', ''>=''}
     then Inl (UnsupportedPatternError (''numeric operator '' @ repr_str operator @ '' is not implemented''))
     else if numeric_holds operator number threshold then numeric_pairs rest actual
     else Inr False))"
| "numeric_pairs _ actual = Inr True"

text \<open>An \<open>int\<close> or \<open>float\<close> that is no \<open>bool\<close>; an event holds no nan and no infinity.\<close>

fun is_number :: "pyval \<Rightarrow> bool" where
  "is_number (VInt _) = True"
| "is_number (VFloat _ _) = True"
| "is_number _ = False"

definition numeric_match :: "pyval \<Rightarrow> pyval \<Rightarrow> bool res" where
  "numeric_match argument actual =
     (case argument of
        VList xs \<Rightarrow>
          (if odd (length xs) then Inl (UnsupportedPatternError ''numeric takes [op, value] pairs'')
           else if \<not> is_number actual then Inr False
           else numeric_pairs xs actual)
      | _ \<Rightarrow> Inl (UnsupportedPatternError ''numeric takes [op, value] pairs''))"

text \<open>
  Case is folded as \<open>lower\<close> of the theory PyStr does it, for letters in ASCII; no pattern of the
  repository uses that matcher.
\<close>

definition match_scalar :: "string \<Rightarrow> pyval \<Rightarrow> pyval \<Rightarrow> bool res" where
  "match_scalar name argument actual =
     (let text_match = (\<lambda>f. Inr (case actual of VStr s \<Rightarrow> f s | _ \<Rightarrow> False)) in
      if name = ''prefix'' then text_match (\<lambda>s. startswith s (py_str argument))
      else if name = ''suffix'' then text_match (\<lambda>s. endswith s (py_str argument))
      else if name = ''equals-ignore-case'' then text_match (\<lambda>s. lower s = lower (py_str argument))
      else if name = ''wildcard'' then text_match (\<lambda>s. fnmatchcase s (py_str argument))
      else if name = ''numeric'' then numeric_match argument actual
      else Inl (UnsupportedPatternError (''matcher '' @ repr_str name @ '' is not implemented'')))"

text \<open>A missing value is \<open>None\<close>. A matcher may hold another one under \<open>anything-but\<close>.\<close>

fun match_matcher_object :: "pydict \<Rightarrow> pyval option \<Rightarrow> bool res"
  and anything_but :: "pyval \<Rightarrow> pyval \<Rightarrow> bool res"
where
  "match_matcher_object matcher actual =
     (case matcher of
        [(name, argument)] \<Rightarrow>
          if name \<notin> set supported_matchers
          then Inl (UnsupportedPatternError (''matcher '' @ repr_str name @ '' is not implemented''))
          else if name = ''exists'' then
            (case argument of
               VBool b \<Rightarrow> Inr ((actual \<noteq> None) = b)
             | _ \<Rightarrow> Inl (UnsupportedPatternError ''exists takes a boolean''))
          else
            (case actual of
               None \<Rightarrow> Inr False
             | Some v \<Rightarrow>
                 if name = ''anything-but'' then res_bind (anything_but argument v) (\<lambda>b. Inr (\<not> b))
                 else case v of
                        VList items \<Rightarrow> any_res (match_scalar name argument) items
                      | _ \<Rightarrow> match_scalar name argument v)
      | _ \<Rightarrow> Inl (UnsupportedPatternError
               (''matcher object must have exactly one key: '' @ py_repr (VDict matcher))))"
| "anything_but argument actual =
     (case argument of
        VDict matcher \<Rightarrow> match_matcher_object matcher (Some actual)
      | VList items \<Rightarrow> Inr (list_ex (\<lambda>item. py_eq item actual) items)
      | _ \<Rightarrow> Inr (py_eq argument actual))"

declare match_matcher_object.simps [simp del] anything_but.simps [simp del]

definition match_one :: "pyval \<Rightarrow> pyval option \<Rightarrow> bool res" where
  "match_one matcher actual =
     (case matcher of
        VDict m \<Rightarrow> match_matcher_object m actual
      | _ \<Rightarrow>
          (case actual of
             None \<Rightarrow> Inr False
           | Some (VList items) \<Rightarrow> Inr (list_ex (\<lambda>item. py_eq item matcher) items)
           | Some v \<Rightarrow> Inr (py_eq v matcher)))"

definition match_leaf :: "pyval list \<Rightarrow> pyval option \<Rightarrow> bool res" where
  "match_leaf matchers actual = any_res (\<lambda>m. match_one m actual) matchers"

subsection \<open>Patterns\<close>

lemma size_in_list: "x \<in> set xs \<Longrightarrow> size x < Suc (size_list size xs)"
  by (simp add: le_imp_less_Suc size_list_estimation')

text \<open>
  \<open>match_items\<close> is the loop of \<open>_match_object\<close> over the keys of the pattern. What
  \<open>$or\<close> holds is a list; a \<open>bytes\<close> is a sequence too, but its items are not patterns.
\<close>

function match_object :: "pyval \<Rightarrow> pyval \<Rightarrow> bool res"
  and match_items :: "pydict \<Rightarrow> pydict \<Rightarrow> bool res"
  and match_nested :: "pydict \<Rightarrow> pyval \<Rightarrow> bool res"
where
  "match_object pat v =
     (case v of
        VDict d \<Rightarrow>
          (case pat of
             VDict ps \<Rightarrow> match_items ps d
           | _ \<Rightarrow> Inl (AttributeError (quoted (type_name pat) @ '' object has no attribute '' @ quoted ''items'')))
      | _ \<Rightarrow> Inr False)"
| "match_items [] d = Inr True"
| "match_items ((k, sub) # ps) d =
     (if k = ''$or'' then
        (case sub of
           VList branches \<Rightarrow>
             res_bind (any_res (\<lambda>b. match_object b (VDict d)) branches) (\<lambda>ok.
             if ok then match_items ps d else Inr False)
         | VBytes s \<Rightarrow>
             (if s = [] then Inr False
              else Inl (AttributeError (quoted ''int'' @ '' object has no attribute '' @ quoted ''items'')))
         | _ \<Rightarrow> Inl (UnsupportedPatternError ''$or takes a list of patterns''))
      else
        (case sub of
           VDict q \<Rightarrow>
             (case map_of d k of
                None \<Rightarrow> Inr False
              | Some a \<Rightarrow>
                  res_bind (match_nested q a) (\<lambda>ok. if ok then match_items ps d else Inr False))
         | VList matchers \<Rightarrow>
             res_bind (match_leaf matchers (map_of d k)) (\<lambda>ok.
             if ok then match_items ps d else Inr False)
         | _ \<Rightarrow> Inl (UnsupportedPatternError
                  (''pattern value for '' @ repr_str k @ '' must be a list or an object, got '' @ type_name sub))))"
| "match_nested q a =
     (case a of
        VList items \<Rightarrow> any_res (\<lambda>item. match_nested q item) items
      | _ \<Rightarrow> match_object (VDict q) a)"
  by pat_completeness auto
termination
  by (relation "measures
        [\<lambda>x. case x of Inl (p, v) \<Rightarrow> size p | Inr (Inl (ps, d)) \<Rightarrow> size (VDict ps)
               | Inr (Inr (q, a)) \<Rightarrow> size (VDict q),
         \<lambda>x. case x of Inl (p, v) \<Rightarrow> size v | Inr (Inl (ps, d)) \<Rightarrow> size (VDict d) | Inr (Inr (q, a)) \<Rightarrow> size a,
         \<lambda>x. case x of Inl _ \<Rightarrow> 1 | Inr (Inl _) \<Rightarrow> 0 | Inr (Inr _) \<Rightarrow> 2]")
     (auto dest!: size_in_list)

declare match_object.simps [simp del] match_nested.simps [simp del]

definition matches :: "pydict \<Rightarrow> pyval \<Rightarrow> bool res" where
  "matches pat event = match_object (VDict pat) event"

subsection \<open>The three patterns\<close>

definition sg_pattern :: pydict where
  "sg_pattern =
    [(''source'', VList [VStr ''aws.ec2'']),
     (''detail-type'', VList [VStr ''AWS API Call via CloudTrail'']),
     (''detail'', VDict [
        (''eventSource'', VList [VStr ''ec2.amazonaws.com'']),
        (''eventName'', VList [VStr ''AuthorizeSecurityGroupIngress'']),
        (''errorCode'', VList [VDict [(''exists'', VBool False)]])]),
     (''$or'', VList [
        VDict [(''detail'', VDict [(''requestParameters'', VDict [(''ipPermissions'', VDict [(''items'',
          VDict [(''ipRanges'', VDict [(''items'', VDict [(''cidrIp'', VList [VStr ''0.0.0.0/0''])])])])])])])],
        VDict [(''detail'', VDict [(''requestParameters'', VDict [(''ipPermissions'', VDict [(''items'',
          VDict [(''ipv6Ranges'', VDict [(''items'', VDict [(''cidrIpv6'', VList [VStr ''::/0''])])])])])])])],
        VDict [(''detail'', VDict [(''requestParameters'', VDict [(''cidrIp'', VList [VStr ''0.0.0.0/0''])])])],
        VDict [(''detail'', VDict [(''requestParameters'', VDict [(''cidrIpv6'', VList [VStr ''::/0''])])])]])]"

definition s3_pattern :: pydict where
  "s3_pattern =
    [(''source'', VList [VStr ''aws.s3'']),
     (''detail-type'', VList [VStr ''AWS API Call via CloudTrail'']),
     (''detail'', VDict [
        (''eventSource'', VList [VStr ''s3.amazonaws.com'']),
        (''eventName'', VList [
           VStr ''PutBucketAcl'',
           VStr ''PutBucketPolicy'',
           VStr ''PutBucketPublicAccessBlock'',
           VStr ''DeleteBucketPublicAccessBlock'']),
        (''errorCode'', VList [VDict [(''exists'', VBool False)]])])]"

definition iam_pattern :: pydict where
  "iam_pattern =
    [(''source'', VList [VStr ''aws.guardduty'']),
     (''detail-type'', VList [VStr ''GuardDuty Finding'']),
     (''detail'', VDict [
        (''type'', VList [
           VDict [(''prefix'', VStr ''UnauthorizedAccess:IAMUser/'')],
           VDict [(''prefix'', VStr ''CredentialAccess:IAMUser/'')],
           VDict [(''prefix'', VStr ''Impact:IAMUser/'')],
           VDict [(''prefix'', VStr ''PenTest:IAMUser/'')]]),
        (''severity'', VList [VDict [(''numeric'', VList [VStr ''>='', VInt 4])]]),
        (''resource'', VDict [
           (''resourceType'', VList [VStr ''AccessKey''])])])]"

subsection \<open>What they select\<close>

text \<open>
  The value of a key, an array standing for each of its elements: \<open>holds P\<close> asks for a leaf,
  \<open>inside P\<close> for a nested object.
\<close>

fun leaves :: "pyval option \<Rightarrow> pyval list" where
  "leaves None = []"
| "leaves (Some (VList items)) = items"
| "leaves (Some v) = [v]"

definition holds :: "(pyval \<Rightarrow> bool) \<Rightarrow> pyval option \<Rightarrow> bool" where
  "holds P v \<longleftrightarrow> list_ex P (leaves v)"

fun inside :: "(pydict \<Rightarrow> bool) \<Rightarrow> pyval \<Rightarrow> bool" where
  "inside P (VDict d) = P d"
| "inside P (VList items) = list_ex (inside P) items"
| "inside P _ = False"

definition under :: "string \<Rightarrow> (pydict \<Rightarrow> bool) \<Rightarrow> pydict \<Rightarrow> bool" where
  "under k P d \<longleftrightarrow> (case map_of d k of None \<Rightarrow> False | Some v \<Rightarrow> inside P v)"

definition is_text :: "string list \<Rightarrow> pyval \<Rightarrow> bool" where
  "is_text ss v \<longleftrightarrow> v \<in> set (map VStr ss)"

definition has_text :: "string \<Rightarrow> string list \<Rightarrow> pydict \<Rightarrow> bool" where
  "has_text k ss d \<longleftrightarrow> holds (is_text ss) (map_of d k)"

text \<open>The text \<open>s\<close> is reached from \<open>d\<close> along a path of keys.\<close>

fun reaches :: "string list \<Rightarrow> string \<Rightarrow> pydict \<Rightarrow> bool" where
  "reaches [] s d = False"
| "reaches [k] s d = has_text k [s] d"
| "reaches (k # k' # ks) s d = under k (reaches (k' # ks) s) d"

definition world_paths :: "(string list \<times> string) list" where
  "world_paths =
     [([''detail'', ''requestParameters'', ''ipPermissions'', ''items'', ''ipRanges'', ''items'', ''cidrIp''],
       ''0.0.0.0/0''),
      ([''detail'', ''requestParameters'', ''ipPermissions'', ''items'', ''ipv6Ranges'', ''items'', ''cidrIpv6''],
       ''::/0''),
      ([''detail'', ''requestParameters'', ''cidrIp''], ''0.0.0.0/0''),
      ([''detail'', ''requestParameters'', ''cidrIpv6''], ''::/0'')]"

text \<open>A CloudTrail record of a call to \<open>service\<close> that succeeded.\<close>

definition succeeded_call :: "string \<Rightarrow> string list \<Rightarrow> pydict \<Rightarrow> bool" where
  "succeeded_call service names d \<longleftrightarrow>
     has_text ''eventSource'' [service] d \<and> has_text ''eventName'' names d \<and> map_of d ''errorCode'' = None"

definition cloudtrail_call :: "string \<Rightarrow> string \<Rightarrow> string list \<Rightarrow> pydict \<Rightarrow> bool" where
  "cloudtrail_call src service names ev \<longleftrightarrow>
     has_text ''source'' [src] ev \<and> has_text ''detail-type'' [''AWS API Call via CloudTrail''] ev \<and>
     under ''detail'' (succeeded_call service names) ev"

subsection \<open>Evaluation on these patterns\<close>

lemma py_eq_VStr: "py_eq v (VStr s) \<longleftrightarrow> v = VStr s"
  by (cases v) auto

lemma match_text: "match_one (VStr s) actual = Inr (holds (is_text [s]) actual)"
  by (cases actual rule: leaves.cases) (auto simp: match_one_def holds_def py_eq_VStr is_text_def list_ex_iff)

lemma holds_any: "holds (is_text ss) actual \<longleftrightarrow> (\<exists>s\<in>set ss. holds (is_text [s]) actual)"
  by (auto simp: holds_def list_ex_iff is_text_def)

lemma match_leaf_texts: "match_leaf (map VStr ss) actual = Inr (holds (is_text ss) actual)"
proof -
  have "any_res (\<lambda>s. match_one (VStr s) actual) ss = Inr (list_ex (\<lambda>s. holds (is_text [s]) actual) ss)"
    by (rule any_res_Inr) (rule match_text)
  then show ?thesis by (simp add: match_leaf_def any_res_map holds_any [of ss] list_ex_iff)
qed

lemma match_absent: "match_leaf [VDict [(''exists'', VBool False)]] actual = Inr (actual = None)"
  by (simp add: match_leaf_def match_one_def match_matcher_object.simps supported_matchers_def)

lemma match_nested_inside:
  assumes "\<And>d. match_items q d = Inr (P d)"
  shows "match_nested q a = Inr (inside P a)"
proof (induction a)
  case (VList items)
  then show ?case by (simp add: match_nested.simps any_res_Inr)
qed (simp_all add: match_nested.simps match_object.simps assms)

text \<open>One key of a pattern: a list of texts, an absence, or a nested object.\<close>

lemma match_items_texts:
  "k \<noteq> ''$or'' \<Longrightarrow> match_items ((k, VList (map VStr ss)) # ps) d =
     (if has_text k ss d then match_items ps d else Inr False)"
  by (simp add: match_leaf_texts has_text_def)

lemma match_items_absent:
  "k \<noteq> ''$or'' \<Longrightarrow> match_items ((k, VList [VDict [(''exists'', VBool False)]]) # ps) d =
     (if map_of d k = None then match_items ps d else Inr False)"
  by (simp add: match_absent)

lemma match_items_nested:
  assumes "k \<noteq> ''$or''" and "\<And>d. match_items q d = Inr (P d)"
  shows "match_items ((k, VDict q) # ps) d = (if under k P d then match_items ps d else Inr False)"
  using assms(1) by (simp add: match_nested_inside [OF assms(2)] under_def split: option.split)

lemma match_items_or:
  assumes "list_all2 (\<lambda>q P. \<forall>d. match_items q d = Inr (P d)) qs Ps"
  shows "match_items ((''$or'', VList (map VDict qs)) # ps) d =
           (if list_ex (\<lambda>P. P d) Ps then match_items ps d else Inr False)"
proof -
  have "any_res (\<lambda>b. match_object b (VDict d)) (map VDict qs) = Inr (list_ex (\<lambda>P. P d) Ps)"
    using assms by (induction rule: list_all2_induct) (simp_all add: match_object.simps)
  then show ?thesis by simp
qed

lemmas match_items_text = match_items_texts [of _ "[s]" for s, simplified list.map]

declare match_items.simps(2) [simp del]

text \<open>A pattern that only descends to a text.\<close>

fun path_pattern :: "string list \<Rightarrow> string \<Rightarrow> pydict" where
  "path_pattern [] s = []"
| "path_pattern [k] s = [(k, VList [VStr s])]"
| "path_pattern (k # k' # ks) s = [(k, VDict (path_pattern (k' # ks) s))]"

lemma match_path:
  "ks \<noteq> [] \<Longrightarrow> ''$or'' \<notin> set ks \<Longrightarrow> match_items (path_pattern ks s) d = Inr (reaches ks s d)"
proof (induction ks s arbitrary: d rule: path_pattern.induct)
  case (2 k s)
  then show ?case by (auto simp: match_items_text)
next
  case (3 k k' ks s)
  then have "match_items (path_pattern (k' # ks) s) d = Inr (reaches (k' # ks) s d)" for d by simp
  moreover have "k \<noteq> ''$or''" using "3.prems" by auto
  ultimately show ?case by (simp add: match_items_nested [where P = "reaches (k' # ks) s"])
qed simp

lemma match_succeeded:
  "match_items [(''eventSource'', VList [VStr service]), (''eventName'', VList (map VStr names)),
     (''errorCode'', VList [VDict [(''exists'', VBool False)]])] d = Inr (succeeded_call service names d)"
  by (simp add: match_items_text match_items_texts match_items_absent succeeded_call_def)

lemma match_cloudtrail:
  "match_items ([(''source'', VList [VStr src]), (''detail-type'', VList [VStr ''AWS API Call via CloudTrail'']),
     (''detail'', VDict
        [(''eventSource'', VList [VStr service]), (''eventName'', VList (map VStr names)),
         (''errorCode'', VList [VDict [(''exists'', VBool False)]])])] @ ps) d =
   (if cloudtrail_call src service names d then match_items ps d else Inr False)"
  by (simp add: match_items_text match_items_nested [OF _ match_succeeded] cloudtrail_call_def)

lemma sg_pattern_matches:
  "matches sg_pattern (VDict ev) =
     Inr (cloudtrail_call ''aws.ec2'' ''ec2.amazonaws.com'' [''AuthorizeSecurityGroupIngress''] ev \<and>
          (\<exists>(path, cidr) \<in> set world_paths. reaches path cidr ev))"
proof -
  have "match_items [(''$or'', VList (map VDict (map (\<lambda>(path, cidr). path_pattern path cidr) world_paths)))] ev =
      Inr (list_ex (\<lambda>P. P ev) (map (\<lambda>(path, cidr). reaches path cidr) world_paths))"
    by (subst match_items_or [where Ps = "map (\<lambda>(path, cidr). reaches path cidr) world_paths"])
       (simp_all add: world_paths_def match_path del: path_pattern.simps reaches.simps)
  then have any: "match_items [(''$or'', VList (map VDict (map (\<lambda>(path, cidr). path_pattern path cidr) world_paths)))] ev =
      Inr (\<exists>(path, cidr) \<in> set world_paths. reaches path cidr ev)"
    by (auto simp: list_ex_iff)
  have sg: "sg_pattern =
      [(''source'', VList [VStr ''aws.ec2'']), (''detail-type'', VList [VStr ''AWS API Call via CloudTrail'']),
       (''detail'', VDict
          [(''eventSource'', VList [VStr ''ec2.amazonaws.com'']),
           (''eventName'', VList (map VStr [''AuthorizeSecurityGroupIngress''])),
           (''errorCode'', VList [VDict [(''exists'', VBool False)]])])] @
      [(''$or'', VList (map VDict (map (\<lambda>(path, cidr). path_pattern path cidr) world_paths)))]"
    by (simp add: sg_pattern_def world_paths_def)
  have "matches sg_pattern (VDict ev) = match_items sg_pattern ev"
    by (simp add: matches_def match_object.simps)
  then show ?thesis unfolding sg match_cloudtrail any by simp
qed

text \<open>
  C23: the sg-open rule selects exactly the successful \<open>AuthorizeSecurityGroupIngress\<close> calls whose
  request names the whole internet, IPv4 or IPv6, along one of the four paths CloudTrail uses.
\<close>

theorem sg_pattern_selects:
  "matches sg_pattern (VDict ev) =
     Inr (cloudtrail_call ''aws.ec2'' ''ec2.amazonaws.com'' [''AuthorizeSecurityGroupIngress''] ev \<and>
          (\<exists>(path, cidr) \<in> set world_paths. reaches path cidr ev))"
  by (rule sg_pattern_matches)

text \<open>
  The two ways CloudTrail writes down the request: the permissions as nested lists of CIDRs, or one
  CIDR at the top, as the legacy parameters of the API have it.
\<close>

definition cloudtrail_items :: "pyval list \<Rightarrow> pyval" where
  "cloudtrail_items xs = VDict [(''items'', VList xs)]"

definition nested_permission :: "string list \<times> string list \<Rightarrow> pyval" where
  "nested_permission p = VDict
     [(''ipRanges'', cloudtrail_items (map (\<lambda>c. VDict [(''cidrIp'', VStr c)]) (fst p))),
      (''ipv6Ranges'', cloudtrail_items (map (\<lambda>c. VDict [(''cidrIpv6'', VStr c)]) (snd p)))]"

definition nested_request :: "string \<Rightarrow> (string list \<times> string list) list \<Rightarrow> pydict" where
  "nested_request g ps = [(''groupId'', VStr g), (''ipPermissions'', cloudtrail_items (map nested_permission ps))]"

definition legacy_request :: "string \<Rightarrow> string \<Rightarrow> string \<Rightarrow> pydict" where
  "legacy_request g k cidr = [(''groupId'', VStr g), (''ipProtocol'', VStr ''tcp''), (k, VStr cidr)]"

definition authorize_event :: "pydict \<Rightarrow> pydict" where
  "authorize_event request =
     [(''source'', VStr ''aws.ec2''), (''detail-type'', VStr ''AWS API Call via CloudTrail''),
      (''detail'', VDict
         [(''eventSource'', VStr ''ec2.amazonaws.com''), (''eventName'', VStr ''AuthorizeSecurityGroupIngress''),
          (''requestParameters'', VDict request)])]"

lemma has_text_single: "map_of d k = Some (VStr s) \<Longrightarrow> has_text k ss d \<longleftrightarrow> s \<in> set ss"
  by (auto simp: has_text_def holds_def is_text_def)

lemma has_text_absent: "map_of d k = None \<Longrightarrow> \<not> has_text k ss d"
  by (simp add: has_text_def holds_def)

lemma authorize_matches:
  "matches sg_pattern (VDict (authorize_event request)) =
     Inr (\<exists>(path, cidr) \<in> set world_paths. reaches (drop 2 path) cidr request)"
proof -
  have "cloudtrail_call ''aws.ec2'' ''ec2.amazonaws.com'' [''AuthorizeSecurityGroupIngress''] (authorize_event request)"
    by (simp add: cloudtrail_call_def succeeded_call_def under_def authorize_event_def has_text_single)
  then show ?thesis
    unfolding sg_pattern_matches by (simp add: world_paths_def authorize_event_def under_def)
qed


text \<open>
  The s3-public rule selects exactly the successful calls that change the ACL, the policy or the
  public access block of a bucket.
\<close>

lemma s3_pattern_selects:
  "matches s3_pattern (VDict ev) =
     Inr (cloudtrail_call ''aws.s3'' ''s3.amazonaws.com''
            [''PutBucketAcl'', ''PutBucketPolicy'', ''PutBucketPublicAccessBlock'',
             ''DeleteBucketPublicAccessBlock''] ev)"
  using match_cloudtrail [of "''aws.s3''" "''s3.amazonaws.com''"
      "[''PutBucketAcl'', ''PutBucketPolicy'', ''PutBucketPublicAccessBlock'',
        ''DeleteBucketPublicAccessBlock'']" "[]" ev]
  by (simp add: matches_def match_object.simps s3_pattern_def)

subsection \<open>GuardDuty findings\<close>

text \<open>The severity of a finding is a number of at least 4, a float compared as a double.\<close>

fun severe :: "pyval \<Rightarrow> bool" where
  "severe (VInt i) = (4 \<le> i)"
| "severe (VFloat m e) = (\<not> double_less (dec_double m e) (Fin (4 * one_units)))"
| "severe _ = False"

definition leaked_key_types :: "string list" where
  "leaked_key_types =
     [''UnauthorizedAccess:IAMUser/'', ''CredentialAccess:IAMUser/'', ''Impact:IAMUser/'', ''PenTest:IAMUser/'']"

definition begins_with :: "string list \<Rightarrow> pyval \<Rightarrow> bool" where
  "begins_with ps v \<longleftrightarrow> (case v of VStr s \<Rightarrow> list_ex (\<lambda>p. prefix p s) ps | _ \<Rightarrow> False)"

definition leaked_key_finding :: "pydict \<Rightarrow> bool" where
  "leaked_key_finding d \<longleftrightarrow>
     holds (begins_with leaked_key_types) (map_of d ''type'') \<and> holds severe (map_of d ''severity'') \<and>
     under ''resource'' (has_text ''resourceType'' [''AccessKey'']) d"

text \<open>Integers beyond 53 bits, which \<open>float\<close> rounds or refuses, are left out.\<close>

fun readable :: "pyval \<Rightarrow> bool" where
  "readable (VInt i) = (\<bar>i\<bar> < 2 ^ 53)"
| "readable _ = True"

lemma match_matcher_leaf:
  assumes "name \<notin> {''exists'', ''anything-but''}" and "name \<in> set supported_matchers"
    and "\<And>v. v \<in> set (leaves actual) \<Longrightarrow> match_scalar name argument v = Inr (P v)"
  shows "match_one (VDict [(name, argument)]) actual = Inr (holds P actual)"
  using assms
  by (cases actual rule: leaves.cases)
     (auto simp: match_one_def match_matcher_object.simps holds_def any_res_Inr)

lemma begins_with_any: "begins_with ps v \<longleftrightarrow> (\<exists>p\<in>set ps. begins_with [p] v)"
  by (cases v) (auto simp: begins_with_def list_ex_iff)

lemma match_prefixes:
  "match_leaf (map (\<lambda>p. VDict [(''prefix'', VStr p)]) ps) actual = Inr (holds (begins_with ps) actual)"
proof -
  have "match_one (VDict [(''prefix'', VStr p)]) actual = Inr (holds (begins_with [p]) actual)" for p
    by (rule match_matcher_leaf)
       (auto simp: supported_matchers_def match_scalar_def begins_with_def startswith_def split: pyval.splits)
  then have "any_res (\<lambda>p. match_one (VDict [(''prefix'', VStr p)]) actual) ps =
      Inr (list_ex (\<lambda>p. holds (begins_with [p]) actual) ps)" by (simp add: any_res_Inr)
  also have "list_ex (\<lambda>p. holds (begins_with [p]) actual) ps = holds (begins_with ps) actual"
    by (auto simp: holds_def list_ex_iff begins_with_any [of ps])
  finally show ?thesis by (simp add: match_leaf_def any_res_map)
qed

lemma dec_double_not_nan: "dec_double m e \<noteq> NaN"
  by (simp add: dec_double_def ratio_double_def Let_def)

lemma at_least: "x \<noteq> NaN \<Longrightarrow> numeric_holds ''>='' x (Fin t) \<longleftrightarrow> \<not> double_less x (Fin t)"
  by (cases x) (auto simp: double_eq_def)

lemma match_severity:
  assumes "list_all readable (leaves actual)"
  shows "match_leaf [VDict [(''numeric'', VList [VStr ''>='', VInt 4])]] actual = Inr (holds severe actual)"
proof -
  have four: "py_float (VInt 4) = Inr (Fin (4 * one_units))" by (rule py_float_int) simp
  have "match_scalar ''numeric'' (VList [VStr ''>='', VInt 4]) v = Inr (severe v)" if "readable v" for v
  proof (cases v)
    case (VInt i)
    with that have "py_float v = Inr (Fin (i * one_units))" by (simp add: py_float_int del: py_float.simps)
    with VInt four show ?thesis
      by (simp add: match_scalar_def numeric_match_def at_least one_units_def del: py_float.simps numeric_holds.simps)
  next
    case (VFloat m e)
    with four show ?thesis
      by (simp add: match_scalar_def numeric_match_def at_least dec_double_not_nan
          del: py_float.simps(1) numeric_holds.simps)
  qed (simp_all add: match_scalar_def numeric_match_def)
  with assms have "match_one (VDict [(''numeric'', VList [VStr ''>='', VInt 4])]) actual = Inr (holds severe actual)"
    by (intro match_matcher_leaf) (auto simp: supported_matchers_def list_all_iff)
  then show ?thesis by (simp add: match_leaf_def)
qed

text \<open>
  C25: the iam-key-leak rule selects exactly the findings about an access key whose type begins with
  one of the four families and whose severity is at least 4.
\<close>

theorem iam_pattern_selects:
  assumes "map_of ev ''detail'' = Some (VDict d)" and "list_all readable (leaves (map_of d ''severity''))"
  shows "matches iam_pattern (VDict ev) =
     Inr (has_text ''source'' [''aws.guardduty''] ev \<and> has_text ''detail-type'' [''GuardDuty Finding''] ev \<and>
          leaked_key_finding d)"
proof -
  have "match_items
     [(''type'', VList (map (\<lambda>p. VDict [(''prefix'', VStr p)]) leaked_key_types)),
      (''severity'', VList [VDict [(''numeric'', VList [VStr ''>='', VInt 4])]]),
      (''resource'', VDict [(''resourceType'', VList [VStr ''AccessKey''])])] d = Inr (leaked_key_finding d)"
    using assms(2)
    by (simp add: match_items.simps(2) [of "''type''"] match_items.simps(2) [of "''severity''"] match_prefixes
        match_severity match_items_nested [where P = "has_text ''resourceType'' [''AccessKey'']"] match_items_text
        leaked_key_finding_def)
  with assms(1) show ?thesis
    by (simp add: matches_def match_object.simps iam_pattern_def match_items_text leaked_key_types_def
        match_items.simps(2) [of "''detail''"] match_nested.simps)
qed

theorem iam_pattern_selects_witness:
  "matches iam_pattern (VDict
     [(''source'', VStr ''aws.guardduty''), (''detail-type'', VStr ''GuardDuty Finding''),
      (''detail'', VDict
         [(''type'', VStr ''CredentialAccess:IAMUser/AnomalousBehavior''), (''severity'', VInt 8),
          (''resource'', VDict [(''resourceType'', VStr ''AccessKey'')])])]) = Inr True"
  by (subst iam_pattern_selects)
     (auto simp: has_text_def holds_def is_text_def leaked_key_finding_def begins_with_def leaked_key_types_def
        under_def)

subsection \<open>From the rule to the handler\<close>

lemma envelope_text: "map_of ev k = Some (VStr s) \<Longrightarrow> has_text k ss ev \<longleftrightarrow> s \<in> set ss"
  by (auto simp: has_text_def holds_def is_text_def)

text \<open>
  C22: an event any of the three rules delivers is accepted by the handler's parser, with the source
  and the detail of the event. The envelope EventBridge puts around an event has its source and its
  detail-type as texts.
\<close>

theorem delivered_parses:
  assumes "pat \<in> {sg_pattern, s3_pattern, iam_pattern}" and "matches pat (VDict ev) = Inr True"
    and "map_of ev ''source'' = Some (VStr src)" and "map_of ev ''detail-type'' = Some (VStr dt)"
  shows "\<exists>x. parse ev = Inr x \<and> Models.source x = src \<and> detail x = mapping (dict_get ev ''detail'' VNone)"
proof -
  have "match_items pat ev = Inr True" using assms(2) by (simp add: matches_def match_object.simps)
  with assms(1,3,4) have "src = ''aws.guardduty'' \<or> src \<noteq> [] \<and> dt = ''AWS API Call via CloudTrail''"
    by (auto simp: sg_pattern_def s3_pattern_def iam_pattern_def match_items_text envelope_text split: if_splits)
  with assms(3,4) show ?thesis
    by (auto simp: parse_defs dict_get_def text_or_def unknown_def)
qed

theorem delivered_parses_witness:
  "\<exists>ev x. matches s3_pattern (VDict ev) = Inr True \<and> parse ev = Inr x \<and> Models.source x = ''aws.s3''"
proof -
  define ev where "ev =
    [(''source'', VStr ''aws.s3''), (''detail-type'', VStr ''AWS API Call via CloudTrail''),
     (''detail'', VDict [(''eventSource'', VStr ''s3.amazonaws.com''), (''eventName'', VStr ''PutBucketAcl'')])]"
  have m: "matches s3_pattern (VDict ev) = Inr True"
    using match_cloudtrail [of "''aws.s3''" "''s3.amazonaws.com''"
      "[''PutBucketAcl'', ''PutBucketPolicy'', ''PutBucketPublicAccessBlock'',
        ''DeleteBucketPublicAccessBlock'']" "[]" ev]
    by (simp add: matches_def match_object.simps s3_pattern_def ev_def cloudtrail_call_def has_text_def holds_def
        is_text_def under_def succeeded_call_def)
  have "\<exists>x. parse ev = Inr x \<and> Models.source x = ''aws.s3'' \<and> detail x = mapping (dict_get ev ''detail'' VNone)"
    by (rule delivered_parses [OF _ m]) (auto simp: ev_def)
  with m show ?thesis by blast
qed

end
