(* ===== verification/Spec2Isabelle.thy ===== *)
theory Spec2Isabelle
  imports Ledger Evidence CallBound Converge TableKeys Aws EventPatterns
begin

text \<open>
  PontoAntiCrack: automatic containment of three AWS misconfigurations, as AWS Lambda handlers
  written in Python. A handler is invoked with one EventBridge event; it decides whether the event
  names a dangerous resource (\<open>plan\<close>), passes a chain of gates, changes the resource (\<open>apply\<close>),
  writes an audit table, and alerts a Slack channel. This library models the Python code under
  \<open>src/remediations\<close> and \<open>src/notifier\<close> (all of it but the logging calls) and proves that it
  keeps its promises for any event and any behaviour of AWS.

  How the parts interact. \<open>entrypoint.py\<close> keeps one container per Lambda: the configuration, the
  AWS clients and the notifier are created by the first invocation and reused. It calls \<open>execute\<close>
  of \<open>runtime.py\<close> with a detection and a notifier, the two interfaces the runtime is written
  against. \<open>execute\<close> parses the event (\<open>events.py\<close>), stops at an event of the system's own role
  (\<open>models.py\<close>), asks the detection for a plan, and then: exclusion tag, snapshot in the audit
  table (\<open>audit.py\<close>), circuit breaker (\<open>circuit_breaker.py\<close>), dry-run, escalation, \<open>apply\<close>,
  closing audit write, alert. The Slack notifier (\<open>slack.py\<close>) claims the alert in a table
  (\<open>dedup.py\<close>), reads its webhook from Secrets Manager once, redacts the payload (\<open>redact.py\<close>)
  and posts it.

  Theories, from the bottom up.
  - \<open>Prelude\<close>, \<open>PyStr\<close>, \<open>PyVal\<close>, \<open>PyJson\<close>, \<open>JsonRound\<close>: what the source uses of Python.
    Strings are lists of the bytes of their UTF-8 encoding; \<open>pyval\<close> is the type of JSON values
    (None, bool, int, float by its digits, str, list, dict in insertion order) and of objects known
    only by their \<open>str\<close>. \<open>json.dumps\<close> is in \<open>PyVal\<close>, \<open>json.loads\<close> in \<open>PyJson\<close>, and \<open>JsonRound\<close>
    shows that the second reads back what the first wrote.
  - \<open>Effects\<close>: external calls. A program is a function from a store \<open>'w\<close> (the container state and
    the world) to a result, a trace of calls with their answers, and a new store. The environment
    \<open>env\<close> answers a call and may change the world in any way; exceptions are values. The
    combinators \<open>bind\<close>, \<open>try_except\<close>, \<open>do_call\<close> come with elimination rules, and with the
    calculus \<open>emits\<close> (which calls a program can make).
  - \<open>Models\<close>, \<open>Events\<close>, \<open>Clock\<close>, \<open>Config\<close>, \<open>Redact\<close>, \<open>AuditLog\<close>, \<open>Breaker\<close>, \<open>Aws\<close>: one theory
    for each module of \<open>src/remediations/common\<close> of the same name (\<open>AuditLog\<close> for \<open>audit.py\<close>).
    Definitions have the name of the function or class, with a prefix where the name is taken.
  - \<open>Contracts\<close>: \<open>detection.py\<close> and the notifier protocol, as the records \<open>detection\<close> and
    \<open>notifier\<close> and as locales: \<open>detection_contract\<close> (a plan only reads; applying makes
    nothing but changes to the resource) and \<open>notifier_contract\<close> (an alert never changes a resource).
  - \<open>Runtime\<close>: \<open>execute\<close>, split at its source positions in \<open>run_plan\<close>, \<open>run_gates\<close> and
    \<open>run_apply\<close>, and the locale \<open>pipeline\<close>, in which what a run does is proved once from the two
    contracts.
  - \<open>SgOpen\<close>, \<open>S3Public\<close>, \<open>IamKeyLeak\<close>: the three detections, each with the interpretation of
    \<open>detection_contract\<close> that discharges the contract. \<open>SgRules\<close> is the typed view of security
    group rules against which the rule narrowing of \<open>SgOpen\<close> is proved correct.
  - \<open>Sha256\<close>, \<open>Dedup\<close>, \<open>Slack\<close>: the notifier, down to the fingerprint of an alert.
  - \<open>Evidence\<close>: the JSON texts that leave the program, the snapshot in the audit table and the body of
    an alert: what a reader gets back from them, and that no secret is left in the text as a whole.
  - \<open>Entrypoint\<close>: the container and \<open>lambda_handler\<close>, and the interpretation \<open>deployed\<close> of
    \<open>pipeline\<close> on the three detections and the notifier the code builds.
  - \<open>CallBound\<close>: how many external calls an invocation can make, in the locale \<open>bounded_pipeline\<close>, an
    extension of \<open>pipeline\<close>, interpreted on the deployed pipelines with their numbers.
  - \<open>Delivery\<close>: every outcome that came from a plan reaches the notifier, and what Slack then does.
  - \<open>Converge\<close>: once a change is in place, planning again finds nothing to do.
  - \<open>TableKeys\<close>: records, counters and claims share one table and never a key.
  - \<open>History\<close>: several invocations at once, as any interleaving of their calls, with what the code
    relies on in DynamoDB (atomic \<open>ADD\<close>, atomic conditional write) as predicates on histories.
  - \<open>Scenario\<close>: a concrete account, world and event, evaluated by the kernel; the witnesses of the
    properties below run in it.
  - \<open>Lifecycle\<close>: the life of a container, an inductive relation over its invocations with the world
    moving between them. The locale \<open>run_relation\<close> carries a relation between the start, the trace and
    the end of a run from the notifier to the whole handler; it is interpreted twice, for what is kept
    of the webhook and for its being an https URL.
  - \<open>Redelivery\<close>: what a run that raised after a change leaves to the run that follows it.
  - \<open>Ledger\<close>: the audit table as a state. What a write makes of an item is a parameter with the
    documented effects of \<open>put_item\<close> and \<open>SET\<close> as its hypothesis; \<open>table_run\<close> is what can become of the table
    while a run makes its calls, with writes that raised stored or not and the items of others changing.
  - \<open>PyFloat\<close>, \<open>EventPatterns\<close>: the patterns of \<open>detections/*/pattern.json\<close>, as data, and the evaluator of
    \<open>tests/support/eventbridge.py\<close>, the repository's statement of what a pattern means; \<open>PyFloat\<close> has the
    doubles it compares with, in units of the smallest subnormal. Each pattern is shown equivalent to
    a description of the events it selects, and what a rule delivers to be accepted by \<open>Events\<close>.

  What the lemmas show.
  - Safety of the pipeline: snapshot and breaker before any change, nothing changed in dry-run, for
    own events, exclusions and escalations, a bound on the calls of a run, and the bound on
    changing invocations per breaker window over all interleavings.
  - Refinement: the outcome of a run is that of a pure specification (\<open>outcome_spec\<close>, below), every
    outcome is recorded, the record of a change holds its snapshot at every moment from the change on
    and ends closed with the returned outcome (theory \<open>Ledger\<close>), and each detection's plan and apply
    are characterised on every branch.
  - Convergence: applying the remediation leaves nothing for the next run to plan.
  - Containers: over any sequence of invocations the configuration stays valid, all alerts go to one
    https URL, and the secret is not read again once something was posted.
  - Patterns: which events reach a handler at all, and that it can read them.
  - Errors: how the alert of a change can be lost, when an exclusion tag is not honoured, which
    exceptions escape, which delivery failures are swallowed, when the record of a change is replaced.
  - Data: redaction is complete and idempotent, snapshots round-trip through JSON, breaker
    windows contain their moments and are aligned.

  Bounds. Python's integers are unbounded and modelled as \<open>int\<close>; the 32-bit words of SHA-256 as
  words of that length, with constants computed from the primes as FIPS 180-4 defines them. No
  definition runs on fuel: every recursion is structural or has its measure. \<open>json.loads\<close> has no depth
  limit here, where the interpreter raises at its recursion limit.

  Limits of the model. Case folding, white space and digits beyond ASCII, and the digits of a
  float's \<open>repr\<close> are those of the ASCII subset; not-a-number and infinities are opaque. Creating a
  boto3 client is folded into the first call on it (\<open>Aws\<close> models the cache itself, with the accessors
  the program uses). Log lines are left out. A run cut off by the Lambda timeout is a prefix of its trace, which the trace
  properties cover. What AWS promises (atomic updates, a read that
  returns what was written) appears only as hypotheses of the properties that need it.

  Not modelled: the tests and fixtures, the Terraform configuration, the shell scripts and attack
  simulations; EventBridge itself, whose reading of a pattern is represented by the repository's own
  evaluator; and how often Lambda delivers an event again.
\<close>

section \<open>Properties of the whole pipeline\<close>

subsection \<open>Before anything is changed\<close>

lemma split_after:
  assumes "xs @ ys = pre @ e # post" and "e \<notin> set xs"
  obtains zs where "pre = xs @ zs"
  using append_eq_split [OF assms(1)] assms(2) by auto

text \<open>
  C1: no resource is ever changed before the plan's snapshot of its prior state has been stored in
  the audit table and the circuit breaker has counted the attempt and admitted it, whichever
  detection runs, whatever the event, and whatever AWS answers.
\<close>

theorem snapshot_before_change:
  assumes "execute env (detector env h) raw cfg (build_notifier env cfg) s = (r, t, s')"
    and "t = pre @ e # post" and "is_remediation (fst e)"
  shows "\<exists>ev p t1 s1. parse raw = Inr ev \<and> plan_of (detector env h) ev s = (Inr (Some p), t1, s1) \<and>
           (\<exists>g\<in>set pre. opened cfg ev p g) \<and>
           (\<exists>g\<in>set pre. \<exists>ws n. breaker_event cfg ws n g \<and> n \<le> circuit_breaker_max_actions cfg)"
proof -
  have e: "e \<in> set t" using assms(2) by simp
  obtain ev p t1 s1 eo ws n eb s2 r2 t2 s3 t3 where
      run: "parse raw = Inr ev" "plan_of (detector env h) ev s = (Inr (Some p), t1, s1)"
        "opened cfg ev p eo" "breaker_event cfg ws n eb" "n \<le> circuit_breaker_max_actions cfg"
        "t = t1 @ [eo, eb] @ t2 @ t3" "list_all (\<lambda>e. is_read (fst e)) t1"
    using deployed.acting_run [OF assms(1) e assms(3)] by metis
  have "e \<notin> set (t1 @ [eo, eb])"
    using run(3,4,7) assms(3)
    by (auto simp: opened_def breaker_event_def breaker_update_def list_all_iff dest: quiet_calls)
  moreover have "(t1 @ [eo, eb]) @ (t2 @ t3) = pre @ e # post" using run(6) assms(2) by simp
  ultimately obtain zs where "pre = (t1 @ [eo, eb]) @ zs" by (elim split_after)
  with run show ?thesis by auto
qed

text \<open>
  C3: nothing is changed in dry-run, for an event of the system's own role, for a resource with
  the exclusion tag, or for a plan without actions (an escalation).
\<close>

theorem withheld_changes_nothing:
  assumes "execute env (detector env h) raw cfg (build_notifier env cfg) s = (r, t, s')"
    and "dry_run cfg \<or>
         (\<exists>ev. parse raw = Inr ev \<and> is_pac_automation (principal ev)) \<or>
         (\<exists>ev p t1 s1. parse raw = Inr ev \<and> plan_of (detector env h) ev s = (Inr (Some p), t1, s1) \<and>
            (map_of (tags p) (exclusion_tag cfg) \<noteq> None \<or> intended_actions p = []))"
  shows "\<forall>e\<in>set t. \<not> is_remediation (fst e)"
proof (intro ballI notI)
  fix e
  assume "e \<in> set t" and "is_remediation (fst e)"
  from deployed.acting_run [OF assms(1) this] obtain ev p t1 s1 where
    "parse raw = Inr ev" "\<not> is_pac_automation (principal ev)"
    "plan_of (detector env h) ev s = (Inr (Some p), t1, s1)"
    "map_of (tags p) (exclusion_tag cfg) = None" "intended_actions p \<noteq> []" "\<not> dry_run cfg"
    by metis
  with assms(2) show False by auto
qed

subsection \<open>Storms\<close>

text \<open>
  C2: however many invocations run at once and however their calls interleave, at most the
  configured number of them change a resource in any one window of the breaker, given that the
  counter's \<open>ADD\<close> is atomic.
\<close>

theorem storm_bounded:
  fixes w :: "'w itself"
  assumes "runs_of w cfg h" and "atomic_counter cfg h" and "wf_config cfg"
  shows "int (card {i. acted_in cfg ws (of_run i h)}) \<le> circuit_breaker_max_actions cfg"
proof -
  let ?A = "{i. \<exists>e. (i, e) \<in> set h \<and> admitted cfg ws e}"
  have "?A \<subseteq> fst ` set h" by force
  then have "finite ?A" by (rule finite_subset) simp
  then have "card {i. acted_in cfg ws (of_run i h)} \<le> card ?A"
    by (rule card_mono [OF _ acted_subset [OF assms(1)]])
  also have "\<dots> \<le> length (filter (\<lambda>x. admitted cfg ws (snd x)) h)" by (rule card_tags_le)
  finally have "int (card {i. acted_in cfg ws (of_run i h)}) \<le>
      int (length (filter (\<lambda>x. admitted cfg ws (snd x)) h))" by simp
  also have "\<dots> \<le> circuit_breaker_max_actions cfg"
    using assms(2,3) by (intro admitted_bound) (simp_all add: wf_config_def)
  finally show ?thesis .
qed


subsection \<open>The outcome\<close>

text \<open>
  The specification of an invocation: its outcome as a function of the event, the plan, the count
  the breaker got and the result of applying the plan. The order of the gates is the priority of
  the reasons to do nothing.
\<close>

definition gate_spec :: "config \<Rightarrow> plan \<Rightarrow> int \<Rightarrow> string list res \<Rightarrow> outcome" where
  "gate_spec cfg p n applied =
     (if intended_actions p = [] then planned_outcome cfg p ESCALATED []
      else if circuit_breaker_max_actions cfg < n then blocked_outcome cfg p (breaker_of cfg 0 n)
      else if dry_run cfg then planned_outcome cfg p DRY_RUN (intended_actions p)
      else case applied of
             Inl e \<Rightarrow> failed_outcome cfg p e
           | Inr acts \<Rightarrow> planned_outcome cfg p APPLIED acts)"

definition outcome_spec ::
  "config \<Rightarrow> detection_event \<Rightarrow> plan option \<Rightarrow> int \<Rightarrow> string list res \<Rightarrow> outcome"
where
  "outcome_spec cfg ev planned n applied =
     (if is_pac_automation (principal ev)
      then skip cfg ''triggered by this system's own remediation role'' LOW
      else case planned of
             None \<Rightarrow> skip cfg ''resource state is not dangerous'' INFO
           | Some p \<Rightarrow>
               (case map_of (tags p) (exclusion_tag cfg) of
                  Some v \<Rightarrow> excluded_outcome cfg p v
                | None \<Rightarrow> gate_spec cfg p n applied))"

text \<open>An outcome that closed the audit item of a plan.\<close>

definition closed :: "config \<Rightarrow> pydict \<Rightarrow> outcome \<Rightarrow> event \<Rightarrow> bool" where
  "closed cfg k out e \<longleftrightarrow> (\<exists>now v. e = (close_call (table_name cfg) k out now, Inr v))"

definition noted :: "config \<Rightarrow> outcome \<Rightarrow> event \<Rightarrow> bool" where
  "noted cfg out e \<longleftrightarrow>
     (\<exists>now ev v. e = (PutItem (table_name cfg) (unplanned_item now (cfg_detection_id cfg) ev out) None [], Inr v))"

lemma conclude_returns:
  "conclude env cfg notify ev p k x s = (Inr out, t, s') \<Longrightarrow> out = x \<and> (\<exists>e\<in>set t. closed cfg k x e)"
  by (erule concludeE) (auto simp: closed_def split: sum.splits)

lemma blocked_window: "blocked_outcome cfg p (breaker_of cfg ws n) = blocked_outcome cfg p (breaker_of cfg 0 n)"
  by (simp add: blocked_outcome_def breaker_of_def breaker_reason_def)

definition gate_evidence ::
  "config \<Rightarrow> 'w detection \<Rightarrow> plan \<Rightarrow> int \<Rightarrow> string list res \<Rightarrow> outcome \<Rightarrow> event list \<Rightarrow> bool"
where
  "gate_evidence cfg det p n applied out t \<longleftrightarrow>
     (status out \<noteq> ESCALATED \<longrightarrow> (\<exists>ws. \<exists>e\<in>set t. breaker_event cfg ws n e)) \<and>
     (status out \<in> {APPLIED, FAILED} \<longrightarrow> (\<exists>s1. result (apply_of det p s1) = applied))"

lemma gate_evidenceI:
  assumes "breaker_event cfg ws n e" and "e \<in> set t"
    and "status out \<in> {APPLIED, FAILED} \<Longrightarrow> \<exists>s1. result (apply_of det p s1) = applied"
  shows "gate_evidence cfg det p n applied out t"
  using assms unfolding gate_evidence_def by blast

lemma gates_return:
  assumes "run_gates env det cfg notify ev p k s = (Inr out, t, s')"
  shows "(\<exists>e\<in>set t. closed cfg k out e) \<and>
         (\<exists>n applied. out = gate_spec cfg p n applied \<and> gate_evidence cfg det p n applied out t)"
  using assms
proof (cases rule: run_gatesE)
  case escalated
  from conclude_returns [OF escalated(2)] escalated(1) show ?thesis
    by (auto simp: gate_spec_def gate_evidence_def planned_outcome_def)
next
  case (blocked ws n eb s1 t2)
  note c = conclude_returns [OF blocked(5)]
  have "out = gate_spec cfg p n (Inr [])"
    using c blocked(1,3) by (simp add: gate_spec_def blocked_window [of cfg p ws n])
  moreover have "gate_evidence cfg det p n (Inr []) out t"
    by (rule gate_evidenceI [OF blocked(2)]) (use c blocked(4) in \<open>simp_all add: blocked_outcome_def\<close>)
  ultimately show ?thesis using c blocked(4) by auto
next
  case (dry ws n eb s1 t2)
  note c = conclude_returns [OF dry(6)]
  have "out = gate_spec cfg p n (Inr [])" using c dry(1,3,4) by (simp add: gate_spec_def)
  moreover have "gate_evidence cfg det p n (Inr []) out t"
    by (rule gate_evidenceI [OF dry(2)]) (use c dry(5) in \<open>simp_all add: planned_outcome_def\<close>)
  ultimately show ?thesis using c dry(5) by auto
next
  case (applying ws n eb s1 t2)
  from applying(6) show ?thesis
  proof (cases rule: run_applyE)
    case (failed e ta sa tc)
    note c = conclude_returns [OF failed(3)]
    have "out = gate_spec cfg p n (Inl e)" using c applying(1,3,4) by (simp add: gate_spec_def)
    moreover have "gate_evidence cfg det p n (Inl e) out t"
      by (rule gate_evidenceI [OF applying(2)]) (use failed(1) applying(5) in \<open>auto intro!: exI [of _ s1]\<close>)
    ultimately show ?thesis using c applying(5) failed(2) by auto
  next
    case (applied acts ta sa tc)
    note c = conclude_returns [OF applied(3)]
    have "out = gate_spec cfg p n (Inr acts)" using c applying(1,3,4) by (simp add: gate_spec_def)
    moreover have "gate_evidence cfg det p n (Inr acts) out t"
      by (rule gate_evidenceI [OF applying(2)]) (use applied(1) applying(5) in \<open>auto intro!: exI [of _ s1]\<close>)
    ultimately show ?thesis using c applying(5) applied(2) by auto
  qed
qed simp_all

lemma execute_spec:
  assumes "execute env det raw cfg notify s = (Inr out, t, s')"
  shows "\<exists>ev planned n applied.
           parse raw = Inr ev \<and> out = outcome_spec cfg ev planned n applied \<and>
           (\<not> is_pac_automation (principal ev) \<longrightarrow> result (plan_of det ev s) = Inr planned) \<and>
           (\<forall>p. planned = Some p \<longrightarrow> status out \<noteq> SKIPPED \<longrightarrow> gate_evidence cfg det p n applied out t)"
  using assms
proof (cases rule: executeE)
  case (own ev r1 o1)
  then show ?thesis by (intro exI [of _ ev] exI [of _ None]) (simp add: outcome_spec_def split: sum.splits)
next
  case (benign ev t1 s1 r1 t2 o1)
  then show ?thesis by (intro exI [of _ ev] exI [of _ None]) (simp add: outcome_spec_def split: sum.splits)
next
  case (planned ev p t1 s1 t2)
  note run = planned
  from planned(5) show ?thesis
  proof (cases rule: run_planE)
    case (excluded v now a s2 r2 t3)
    with run show ?thesis
      by (intro exI [of _ ev] exI [of _ "Some p"]) (simp add: outcome_spec_def excluded_outcome_def split: sum.splits)
  next
    case (gated now v s2 t3)
    from gates_return [OF gated(3)] obtain n applied where
      "out = gate_spec cfg p n applied" "gate_evidence cfg det p n applied out t3" by blast
    then show ?thesis using run gated
      by (intro exI [of _ ev] exI [of _ "Some p"] exI [of _ n] exI [of _ applied])
         (auto simp: outcome_spec_def gate_evidence_def)
  qed simp_all
qed simp_all

text \<open>
  C4: the outcome an invocation returns is the one its specification gives for the event, for the
  plan the detection made, for a count the breaker really got and for what applying the plan really gave.
\<close>

theorem outcome_refines:
  assumes "execute env det raw cfg notify s = (Inr out, t, s')"
  shows "\<exists>ev planned n applied.
           parse raw = Inr ev \<and> out = outcome_spec cfg ev planned n applied \<and>
           (\<not> is_pac_automation (principal ev) \<longrightarrow> result (plan_of det ev s) = Inr planned) \<and>
           (\<forall>p. planned = Some p \<longrightarrow> status out \<noteq> SKIPPED \<longrightarrow> gate_evidence cfg det p n applied out t)"
  using assms by (rule execute_spec)

text \<open>
  C5: every outcome that is returned is in the audit table: written down on its own when there was
  no plan to open, and otherwise as the closing update of the very item that was opened with the
  plan's snapshot earlier in the run.
\<close>

theorem outcome_recorded:
  assumes "execute env det raw cfg notify s = (Inr out, t, s')"
  shows "(\<exists>e\<in>set t. noted cfg out e) \<or>
         (\<exists>ev p pre eo post. t = pre @ eo # post \<and> opened cfg ev p eo \<and>
            (\<exists>e\<in>set post. closed cfg (plan_key_of cfg ev p) out e))"
  using assms
proof (cases rule: executeE)
  case (own ev r1 o1)
  from own(4,5) show ?thesis
    by (cases rule: record_unplannedE) (auto simp: noted_def)
next
  case (benign ev t1 s1 r1 t2 o1)
  from benign(6,7) benign(4) show ?thesis
    by (cases rule: record_unplannedE) (auto simp: noted_def)
next
  case (planned ev p t1 s1 t2)
  note run = planned
  from planned(5) show ?thesis
  proof (cases rule: run_planE)
    case (excluded v now a s2 r2 t3)
    with run show ?thesis by (auto simp: noted_def split: sum.splits)
  next
    case (gated now v s2 t3)
    let ?eo = "(PutItem (table_name cfg) (open_item now (cfg_detection_id cfg) ev p (dry_run cfg)) None [], Inr v)"
    have "opened cfg ev p ?eo" by (auto simp: opened_def)
    moreover have "t = t1 @ ?eo # t3" using run gated by simp
    moreover have "\<exists>e\<in>set t3. closed cfg (plan_key_of cfg ev p) out e" using gates_return [OF gated(3)] by blast
    ultimately show ?thesis by blast
  qed simp_all
qed simp_all

text \<open>
  C16: an outcome is consistent: it carries an error exactly when it failed, then with the exception
  that applying the plan raised; a failed or blocked one is critical; any outcome of a plan names
  the plan's resource and is no less severe than the plan, unless the resource was excluded.
\<close>

theorem outcome_consistent:
  assumes "execute env det raw cfg notify s = (Inr out, t, s')"
  shows "(error out \<noteq> None \<longleftrightarrow> status out = FAILED) \<and>
         (status out \<in> {BLOCKED, FAILED} \<longrightarrow> severity out = CRITICAL) \<and>
         (status out \<noteq> SKIPPED \<longrightarrow>
            (\<exists>ev p. parse raw = Inr ev \<and> result (plan_of det ev s) = Inr (Some p) \<and>
               outcome_resource out = resource_id p \<and> plan_severity p \<le> severity out \<and>
               (\<forall>e. status out = FAILED \<longrightarrow> error out = Some e \<longrightarrow>
                  (\<exists>x s1. result (apply_of det p s1) = Inl x \<and> e = exn_name x @ '': '' @ exn_str x)) \<and>
               (status out = APPLIED \<longrightarrow> (\<exists>s1. result (apply_of det p s1) = Inr (actions out)))))"
proof -
  obtain ev planned n applied where
      parsed: "parse raw = Inr ev" and out: "out = outcome_spec cfg ev planned n applied"
    and plan: "\<not> is_pac_automation (principal ev) \<longrightarrow> result (plan_of det ev s) = Inr planned"
    and ap: "\<forall>p. planned = Some p \<longrightarrow> status out \<noteq> SKIPPED \<longrightarrow> gate_evidence cfg det p n applied out t"
    using execute_spec [OF assms] by blast
  show ?thesis
  proof (cases "is_pac_automation (principal ev) \<or> planned = None \<or>
      (\<exists>p v. planned = Some p \<and> map_of (tags p) (exclusion_tag cfg) = Some v)")
    case True
    then have "status out = SKIPPED \<and> error out = None"
      by (auto simp: out outcome_spec_def outcome_defs)
    then show ?thesis by simp
  next
    case False
    then obtain p where p: "planned = Some p" "map_of (tags p) (exclusion_tag cfg) = None"
      "\<not> is_pac_automation (principal ev)" by auto
    then have gate: "out = gate_spec cfg p n applied" by (simp add: out outcome_spec_def)
    then have live: "status out \<noteq> SKIPPED" by (auto simp: gate_spec_def outcome_defs split: sum.splits)
    then have ev: "gate_evidence cfg det p n applied out t" using ap p(1) by blast
    have same: "outcome_resource out = resource_id p \<and> plan_severity p \<le> severity out \<and>
        (error out \<noteq> None \<longleftrightarrow> status out = FAILED) \<and>
        (status out \<in> {BLOCKED, FAILED} \<longrightarrow> severity out = CRITICAL)"
      by (auto simp: gate gate_spec_def outcome_defs split: sum.splits)
    have failed: "\<exists>x s1. result (apply_of det p s1) = Inl x \<and> e = exn_name x @ '': '' @ exn_str x"
      if "status out = FAILED" "error out = Some e" for e
    proof -
      from that gate obtain x where "applied = Inl x" "e = exn_name x @ '': '' @ exn_str x"
        by (auto simp: gate_spec_def outcome_defs split: sum.splits if_splits)
      with ev that(1) show ?thesis by (auto simp: gate_evidence_def)
    qed
    have acted: "\<exists>s1. result (apply_of det p s1) = Inr (actions out)" if "status out = APPLIED"
    proof -
      from that gate have "applied = Inr (actions out)"
        by (auto simp: gate_spec_def outcome_defs split: sum.splits if_splits)
      with ev that show ?thesis by (auto simp: gate_evidence_def)
    qed
    from same failed acted parsed plan p show ?thesis by blast
  qed
qed

subsection \<open>The ends of a run\<close>

text \<open>
  An event of the system's own role is written down once and that is all: the resource is not
  read, nothing is changed, nobody is alerted.
\<close>

lemma own_event_only_noted:
  assumes "execute env det raw cfg notify s = (r, t, s')"
    and "parse raw = Inr ev" and "is_pac_automation (principal ev)"
  shows "\<exists>now a. let out = skip cfg ''triggered by this system's own remediation role'' LOW in
           t = [(PutItem (table_name cfg) (unplanned_item now (cfg_detection_id cfg) ev out) None [], a)] \<and>
           r = (case a of Inl e \<Rightarrow> Inl e | Inr _ \<Rightarrow> Inr out)"
  using assms(1)
proof (cases rule: executeE)
  case (own ev' r1 out)
  with assms(2) have "ev' = ev" by simp
  with own show ?thesis by (elim record_unplannedE) (auto simp: Let_def)
qed (use assms(2,3) in auto)

text \<open>
  C17: an exception raised while planning, a denied read for one, ends the invocation as it is:
  the run made the reads of the plan and nothing else, so there is no FAILED outcome, no audit
  record and no alert.
\<close>

theorem plan_error_escapes:
  assumes "parse raw = Inr ev" and "\<not> is_pac_automation (principal ev)"
    and "plan_of (detector env h) ev s = (Inl e, t, s')"
  shows "execute env (detector env h) raw cfg notify s = (Inl e, t, s') \<and>
         (\<forall>x\<in>set t. is_read (fst x))"
  using emitsD [OF detector_reads assms(3)] assms
  by (simp add: execute_def bind_def lift_def list_all_iff)

text \<open>
  C20: when the tags of an IAM user cannot be read, the key is handled as one of an untagged user: the
  plan is to deactivate it and the exclusion tag is not honoured, whatever the tag of the
  configuration is and whatever tags the user has.
\<close>

theorem exclusion_unread:
  assumes "iam_plan env ev s = (Inr (Some p), t, s')" and "(ListUserTags u, Inl e) \<in> set t"
  shows "intended_actions p \<noteq> [] \<and>
         run_plan env det cfg notify ev p =
           bind (audit_open env (table_name cfg) (cfg_detection_id cfg) ev p (dry_run cfg))
             (run_gates env det cfg notify ev p)"
  using iam_plan_refused_tags [OF assms] by (simp add: run_plan_def)

definition tagless_env :: "unit env" where
  "tagless_env = \<lparr>
     perform = (\<lambda>c w. (case c of
        ListUserTags _ \<Rightarrow> Inl (External ''AccessDenied'' ''not authorized: iam:ListUserTags'' None)
      | _ \<Rightarrow> Inr (VDict []), w)),
     clock_now = (\<lambda>w. (midnight, w))\<rparr>"

theorem exclusion_unread_witness:
  "\<exists>p t s'. iam_plan tagless_env (leaked_event ''IAMUser'') demo_state = (Inr (Some p), t, s') \<and>
     run_plan tagless_env (iam_key_leak tagless_env) demo_cfg null_notify (leaked_event ''IAMUser'') p =
       bind (audit_open tagless_env ''pac'' ''sg-open'' (leaked_event ''IAMUser'') p False)
         (run_gates tagless_env (iam_key_leak tagless_env) demo_cfg null_notify (leaked_event ''IAMUser'') p)"
proof -
  obtain p t s' where run: "iam_plan tagless_env (leaked_event ''IAMUser'') demo_state = (Inr (Some p), t, s')"
    and e: "(ListUserTags ''alice'', Inl (External ''AccessDenied'' ''not authorized: iam:ListUserTags'' None)) \<in> set t"
    using leaked_fields
    by (simp add: iam_plan_def Let_def bind_def last_used_def key_metadata_def user_tags_def try_except_def
      ret_def lift_def dict_get_def py_or_def do_call_def tagless_env_def)
  show ?thesis using exclusion_unread [OF run e] run by (simp add: exI)
qed

lemma conclude_raises:
  assumes "conclude env cfg notify ev p k out s = (Inl e, t, s')"
  shows "(\<exists>now. last t = (close_call (table_name cfg) k out now, Inl e)) \<or>
         (\<exists>s1 t1. notify ev out (Some p) s1 = (Inl e, t1, s') \<and> (\<exists>g\<in>set t. closed cfg k out g))"
  using assms by (cases rule: concludeE) (auto simp: closed_def split: sum.splits)

lemma conclude_nonempty: "conclude env cfg notify ev p k out s = (r, t, s') \<Longrightarrow> t \<noteq> []"
  by (erule concludeE) auto

text \<open>
  C18: when an invocation that changed a resource raises, it is because the closing update failed or
  because, with the record closed, the notifier raised: a failure to apply never escapes, but a
  failure to deliver can, after the change is made.
\<close>

theorem change_then_error:
  assumes "execute env (detector env h) raw cfg (build_notifier env cfg) s = (Inl e, t, s')"
    and "x \<in> set t" and "is_remediation (fst x)"
  shows "\<exists>k out. (\<exists>now. last t = (close_call (table_name cfg) k out now, Inl e)) \<or>
           (\<exists>ev p s1 t1. build_notifier env cfg ev out (Some p) s1 = (Inl e, t1, s') \<and>
              (\<exists>g\<in>set t. closed cfg k out g))"
proof -
  obtain ev p out s4 t0 tc where
    c: "conclude env cfg (build_notifier env cfg) ev p (plan_key_of cfg ev p) out s4 = (Inl e, tc, s')" "t = t0 @ tc"
    using raise_after_change [OF assms] by metis
  have "tc \<noteq> []" using conclude_nonempty [OF c(1)] .
  then have "last t = last tc" and "set tc \<subseteq> set t" using c(2) by auto
  with conclude_raises [OF c(1)] show ?thesis by (metis subsetD)
qed

subsection \<open>The properties on a concrete run\<close>

lemmas demo_run_trace = demo_trace [unfolded demo_run_def]

theorem snapshot_before_change_witness:
  "\<exists>ev p. (\<exists>g\<in>set (demo_reads @ [demo_opening, demo_counting]). opened demo_cfg ev p g)"
proof -
  have "demo_reads @ [demo_opening, demo_counting, demo_revoke, demo_closing (Inr VNone)] =
      (demo_reads @ [demo_opening, demo_counting]) @ demo_revoke # [demo_closing (Inr VNone)]" by simp
  from snapshot_before_change [OF demo_run_trace this demo_revoked] show ?thesis by blast
qed

theorem withheld_changes_nothing_witness:
  "list_all (\<lambda>e. \<not> is_remediation (fst e))
     (events (execute (demo_env (Inr VNone)) (detector (demo_env (Inr VNone)) SG_OPEN) demo_raw
        (demo_cfg\<lparr>dry_run := True\<rparr>) (build_notifier (demo_env (Inr VNone)) (demo_cfg\<lparr>dry_run := True\<rparr>)) demo_state))"
proof -
  let ?c = "demo_cfg\<lparr>dry_run := True\<rparr>"
  obtain r t s' where run: "execute (demo_env (Inr VNone)) (detector (demo_env (Inr VNone)) SG_OPEN) demo_raw ?c
      (build_notifier (demo_env (Inr VNone)) ?c) demo_state = (r, t, s')"
    using prod_cases3 by blast
  from withheld_changes_nothing [OF run] have "\<forall>e\<in>set t. \<not> is_remediation (fst e)" by simp
  then show ?thesis unfolding run fst_conv snd_conv list_all_iff .
qed

theorem outcome_refines_witness:
  "\<exists>ev planned n applied. demo_outcome = outcome_spec demo_cfg ev planned n applied"
  using outcome_refines [OF demo_run_trace [of "Inr VNone", unfolded demo_result_def sum.case]] by blast

lemma recorded_somewhere:
  assumes "(\<exists>e\<in>set t. noted cfg out e) \<or>
           (\<exists>ev p pre eo post. t = pre @ eo # post \<and> opened cfg ev p eo \<and>
              (\<exists>e\<in>set post. closed cfg (plan_key_of cfg ev p) out e))"
  shows "(\<exists>e\<in>set t. noted cfg out e) \<or> (\<exists>e\<in>set t. \<exists>k. closed cfg k out e)"
  using assms by auto

theorem outcome_recorded_witness:
  "(\<exists>e\<in>set (events (demo_run (Inr VNone))). noted demo_cfg demo_outcome e) \<or>
   (\<exists>e\<in>set (events (demo_run (Inr VNone))). \<exists>k. closed demo_cfg k demo_outcome e)"
  using recorded_somewhere [OF outcome_recorded [OF demo_run_trace [of "Inr VNone", unfolded demo_result_def sum.case]]]
  unfolding demo_trace fst_conv snd_conv .


theorem outcome_consistent_witness: "HIGH \<le> severity demo_outcome \<and> error demo_outcome = None"
proof -
  have "status demo_outcome = APPLIED" by (simp add: demo_outcome_def planned_outcome_def)
  moreover have "plan_severity demo_plan = HIGH" by code_simp
  ultimately show ?thesis
    using outcome_consistent [OF demo_run_trace [of "Inr VNone", unfolded demo_result_def sum.case]]
    by (auto simp: demo_outcome_def planned_outcome_def)
qed

theorem change_then_error_witness:
  "\<exists>k out now. last (events (demo_run (Inl (External ''ClientError'' ''throttled'' None)))) =
     (close_call ''pac'' k out now, Inl (External ''ClientError'' ''throttled'' None))"
proof -
  let ?e = "External ''ClientError'' ''throttled'' None"
  have rem: "demo_revoke \<in> set (demo_reads @ [demo_opening, demo_counting, demo_revoke, demo_closing (Inl ?e)])"
    by simp
  from change_then_error [OF demo_run_trace [of "Inl ?e", unfolded demo_result_def sum.case] rem demo_revoked]
  show ?thesis by (auto simp: demo_trace demo_notify ret_def)
qed

definition demo_history :: history where
  "demo_history = map (Pair 0) (events (demo_run (Inr VNone)))"

lemma demo_history_run: "of_run 0 demo_history = events (demo_run (Inr VNone))"
  by (simp add: of_run_def demo_history_def comp_def)

lemma demo_not_counted:
  "\<not> counted demo_cfg ws demo_opening" "\<not> counted demo_cfg ws (demo_closing cl)"
  "\<not> counted demo_cfg ws demo_revoke" "x \<in> set demo_reads \<Longrightarrow> \<not> counted demo_cfg ws x"
proof -
  have "list_all id (map (is_read \<circ> fst) demo_reads)" using demo_plan_checks by simp
  then have reads: "x \<in> set demo_reads \<Longrightarrow> is_read (fst x)" for x by (auto simp: list_all_iff)
  show "x \<in> set demo_reads \<Longrightarrow> \<not> counted demo_cfg ws x" using reads not_counted(1) by blast
  show "\<not> counted demo_cfg ws demo_revoke" using demo_revoked not_counted(2) by blast
  show "\<not> counted demo_cfg ws demo_opening"
    using counted_fst [of demo_cfg ws demo_opening] by (auto simp: demo_opening_def pk_open_item)
  show "\<not> counted demo_cfg ws (demo_closing cl)"
    using counted_fst [of demo_cfg ws "demo_closing cl"]
    by (auto simp: demo_closing_def close_call_def pk_plan_key)
qed

lemma demo_counted_once: "length (filter (\<lambda>x. counted demo_cfg ws (snd x)) demo_history) \<le> 1"
proof -
  have "filter (\<lambda>x. counted demo_cfg ws (snd x)) (map (Pair 0) demo_reads) = []"
    using demo_not_counted(4) by (auto simp: filter_empty_conv)
  then show ?thesis by (simp add: demo_history_def demo_trace demo_not_counted)
qed

lemma demo_atomic: "atomic_counter demo_cfg demo_history"
  unfolding atomic_counter_def
proof (intro allI impI)
  fix pre i e post ws n
  assume h: "demo_history = pre @ (i, e) # post" and b: "breaker_event demo_cfg ws n e"
  let ?P = "\<lambda>x. counted demo_cfg ws (snd x)"
  have c: "counted demo_cfg ws e" using b by (auto simp: counted_def)
  have "filter ?P pre = []" using demo_counted_once [of ws] c unfolding h by simp
  moreover have "e = demo_counting"
  proof -
    have "(i, e) \<in> set demo_history" by (simp add: h)
    then have "e \<in> set (demo_reads @ [demo_opening, demo_counting, demo_revoke, demo_closing (Inr VNone)])"
      by (auto simp: demo_history_def demo_trace)
    with c demo_not_counted(1-3) demo_not_counted(4) [of e ws] show ?thesis by auto
  qed
  then have "n = 1" using b by (auto simp: breaker_event_def demo_counting_def attempts_of_def dict_get_def)
  ultimately show "int (length (filter ?P pre)) < n" by simp
qed

lemma demo_wf: "wf_config demo_cfg"
  by (simp add: wf_config_def demo_cfg_def)

lemma demo_runs: "runs_of TYPE(unit) demo_cfg demo_history"
  unfolding runs_of_def
proof
  fix i
  assume "i \<in> fst ` set demo_history"
  then have i: "i = 0" by (auto simp: demo_history_def)
  show "\<exists>(env :: unit env) d raw s r s'.
      execute env (detector env d) raw demo_cfg (build_notifier env demo_cfg) s = (r, of_run i demo_history, s')"
    unfolding i demo_history_run demo_trace fst_conv snd_conv using demo_run_trace by blast
qed

theorem storm_bounded_witness: "int (card {i. acted_in demo_cfg 0 (of_run i demo_history)}) \<le> 5"
  using storm_bounded [OF demo_runs demo_atomic demo_wf, of 0] by simp


definition own_raw :: pydict where
  "own_raw =
     [(''source'', VStr ''aws.ec2''), (''detail-type'', VStr ''AWS API Call via CloudTrail''),
      (''detail'', VDict [(''userIdentity'', VDict
         [(''arn'', VStr ''arn:aws:sts::111122223333:assumed-role/pac-sg-open/session'')])])]"

lemma own_event_only_noted_witness:
  "length (events (execute (demo_env (Inr VNone)) (detector (demo_env (Inr VNone)) SG_OPEN) own_raw demo_cfg
     null_notify demo_state)) = 1"
proof -
  have own: "\<not> isl (parse own_raw) \<and> is_pac_automation (principal (projr (parse own_raw)))" by code_simp
  then have parsed: "parse own_raw = Inr (projr (parse own_raw))" by simp
  obtain r t s' where run: "execute (demo_env (Inr VNone)) (detector (demo_env (Inr VNone)) SG_OPEN) own_raw
      demo_cfg null_notify demo_state = (r, t, s')"
    using prod_cases3 by blast
  have "length t = 1"
    using own_event_only_noted [OF run parsed] own by (auto simp: Let_def)
  then show ?thesis unfolding run fst_conv snd_conv .
qed

definition warm_container :: container where
  "warm_container = \<lparr>c_config = Some demo_cfg, c_aws = Some (), c_notifier = Some demo_cfg\<rparr>"

theorem handler_runs_pipeline_witness:
  "\<exists>cfg out. wf_config cfg \<and> summary demo_outcome = summary out \<and>
     execute (demo_env (Inr VNone)) (detector (demo_env (Inr VNone)) SG_OPEN) demo_raw cfg
       (build_notifier (demo_env (Inr VNone)) cfg) demo_state =
     (Inr out, events (demo_run (Inr VNone)), demo_state)"
proof -
  let ?env = "demo_env (Inr VNone)"
  obtain c' m where h: "lambda_handler ?env SG_OPEN Map.empty (Inr ()) (Inr ()) warm_container demo_raw = (c', m)"
    by force
  have wf: "wf_container warm_container"
    by (rule wf_container_intro) (simp_all add: warm_container_def demo_wf)
  have m: "m = bind (execute ?env (detector ?env SG_OPEN) demo_raw demo_cfg (build_notifier ?env demo_cfg))
      (\<lambda>out. ret (summary out))"
    using h by (simp add: lambda_handler_def resolve_def get_config_def get_aws_def get_notifier_def warm_container_def)
  have "m demo_state = (Inr (summary demo_outcome), events (demo_run (Inr VNone)), demo_state)"
    unfolding m demo_trace bind_def demo_run_trace demo_result_def by (simp add: ret_def)
  from handler_runs_pipeline [OF h wf this] show ?thesis by blast
qed

definition denied_env :: "unit env" where
  "denied_env = s3_env (\<lambda>c. Inl (External ''AccessDenied'' ''Access Denied'' None))"

definition bucket_raw :: pydict where
  "bucket_raw =
     [(''source'', VStr ''aws.s3''), (''detail-type'', VStr ''AWS API Call via CloudTrail''),
      (''detail'', VDict [(''requestParameters'', VDict [(''bucketName'', VStr ''b'')])])]"

theorem plan_error_escapes_witness:
  "result (execute denied_env (detector denied_env S3_PUBLIC) bucket_raw demo_cfg null_notify demo_state) =
     Inl (External ''AccessDenied'' ''Access Denied'' None)"
proof -
  let ?e = "External ''AccessDenied'' ''Access Denied'' None" and ?ev = "projr (parse bucket_raw)"
  have parsed: "parse bucket_raw = Inr ?ev" and own: "\<not> is_pac_automation (principal ?ev)"
  proof -
    have "\<not> isl (parse bucket_raw) \<and> \<not> is_pac_automation (principal (projr (parse bucket_raw)))" by code_simp
    then show "parse bucket_raw = Inr ?ev" and "\<not> is_pac_automation (principal ?ev)" by simp_all
  qed
  have b: "text_field (request_parameters ?ev) ''bucketName'' = ''b''" by code_simp
  have code: "error_code ?e = ''AccessDenied''" by (simp add: error_code_def)
  have "plan_of (detector denied_env S3_PUBLIC) ?ev demo_state = (Inl ?e, [(GetBucketAcl ''b'', Inl ?e)], demo_state)"
    by (simp add: s3_public_def s3_plan_def b Let_def bind_def safe_def try_except_def do_call_def denied_env_def
        s3_env_def code absent_config_codes_def throw_def demo_state_def)
  from plan_error_escapes [OF parsed own this] show ?thesis by simp
qed

end
